theory Spec2Isabelle
  imports Complex_Main
begin

section \<open>Titre prediction kernel of serosolver: \<^verbatim>\<open>src/boosting_functions.cpp\<close>\<close>

text \<open>
  A shallow embedding of the five C++ functions of \<^verbatim>\<open>boosting_functions.cpp\<close>.

  \<^item> A \<^verbatim>\<open>double\<close> is a \<^typ>\<open>real\<close>: the arithmetic is exact, so rounding, infinities and
    NaN are outside this model. \<^verbatim>\<open>multiple_infection_titre_dependent_boost\<close> is embedded a
    second time, on doubles with overflow, the infinities and NaN, for the property of its
    running total that depends on them.
  \<^item> An \<^verbatim>\<open>int\<close> is an \<^typ>\<open>int\<close>; index arithmetic is assumed to stay inside the machine range.
    Where the source keeps an index in a \<^verbatim>\<open>double\<close> (\<^verbatim>\<open>inf_map_index\<close> in three of the
    functions), the model keeps the \<^typ>\<open>int\<close> it holds.
  \<^item> A \<^verbatim>\<open>NumericVector\<close> is a \<^typ>\<open>real list\<close>, an \<^verbatim>\<open>IntegerVector\<close> an \<^typ>\<open>int list\<close>.
    Every element access is guarded: an index outside the vector ends the call with
    \<open>Inl IndexOutOfBounds\<close> (the C++ reads or writes out of bounds there).
  \<^item> \<^verbatim>\<open>theta\<close> is a vector with names, read by name: a map from names to values; a name
    that is absent ends the call with \<open>Inl (NameNotFound name)\<close>, as Rcpp throws.
  \<^item> The output buffers are passed in and returned updated; distinct arguments are distinct
    buffers.
  \<^item> A \<^verbatim>\<open>for\<close> loop is the recursive function \<open>for_loop\<close> (counting up) or \<open>for_down\<close>
    (counting down to zero), over the state the loop body changes.
\<close>

subsection \<open>Values, errors and vectors\<close>

datatype error = IndexOutOfBounds | NameNotFound string

type_synonym NumericVector = "real list"
type_synonym IntegerVector = "int list"
type_synonym NamedVector = "string \<rightharpoonup> real"

text \<open>\<^verbatim>\<open>#define MAX(a,b) ((a) < (b) ? (b) : (a))\<close>\<close>

definition MAX_macro :: "real \<Rightarrow> real \<Rightarrow> real" where
  "MAX_macro a b = (if a < b then b else a)"

text \<open>Sequencing of fallible steps: the first error ends the call.\<close>

definition rbind :: "error + 'a \<Rightarrow> ('a \<Rightarrow> error + 'b) \<Rightarrow> error + 'b" where
  "rbind m f = (case m of Inl e \<Rightarrow> Inl e | Inr x \<Rightarrow> f x)"

text \<open>\<^verbatim>\<open>v[i]\<close> as a read, \<^verbatim>\<open>v[i] = x\<close> and \<^verbatim>\<open>v[i] += x\<close>.\<close>

definition elem :: "'a list \<Rightarrow> int \<Rightarrow> error + 'a" where
  "elem v i = (if 0 \<le> i \<and> i < int (length v) then Inr (v ! nat i) else Inl IndexOutOfBounds)"

definition set_elem :: "'a list \<Rightarrow> int \<Rightarrow> 'a \<Rightarrow> error + 'a list" where
  "set_elem v i x =
     (if 0 \<le> i \<and> i < int (length v) then Inr (v[nat i := x]) else Inl IndexOutOfBounds)"

definition add_elem :: "NumericVector \<Rightarrow> int \<Rightarrow> real \<Rightarrow> error + NumericVector" where
  "add_elem v i x = rbind (elem v i) (\<lambda>old. set_elem v i (old + x))"

text \<open>\<^verbatim>\<open>theta["mu"]\<close>, and an entry of the \<^verbatim>\<open>List\<close> of additional arguments.\<close>

definition named :: "(string \<rightharpoonup> 'a) \<Rightarrow> string \<Rightarrow> error + 'a" where
  "named v name = (case v name of None \<Rightarrow> Inl (NameNotFound name) | Some x \<Rightarrow> Inr x)"

text \<open>
  The \<^verbatim>\<open>List additional_arguments\<close> holds the entries \<^verbatim>\<open>"mus"\<close> and
  \<^verbatim>\<open>"boosting_vec_indices"\<close>, each possibly absent, at the types the function converts
  them to.
\<close>

record additional_arguments =
  mus :: "NumericVector option"
  boosting_vec_indices :: "IntegerVector option"

definition list_entry :: "'a option \<Rightarrow> string \<Rightarrow> error + 'a" where
  "list_entry entry name = (case entry of None \<Rightarrow> Inl (NameNotFound name) | Some x \<Rightarrow> Inr x)"

subsection \<open>Loops\<close>

text \<open>\<^verbatim>\<open>for(int i = i0; i < n; ++i) body\<close>\<close>

function for_loop :: "int \<Rightarrow> int \<Rightarrow> (int \<Rightarrow> 's \<Rightarrow> error + 's) \<Rightarrow> 's \<Rightarrow> error + 's" where
  "for_loop i n body s =
     (if i < n then (case body i s of Inl e \<Rightarrow> Inl e | Inr s' \<Rightarrow> for_loop (i + 1) n body s')
      else Inr s)"
  by pat_completeness auto
termination
  by (relation "measure (\<lambda>(i, n, body, s). nat (n - i))") auto

text \<open>\<^verbatim>\<open>for(int ii = i0; ii >= 0; --ii) body\<close>\<close>

function for_down :: "int \<Rightarrow> (int \<Rightarrow> 's \<Rightarrow> error + 's) \<Rightarrow> 's \<Rightarrow> error + 's" where
  "for_down ii body s =
     (if ii \<ge> 0 then (case body ii s of Inl e \<Rightarrow> Inl e | Inr s' \<Rightarrow> for_down (ii - 1) body s')
      else Inr s)"
  by pat_completeness auto
termination
  by (relation "measure (\<lambda>(ii, body, s). nat (ii + 1))") auto

declare for_loop.simps [simp del]
declare for_down.simps [simp del]

subsection \<open>\<^verbatim>\<open>multiple_infection_strain_dependent\<close> (lines 6-39)\<close>

definition multiple_infection_strain_dependent ::
  "NumericVector \<Rightarrow> NamedVector \<Rightarrow> IntegerVector \<Rightarrow> IntegerVector \<Rightarrow> IntegerVector \<Rightarrow>
   IntegerVector \<Rightarrow> NumericVector \<Rightarrow> NumericVector \<Rightarrow> NumericVector \<Rightarrow> int \<Rightarrow>
   additional_arguments \<Rightarrow> error + NumericVector" where
  "multiple_infection_strain_dependent predicted_titres theta cumu_infection_history
     masked_infection_history infection_map_indices measurement_map_indices
     antigenic_map_long antigenic_map_short waning number_strains additional_args =
   (let n_samples = int (length measurement_map_indices);
        max_infections = int (length cumu_infection_history) in
    rbind (named theta ''mu_short'') (\<lambda>mu_short.
    rbind (named theta ''tau'') (\<lambda>tau.
    rbind (list_entry (mus additional_args) ''mus'') (\<lambda>mus.
    rbind (list_entry (boosting_vec_indices additional_args) ''boosting_vec_indices'')
      (\<lambda>boosting_vec_indices.
    for_loop 0 max_infections (\<lambda>i predicted_titres.
      rbind (elem cumu_infection_history i) (\<lambda>cumu.
      let n_inf = real_of_int cumu - 1 in
      rbind (elem infection_map_indices i) (\<lambda>inf_map_index.
      rbind (elem boosting_vec_indices inf_map_index) (\<lambda>grp.
      rbind (elem mus grp) (\<lambda>mu.
      rbind (elem waning i) (\<lambda>wane.
      rbind (elem masked_infection_history i) (\<lambda>masked.
      if masked > 0 then
        for_loop 0 n_samples (\<lambda>k predicted_titres.
          rbind (elem measurement_map_indices k) (\<lambda>m.
          rbind (elem antigenic_map_long (m * number_strains + inf_map_index)) (\<lambda>long.
          rbind (elem antigenic_map_short (m * number_strains + inf_map_index)) (\<lambda>short.
          add_elem predicted_titres k
            (MAX_macro 0 (1 - tau * n_inf) * ((mu * long) + (mu_short * short) * wane))))))
          predicted_titres
      else Inr predicted_titres)))))))
      predicted_titres)))))"

subsection \<open>\<^verbatim>\<open>multiple_infection_base_boosting\<close> (lines 42-75)\<close>

definition multiple_infection_base_boosting ::
  "NumericVector \<Rightarrow> NamedVector \<Rightarrow> IntegerVector \<Rightarrow> IntegerVector \<Rightarrow> IntegerVector \<Rightarrow>
   IntegerVector \<Rightarrow> NumericVector \<Rightarrow> NumericVector \<Rightarrow> NumericVector \<Rightarrow> NumericVector \<Rightarrow>
   int \<Rightarrow> int \<Rightarrow> int \<Rightarrow> error + NumericVector" where
  "multiple_infection_base_boosting predicted_titres theta cumu_infection_history
     masked_infection_history infection_map_indices measurement_map_indices
     antigenic_map_long antigenic_map_short waning seniority number_strains n_samples
     max_infections =
   rbind (named theta ''mu'') (\<lambda>mu.
   rbind (named theta ''mu_short'') (\<lambda>mu_short.
   for_loop 0 max_infections (\<lambda>i predicted_titres.
     rbind (elem infection_map_indices i) (\<lambda>inf_map_index.
     rbind (elem waning i) (\<lambda>wane.
     rbind (elem seniority i) (\<lambda>senior.
     rbind (elem masked_infection_history i) (\<lambda>masked.
     if masked > 0 then
       for_loop 0 n_samples (\<lambda>k predicted_titres.
         rbind (elem measurement_map_indices k) (\<lambda>m.
         let index = m * number_strains + inf_map_index in
         rbind (elem antigenic_map_long index) (\<lambda>long.
         rbind (elem antigenic_map_short index) (\<lambda>short.
         add_elem predicted_titres k (senior * ((mu * long) + (mu_short * short) * wane))))))
         predicted_titres
     else Inr predicted_titres)))))
     predicted_titres))"

subsection \<open>\<^verbatim>\<open>multiple_infection_titre_dependent_boost\<close> (lines 78-167)\<close>

text \<open>
  Lines 118-136: the boost that the earlier infection \<open>ii\<close> gives at the time
  \<open>circulation_time\<close> of the infection with strain \<open>inf_map_index\<close>.
\<close>

definition prior_infection_boost ::
  "real \<Rightarrow> real \<Rightarrow> real \<Rightarrow> real \<Rightarrow> real \<Rightarrow> real \<Rightarrow> NumericVector \<Rightarrow> IntegerVector \<Rightarrow>
   IntegerVector \<Rightarrow> NumericVector \<Rightarrow> NumericVector \<Rightarrow> int \<Rightarrow> real \<Rightarrow> int \<Rightarrow> NumericVector \<Rightarrow>
   int \<Rightarrow> error + real" where
  "prior_infection_boost mu mu_short tau gradient boost_limit wane infection_times
     cumu_infection_history infection_map_indices antigenic_map_long antigenic_map_short
     number_strains circulation_time inf_map_index monitored_titres ii =
   rbind (elem cumu_infection_history ii) (\<lambda>cumu.
   rbind (elem infection_map_indices ii) (\<lambda>strain.
   rbind (elem antigenic_map_long (inf_map_index * number_strains + strain)) (\<lambda>long.
   let long_boost = MAX_macro 0 (1 - tau * (real_of_int cumu - 1)) * (mu * long) in
   rbind (elem antigenic_map_short (inf_map_index * number_strains + strain)) (\<lambda>short.
   let short_boost = MAX_macro 0 (1 - tau * (real_of_int cumu - 1)) * (mu_short * short) in
   rbind (elem monitored_titres ii) (\<lambda>titre.
   let (long_boost, short_boost) =
         (if titre \<ge> boost_limit
          then (long_boost * (1 - gradient * boost_limit),
                short_boost * (1 - gradient * boost_limit))
          else (long_boost * (1 - gradient * titre), short_boost * (1 - gradient * titre)));
       long_boost = MAX_macro 0 long_boost;
       short_boost = MAX_macro 0 short_boost in
   rbind (elem infection_times ii) (\<lambda>time.
   Inr (long_boost + short_boost * MAX_macro 0 (1 - wane * (circulation_time - time)))))))))"

text \<open>
  Lines 143-162: the boost that the infection \<open>i\<close> (strain \<open>inf_map_index\<close>, \<open>n_inf\<close> earlier
  infections) gives to the sample \<open>k\<close>.
\<close>

definition sample_boost ::
  "real \<Rightarrow> real \<Rightarrow> real \<Rightarrow> real \<Rightarrow> real \<Rightarrow> IntegerVector \<Rightarrow> NumericVector \<Rightarrow> NumericVector \<Rightarrow>
   NumericVector \<Rightarrow> int \<Rightarrow> real \<Rightarrow> int \<Rightarrow> NumericVector \<Rightarrow> int \<Rightarrow> int \<Rightarrow> error + real" where
  "sample_boost mu mu_short tau gradient boost_limit measurement_map_indices
     antigenic_map_long antigenic_map_short waning number_strains n_inf inf_map_index
     monitored_titres i k =
   rbind (elem measurement_map_indices k) (\<lambda>m.
   rbind (elem antigenic_map_long (m * number_strains + inf_map_index)) (\<lambda>long.
   let long_boost = MAX_macro 0 (1 - tau * n_inf) * (mu * long) in
   rbind (elem antigenic_map_short (m * number_strains + inf_map_index)) (\<lambda>short.
   let short_boost = MAX_macro 0 (1 - tau * n_inf) * (mu_short * short) in
   rbind (elem monitored_titres i) (\<lambda>titre.
   let (long_boost, short_boost) =
         (if titre \<ge> boost_limit
          then (long_boost * (1 - gradient * boost_limit),
                short_boost * (1 - gradient * boost_limit))
          else (long_boost * (1 - gradient * titre), short_boost * (1 - gradient * titre)));
       long_boost = MAX_macro 0 long_boost;
       short_boost = MAX_macro 0 short_boost in
   rbind (elem waning i) (\<lambda>wane_i.
   Inr (long_boost + short_boost * wane_i))))))"

text \<open>
  Lines 116-140: the scan of the slots before \<open>i\<close>, from \<open>i - 1\<close> down to \<open>0\<close>. Its state is
  the buffer \<^verbatim>\<open>monitored_titres\<close> and the local \<^verbatim>\<open>monitored_titre\<close>; line 139 writes
  the local to slot \<open>i\<close> in every round.
\<close>

definition monitored_titre_scan ::
  "real \<Rightarrow> real \<Rightarrow> real \<Rightarrow> real \<Rightarrow> real \<Rightarrow> real \<Rightarrow> NumericVector \<Rightarrow> IntegerVector \<Rightarrow>
   IntegerVector \<Rightarrow> IntegerVector \<Rightarrow> NumericVector \<Rightarrow> NumericVector \<Rightarrow> int \<Rightarrow> real \<Rightarrow> int \<Rightarrow>
   int \<Rightarrow> NumericVector \<times> real \<Rightarrow> error + (NumericVector \<times> real)" where
  "monitored_titre_scan mu mu_short tau gradient boost_limit wane infection_times
     cumu_infection_history masked_infection_history infection_map_indices
     antigenic_map_long antigenic_map_short number_strains circulation_time inf_map_index i =
   for_down (i - 1) (\<lambda>ii (monitored_titres, monitored_titre).
     rbind (elem masked_infection_history ii) (\<lambda>masked_ii.
     rbind (if masked_ii > 0
            then rbind (prior_infection_boost mu mu_short tau gradient boost_limit wane
                          infection_times cumu_infection_history infection_map_indices
                          antigenic_map_long antigenic_map_short number_strains
                          circulation_time inf_map_index monitored_titres ii)
                   (\<lambda>boost. Inr (monitored_titre + boost))
            else Inr monitored_titre) (\<lambda>monitored_titre.
     rbind (set_elem monitored_titres i monitored_titre) (\<lambda>monitored_titres.
     Inr (monitored_titres, monitored_titre)))))"

text \<open>
  Lines 111-165: the body of the outer loop for the slot \<open>i\<close>. Its state is the two buffers
  and the local \<^verbatim>\<open>monitored_titre\<close>.
\<close>

definition titre_dependent_infection ::
  "real \<Rightarrow> real \<Rightarrow> real \<Rightarrow> real \<Rightarrow> real \<Rightarrow> real \<Rightarrow> NumericVector \<Rightarrow> IntegerVector \<Rightarrow>
   IntegerVector \<Rightarrow> IntegerVector \<Rightarrow> IntegerVector \<Rightarrow> NumericVector \<Rightarrow> NumericVector \<Rightarrow>
   NumericVector \<Rightarrow> int \<Rightarrow> int \<Rightarrow> NumericVector \<times> NumericVector \<times> real \<Rightarrow>
   error + (NumericVector \<times> NumericVector \<times> real)" where
  "titre_dependent_infection mu mu_short tau gradient boost_limit wane infection_times
     cumu_infection_history masked_infection_history infection_map_indices
     measurement_map_indices antigenic_map_long antigenic_map_short waning number_strains i =
   (\<lambda>(predicted_titres, monitored_titres, monitored_titre).
     rbind (elem infection_times i) (\<lambda>circulation_time.
     rbind (elem cumu_infection_history i) (\<lambda>cumu.
     let n_inf = real_of_int cumu - 1 in
     rbind (elem infection_map_indices i) (\<lambda>inf_map_index.
     rbind (elem masked_infection_history i) (\<lambda>masked.
     if masked > 0 then
       rbind (monitored_titre_scan mu mu_short tau gradient boost_limit wane infection_times
                cumu_infection_history masked_infection_history infection_map_indices
                antigenic_map_long antigenic_map_short number_strains circulation_time
                inf_map_index i (monitored_titres, monitored_titre))
         (\<lambda>(monitored_titres, monitored_titre).
       rbind
        (for_loop 0 (int (length measurement_map_indices)) (\<lambda>k predicted_titres.
          rbind (sample_boost mu mu_short tau gradient boost_limit measurement_map_indices
                   antigenic_map_long antigenic_map_short waning number_strains n_inf
                   inf_map_index monitored_titres i k) (\<lambda>boost.
          add_elem predicted_titres k boost))
          predicted_titres)
        (\<lambda>predicted_titres. Inr (predicted_titres, monitored_titres, monitored_titre)))
     else Inr (predicted_titres, monitored_titres, monitored_titre))))))"

text \<open>
  The function: line 92 sets the local \<^verbatim>\<open>monitored_titre\<close> to zero once, before the outer
  loop, and no line sets it again but line 137, which adds to it.
\<close>

definition multiple_infection_titre_dependent_boost ::
  "NumericVector \<Rightarrow> NumericVector \<Rightarrow> NamedVector \<Rightarrow> NumericVector \<Rightarrow> IntegerVector \<Rightarrow>
   IntegerVector \<Rightarrow> IntegerVector \<Rightarrow> IntegerVector \<Rightarrow> NumericVector \<Rightarrow> NumericVector \<Rightarrow>
   NumericVector \<Rightarrow> int \<Rightarrow> error + (NumericVector \<times> NumericVector)" where
  "multiple_infection_titre_dependent_boost predicted_titres monitored_titres theta
     infection_times cumu_infection_history masked_infection_history infection_map_indices
     measurement_map_indices antigenic_map_long antigenic_map_short waning number_strains =
   rbind (named theta ''mu'') (\<lambda>mu.
   rbind (named theta ''mu_short'') (\<lambda>mu_short.
   rbind (named theta ''tau'') (\<lambda>tau.
   rbind (named theta ''gradient'') (\<lambda>gradient.
   rbind (named theta ''boost_limit'') (\<lambda>boost_limit.
   rbind (named theta ''wane'') (\<lambda>wane.
   rbind
    (for_loop 0 (int (length infection_times))
      (titre_dependent_infection mu mu_short tau gradient boost_limit wane infection_times
         cumu_infection_history masked_infection_history infection_map_indices
         measurement_map_indices antigenic_map_long antigenic_map_short waning number_strains)
      (predicted_titres, monitored_titres, 0))
    (\<lambda>(predicted_titres, monitored_titres, monitored_titre).
      Inr (predicted_titres, monitored_titres))))))))"

subsection \<open>\<^verbatim>\<open>add_multiple_infections_boost\<close> (lines 171-231)\<close>

text \<open>
  \<^verbatim>\<open>Nullable<List>\<close> is an \<open>option\<close>. The two models that do not take
  \<^verbatim>\<open>monitored_titres\<close> leave that buffer as it is.
\<close>

definition add_multiple_infections_boost ::
  "NumericVector \<Rightarrow> NumericVector \<Rightarrow> NamedVector \<Rightarrow> NumericVector \<Rightarrow> IntegerVector \<Rightarrow>
   IntegerVector \<Rightarrow> IntegerVector \<Rightarrow> IntegerVector \<Rightarrow> NumericVector \<Rightarrow> NumericVector \<Rightarrow>
   NumericVector \<Rightarrow> NumericVector \<Rightarrow> int \<Rightarrow> int \<Rightarrow> int \<Rightarrow> bool \<Rightarrow> int \<Rightarrow>
   additional_arguments option \<Rightarrow> error + (NumericVector \<times> NumericVector)" where
  "add_multiple_infections_boost predicted_titres monitored_titres theta infection_times
     cumu_infection_history masked_infection_history infection_map_indices
     measurement_map_indices antigenic_map_long antigenic_map_short waning seniority
     number_strains n_samples max_infections titre_dependent_boosting DOB additional_args =
   (if titre_dependent_boosting then
      multiple_infection_titre_dependent_boost predicted_titres monitored_titres theta
        infection_times cumu_infection_history masked_infection_history infection_map_indices
        measurement_map_indices antigenic_map_long antigenic_map_short waning number_strains
    else (case additional_args of
      Some additional_arguments_list \<Rightarrow>
        rbind (multiple_infection_strain_dependent predicted_titres theta
                 cumu_infection_history masked_infection_history infection_map_indices
                 measurement_map_indices antigenic_map_long antigenic_map_short waning
                 number_strains additional_arguments_list)
          (\<lambda>predicted_titres. Inr (predicted_titres, monitored_titres))
    | None \<Rightarrow>
        rbind (multiple_infection_base_boosting predicted_titres theta cumu_infection_history
                 masked_infection_history infection_map_indices measurement_map_indices
                 antigenic_map_long antigenic_map_short waning seniority number_strains
                 n_samples max_infections)
          (\<lambda>predicted_titres. Inr (predicted_titres, monitored_titres))))"

subsection \<open>\<^verbatim>\<open>titre_data_fast_individual_base\<close> (lines 234-292)\<close>

text \<open>
  Lines 275-289: the scan of the infections for one blood sample taken at \<open>sampling_time\<close>,
  whose \<open>n_titres\<close> rows start at \<open>tmp_titre_index\<close>. Its state is the buffer and the counter
  \<^verbatim>\<open>n_inf\<close>.
\<close>

definition infection_scan ::
  "real \<Rightarrow> real \<Rightarrow> real \<Rightarrow> real \<Rightarrow> NumericVector \<Rightarrow> IntegerVector \<Rightarrow> IntegerVector \<Rightarrow> int \<Rightarrow>
   NumericVector \<Rightarrow> NumericVector \<Rightarrow> real \<Rightarrow> int \<Rightarrow> int \<Rightarrow> NumericVector \<times> real \<Rightarrow>
   error + (NumericVector \<times> real)" where
  "infection_scan mu mu_short wane tau infection_times infection_strain_indices_tmp
     measurement_strain_indices number_strains antigenic_map_short antigenic_map_long
     sampling_time n_titres tmp_titre_index =
   for_loop 0 (int (length infection_times)) (\<lambda>x (predicted_titres, n_inf).
     rbind (elem infection_times x) (\<lambda>infection_time.
     if sampling_time \<ge> infection_time then
       let time = sampling_time - infection_time;
           wane_amount = MAX_macro 0 (1 - (wane * time));
           seniority = MAX_macro 0 (1 - tau * (n_inf - 1)) in
       rbind (elem infection_strain_indices_tmp x) (\<lambda>inf_map_index.
       rbind
        (for_loop 0 n_titres (\<lambda>k predicted_titres.
          rbind (elem measurement_strain_indices (tmp_titre_index + k)) (\<lambda>m.
          let index = m * number_strains + inf_map_index in
          rbind (elem antigenic_map_long index) (\<lambda>long.
          rbind (elem antigenic_map_short index) (\<lambda>short.
          add_elem predicted_titres (tmp_titre_index + k)
            (seniority * ((mu * long) + (mu_short * short) * wane_amount))))))
          predicted_titres)
        (\<lambda>predicted_titres. Inr (predicted_titres, n_inf + 1)))
     else Inr (predicted_titres, n_inf)))"

text \<open>
  The loop over the blood samples \<open>j = index_in_samples, ..., end_index_in_samples\<close>
  (the bound is inclusive); its state is the buffer and \<^verbatim>\<open>start_index_in_data\<close>.
\<close>

definition titre_data_fast_individual_base ::
  "NumericVector \<Rightarrow> real \<Rightarrow> real \<Rightarrow> real \<Rightarrow> real \<Rightarrow> NumericVector \<Rightarrow> IntegerVector \<Rightarrow>
   IntegerVector \<Rightarrow> NumericVector \<Rightarrow> int \<Rightarrow> int \<Rightarrow> int \<Rightarrow> IntegerVector \<Rightarrow> int \<Rightarrow>
   NumericVector \<Rightarrow> NumericVector \<Rightarrow> error + NumericVector" where
  "titre_data_fast_individual_base predicted_titres mu mu_short wane tau infection_times
     infection_strain_indices_tmp measurement_strain_indices sample_times index_in_samples
     end_index_in_samples start_index_in_data1 nrows_per_blood_sample number_strains
     antigenic_map_short antigenic_map_long =
   rbind
    (for_loop index_in_samples (end_index_in_samples + 1)
      (\<lambda>j (predicted_titres, start_index_in_data).
        rbind (elem sample_times j) (\<lambda>sampling_time.
        rbind (elem nrows_per_blood_sample j) (\<lambda>n_titres.
        let end_index_in_data = start_index_in_data + n_titres;
            tmp_titre_index = start_index_in_data in
        rbind (infection_scan mu mu_short wane tau infection_times
                 infection_strain_indices_tmp measurement_strain_indices number_strains
                 antigenic_map_short antigenic_map_long sampling_time n_titres
                 tmp_titre_index (predicted_titres, 1))
          (\<lambda>(predicted_titres, n_inf). Inr (predicted_titres, end_index_in_data)))))
      (predicted_titres, start_index_in_data1))
    (\<lambda>(predicted_titres, start_index_in_data). Inr predicted_titres)"

subsection \<open>Doubles that are not numbers\<close>

text \<open>
  A \<^verbatim>\<open>double\<close> with the two infinities and NaN of IEEE 754 (binary64, rounding to nearest).
  A finite result is the \<^typ>\<open>real\<close> result, not rounded, unless it overflows: from
  \<open>2 ^ 1024 - 2 ^ 970\<close> on (half a unit in the last place above the largest double) the
  hardware gives the infinity of the sign of the result, and so does \<open>overflow\<close>. On the
  other values the arithmetic is that of the standard: \<open>\<infinity> - \<infinity>\<close> and \<open>\<infinity> * 0\<close> are NaN, NaN
  goes through every operation, and every comparison with NaN is false. The two zeros are
  one value; no operation of the source tells them apart.
\<close>

datatype double = Finite real | PInf | NInf | NaN

definition overflow :: "real \<Rightarrow> double" where
  "overflow x = (if 2 ^ 1024 - 2 ^ 970 \<le> x then PInf
                 else if x \<le> - (2 ^ 1024 - 2 ^ 970) then NInf
                 else Finite x)"

instantiation double :: "{zero, one, plus, uminus, minus, times, ord}"
begin

definition zero_double :: double where
  "zero_double = Finite 0"

definition one_double :: double where
  "one_double = Finite 1"

fun plus_double :: "double \<Rightarrow> double \<Rightarrow> double" where
  "plus_double NaN b = NaN"
| "plus_double a NaN = NaN"
| "plus_double PInf NInf = NaN"
| "plus_double NInf PInf = NaN"
| "plus_double PInf b = PInf"
| "plus_double a PInf = PInf"
| "plus_double NInf b = NInf"
| "plus_double a NInf = NInf"
| "plus_double (Finite x) (Finite y) = overflow (x + y)"

fun uminus_double :: "double \<Rightarrow> double" where
  "uminus_double (Finite x) = Finite (- x)"
| "uminus_double PInf = NInf"
| "uminus_double NInf = PInf"
| "uminus_double NaN = NaN"

definition minus_double :: "double \<Rightarrow> double \<Rightarrow> double" where
  "minus_double a b = a + (- b)"

fun times_double :: "double \<Rightarrow> double \<Rightarrow> double" where
  "times_double NaN b = NaN"
| "times_double a NaN = NaN"
| "times_double (Finite x) (Finite y) = overflow (x * y)"
| "times_double (Finite x) PInf = (if x = 0 then NaN else if 0 < x then PInf else NInf)"
| "times_double (Finite x) NInf = (if x = 0 then NaN else if 0 < x then NInf else PInf)"
| "times_double PInf (Finite y) = (if y = 0 then NaN else if 0 < y then PInf else NInf)"
| "times_double NInf (Finite y) = (if y = 0 then NaN else if 0 < y then NInf else PInf)"
| "times_double PInf PInf = PInf"
| "times_double PInf NInf = NInf"
| "times_double NInf PInf = NInf"
| "times_double NInf NInf = PInf"

fun less_double :: "double \<Rightarrow> double \<Rightarrow> bool" where
  "less_double NaN b = False"
| "less_double a NaN = False"
| "less_double (Finite x) (Finite y) = (x < y)"
| "less_double a NInf = False"
| "less_double NInf b = True"
| "less_double PInf b = False"
| "less_double a PInf = True"

fun less_eq_double :: "double \<Rightarrow> double \<Rightarrow> bool" where
  "less_eq_double NaN b = False"
| "less_eq_double a NaN = False"
| "less_eq_double (Finite x) (Finite y) = (x \<le> y)"
| "less_eq_double NInf b = True"
| "less_eq_double a PInf = True"
| "less_eq_double a NInf = False"
| "less_eq_double PInf b = False"

instance ..

end

text \<open>The macro \<^verbatim>\<open>MAX\<close> and \<^verbatim>\<open>v[i] += x\<close> on these doubles.\<close>

definition MAX_ieee :: "double \<Rightarrow> double \<Rightarrow> double" where
  "MAX_ieee a b = (if a < b then b else a)"

definition add_elem_ieee :: "double list \<Rightarrow> int \<Rightarrow> double \<Rightarrow> error + double list" where
  "add_elem_ieee v i x = rbind (elem v i) (\<lambda>old. set_elem v i (old + x))"

subsection \<open>\<^verbatim>\<open>multiple_infection_titre_dependent_boost\<close> (lines 78-167) on these doubles\<close>

text \<open>
  The same lines as above, with every \<^verbatim>\<open>double\<close> of the function (the two buffers, \<^verbatim>\<open>theta\<close>,
  the times, the two maps, \<^verbatim>\<open>waning\<close> and the locals) a \<^typ>\<open>double\<close>.
\<close>

definition prior_infection_boost_ieee ::
  "double \<Rightarrow> double \<Rightarrow> double \<Rightarrow> double \<Rightarrow> double \<Rightarrow> double \<Rightarrow> double list \<Rightarrow>
   IntegerVector \<Rightarrow> IntegerVector \<Rightarrow> double list \<Rightarrow> double list \<Rightarrow> int \<Rightarrow> double \<Rightarrow> int \<Rightarrow>
   double list \<Rightarrow> int \<Rightarrow> error + double" where
  "prior_infection_boost_ieee mu mu_short tau gradient boost_limit wane infection_times
     cumu_infection_history infection_map_indices antigenic_map_long antigenic_map_short
     number_strains circulation_time inf_map_index monitored_titres ii =
   rbind (elem cumu_infection_history ii) (\<lambda>cumu.
   rbind (elem infection_map_indices ii) (\<lambda>strain.
   rbind (elem antigenic_map_long (inf_map_index * number_strains + strain)) (\<lambda>long.
   let long_boost = MAX_ieee 0 (1 - tau * (Finite (real_of_int cumu) - 1)) * (mu * long) in
   rbind (elem antigenic_map_short (inf_map_index * number_strains + strain)) (\<lambda>short.
   let short_boost =
         MAX_ieee 0 (1 - tau * (Finite (real_of_int cumu) - 1)) * (mu_short * short) in
   rbind (elem monitored_titres ii) (\<lambda>titre.
   let (long_boost, short_boost) =
         (if titre \<ge> boost_limit
          then (long_boost * (1 - gradient * boost_limit),
                short_boost * (1 - gradient * boost_limit))
          else (long_boost * (1 - gradient * titre), short_boost * (1 - gradient * titre)));
       long_boost = MAX_ieee 0 long_boost;
       short_boost = MAX_ieee 0 short_boost in
   rbind (elem infection_times ii) (\<lambda>time.
   Inr (long_boost + short_boost * MAX_ieee 0 (1 - wane * (circulation_time - time)))))))))"

definition sample_boost_ieee ::
  "double \<Rightarrow> double \<Rightarrow> double \<Rightarrow> double \<Rightarrow> double \<Rightarrow> IntegerVector \<Rightarrow> double list \<Rightarrow>
   double list \<Rightarrow> double list \<Rightarrow> int \<Rightarrow> double \<Rightarrow> int \<Rightarrow> double list \<Rightarrow> int \<Rightarrow> int \<Rightarrow>
   error + double" where
  "sample_boost_ieee mu mu_short tau gradient boost_limit measurement_map_indices
     antigenic_map_long antigenic_map_short waning number_strains n_inf inf_map_index
     monitored_titres i k =
   rbind (elem measurement_map_indices k) (\<lambda>m.
   rbind (elem antigenic_map_long (m * number_strains + inf_map_index)) (\<lambda>long.
   let long_boost = MAX_ieee 0 (1 - tau * n_inf) * (mu * long) in
   rbind (elem antigenic_map_short (m * number_strains + inf_map_index)) (\<lambda>short.
   let short_boost = MAX_ieee 0 (1 - tau * n_inf) * (mu_short * short) in
   rbind (elem monitored_titres i) (\<lambda>titre.
   let (long_boost, short_boost) =
         (if titre \<ge> boost_limit
          then (long_boost * (1 - gradient * boost_limit),
                short_boost * (1 - gradient * boost_limit))
          else (long_boost * (1 - gradient * titre), short_boost * (1 - gradient * titre)));
       long_boost = MAX_ieee 0 long_boost;
       short_boost = MAX_ieee 0 short_boost in
   rbind (elem waning i) (\<lambda>wane_i.
   Inr (long_boost + short_boost * wane_i))))))"

definition monitored_titre_scan_ieee ::
  "double \<Rightarrow> double \<Rightarrow> double \<Rightarrow> double \<Rightarrow> double \<Rightarrow> double \<Rightarrow> double list \<Rightarrow>
   IntegerVector \<Rightarrow> IntegerVector \<Rightarrow> IntegerVector \<Rightarrow> double list \<Rightarrow> double list \<Rightarrow> int \<Rightarrow>
   double \<Rightarrow> int \<Rightarrow> int \<Rightarrow> double list \<times> double \<Rightarrow> error + (double list \<times> double)" where
  "monitored_titre_scan_ieee mu mu_short tau gradient boost_limit wane infection_times
     cumu_infection_history masked_infection_history infection_map_indices
     antigenic_map_long antigenic_map_short number_strains circulation_time inf_map_index i =
   for_down (i - 1) (\<lambda>ii (monitored_titres, monitored_titre).
     rbind (elem masked_infection_history ii) (\<lambda>masked_ii.
     rbind (if masked_ii > 0
            then rbind (prior_infection_boost_ieee mu mu_short tau gradient boost_limit wane
                          infection_times cumu_infection_history infection_map_indices
                          antigenic_map_long antigenic_map_short number_strains
                          circulation_time inf_map_index monitored_titres ii)
                   (\<lambda>boost. Inr (monitored_titre + boost))
            else Inr monitored_titre) (\<lambda>monitored_titre.
     rbind (set_elem monitored_titres i monitored_titre) (\<lambda>monitored_titres.
     Inr (monitored_titres, monitored_titre)))))"

definition titre_dependent_infection_ieee ::
  "double \<Rightarrow> double \<Rightarrow> double \<Rightarrow> double \<Rightarrow> double \<Rightarrow> double \<Rightarrow> double list \<Rightarrow>
   IntegerVector \<Rightarrow> IntegerVector \<Rightarrow> IntegerVector \<Rightarrow> IntegerVector \<Rightarrow> double list \<Rightarrow>
   double list \<Rightarrow> double list \<Rightarrow> int \<Rightarrow> int \<Rightarrow> double list \<times> double list \<times> double \<Rightarrow>
   error + (double list \<times> double list \<times> double)" where
  "titre_dependent_infection_ieee mu mu_short tau gradient boost_limit wane infection_times
     cumu_infection_history masked_infection_history infection_map_indices
     measurement_map_indices antigenic_map_long antigenic_map_short waning number_strains i =
   (\<lambda>(predicted_titres, monitored_titres, monitored_titre).
     rbind (elem infection_times i) (\<lambda>circulation_time.
     rbind (elem cumu_infection_history i) (\<lambda>cumu.
     let n_inf = Finite (real_of_int cumu) - 1 in
     rbind (elem infection_map_indices i) (\<lambda>inf_map_index.
     rbind (elem masked_infection_history i) (\<lambda>masked.
     if masked > 0 then
       rbind (monitored_titre_scan_ieee mu mu_short tau gradient boost_limit wane
                infection_times cumu_infection_history masked_infection_history
                infection_map_indices antigenic_map_long antigenic_map_short number_strains
                circulation_time inf_map_index i (monitored_titres, monitored_titre))
         (\<lambda>(monitored_titres, monitored_titre).
       rbind
        (for_loop 0 (int (length measurement_map_indices)) (\<lambda>k predicted_titres.
          rbind (sample_boost_ieee mu mu_short tau gradient boost_limit
                   measurement_map_indices antigenic_map_long antigenic_map_short waning
                   number_strains n_inf inf_map_index monitored_titres i k) (\<lambda>boost.
          add_elem_ieee predicted_titres k boost))
          predicted_titres)
        (\<lambda>predicted_titres. Inr (predicted_titres, monitored_titres, monitored_titre)))
     else Inr (predicted_titres, monitored_titres, monitored_titre))))))"

definition multiple_infection_titre_dependent_boost_ieee ::
  "double list \<Rightarrow> double list \<Rightarrow> (string \<rightharpoonup> double) \<Rightarrow> double list \<Rightarrow> IntegerVector \<Rightarrow>
   IntegerVector \<Rightarrow> IntegerVector \<Rightarrow> IntegerVector \<Rightarrow> double list \<Rightarrow> double list \<Rightarrow>
   double list \<Rightarrow> int \<Rightarrow> error + (double list \<times> double list)" where
  "multiple_infection_titre_dependent_boost_ieee predicted_titres monitored_titres theta
     infection_times cumu_infection_history masked_infection_history infection_map_indices
     measurement_map_indices antigenic_map_long antigenic_map_short waning number_strains =
   rbind (named theta ''mu'') (\<lambda>mu.
   rbind (named theta ''mu_short'') (\<lambda>mu_short.
   rbind (named theta ''tau'') (\<lambda>tau.
   rbind (named theta ''gradient'') (\<lambda>gradient.
   rbind (named theta ''boost_limit'') (\<lambda>boost_limit.
   rbind (named theta ''wane'') (\<lambda>wane.
   rbind
    (for_loop 0 (int (length infection_times))
      (titre_dependent_infection_ieee mu mu_short tau gradient boost_limit wane
         infection_times cumu_infection_history masked_infection_history
         infection_map_indices measurement_map_indices antigenic_map_long
         antigenic_map_short waning number_strains)
      (predicted_titres, monitored_titres, 0))
    (\<lambda>(predicted_titres, monitored_titres, monitored_titre).
      Inr (predicted_titres, monitored_titres))))))))"

subsection \<open>The fast simulator in the words of the specification\<close>

text \<open>
  Section 4.5 of the specification, as a sum: the infections before \<open>x\<close> that pass the gate
  of a blood sample taken at \<open>sample_time\<close>; what these infections add to a row of that
  sample that measures the strain \<open>row_strain\<close>, the seniority counter of an infection being
  one plus the number of infections before it that pass the gate; and the first row of the
  blood sample \<open>j\<close>.
\<close>

definition spec_gated_infections :: "NumericVector \<Rightarrow> real \<Rightarrow> int \<Rightarrow> int list" where
  "spec_gated_infections infection_times sample_time x =
     filter (\<lambda>x'. infection_times ! nat x' \<le> sample_time) [0..x - 1]"

definition spec_draw_contribution ::
  "real \<Rightarrow> real \<Rightarrow> real \<Rightarrow> real \<Rightarrow> NumericVector \<Rightarrow> IntegerVector \<Rightarrow> int \<Rightarrow> NumericVector \<Rightarrow>
   NumericVector \<Rightarrow> real \<Rightarrow> int \<Rightarrow> real" where
  "spec_draw_contribution mu mu_short wane tau infection_times infection_strain number_strains
     short_term long_term sample_time row_strain =
     (\<Sum>x\<leftarrow>spec_gated_infections infection_times sample_time (int (length infection_times)).
        max 0 (1 - tau * real (length (spec_gated_infections infection_times sample_time x))) *
          (mu * long_term ! nat (row_strain * number_strains + infection_strain ! nat x) +
           mu_short * short_term ! nat (row_strain * number_strains + infection_strain ! nat x) *
             max 0 (1 - wane * (sample_time - infection_times ! nat x))))"

definition spec_draw_start :: "int \<Rightarrow> IntegerVector \<Rightarrow> int \<Rightarrow> int \<Rightarrow> int" where
  "spec_draw_start start_index rows_per_sample first_draw j =
     start_index + (\<Sum>j'\<leftarrow>[first_draw..j - 1]. rows_per_sample ! nat j')"

subsection \<open>The monitored titre of a slot in the words of the specification\<close>

text \<open>
  Phase A of section 4.3 of the specification, as a sum that starts at zero for the slot \<open>i\<close>:
  what the earlier slot \<open>ii\<close> adds to the monitored titre of the slot \<open>i\<close>, and the sum of it
  over the active slots before \<open>i\<close>.
\<close>

definition spec_prior_boost ::
  "real \<Rightarrow> real \<Rightarrow> real \<Rightarrow> real \<Rightarrow> real \<Rightarrow> real \<Rightarrow> NumericVector \<Rightarrow> IntegerVector \<Rightarrow>
   IntegerVector \<Rightarrow> NumericVector \<Rightarrow> NumericVector \<Rightarrow> int \<Rightarrow> NumericVector \<Rightarrow> int \<Rightarrow> int \<Rightarrow>
   real" where
  "spec_prior_boost mu mu_short tau gradient boost_limit wane infection_time
     cumulative_infections infection_strain long_term short_term number_strains
     monitored_titres i ii =
   (let seniority = max 0 (1 - tau * (real_of_int (cumulative_infections ! nat ii) - 1));
        f = (if monitored_titres ! nat ii \<ge> boost_limit then 1 - gradient * boost_limit
             else 1 - gradient * monitored_titres ! nat ii);
        long_boost = max 0 (seniority * mu *
          long_term ! nat (infection_strain ! nat i * number_strains +
                           infection_strain ! nat ii) * f);
        short_boost = max 0 (seniority * mu_short *
          short_term ! nat (infection_strain ! nat i * number_strains +
                            infection_strain ! nat ii) * f)
    in long_boost +
       short_boost * max 0 (1 - wane * (infection_time ! nat i - infection_time ! nat ii)))"

definition spec_monitored_titre ::
  "real \<Rightarrow> real \<Rightarrow> real \<Rightarrow> real \<Rightarrow> real \<Rightarrow> real \<Rightarrow> NumericVector \<Rightarrow> IntegerVector \<Rightarrow>
   IntegerVector \<Rightarrow> IntegerVector \<Rightarrow> NumericVector \<Rightarrow> NumericVector \<Rightarrow> int \<Rightarrow>
   NumericVector \<Rightarrow> int \<Rightarrow> real" where
  "spec_monitored_titre mu mu_short tau gradient boost_limit wane infection_time
     cumulative_infections active infection_strain long_term short_term number_strains
     monitored_titres i =
   (\<Sum>ii\<leftarrow>filter (\<lambda>ii. active ! nat ii > 0) [0..i - 1].
      spec_prior_boost mu mu_short tau gradient boost_limit wane infection_time
        cumulative_infections infection_strain long_term short_term number_strains
        monitored_titres i ii)"

subsection \<open>Lemmas on the basic operations\<close>

lemma rbind_Inr_iff: "rbind m f = Inr y \<longleftrightarrow> (\<exists>x. m = Inr x \<and> f x = Inr y)"
  by (cases m) (simp_all add: rbind_def)

lemma rbind_Inl_iff: "rbind m f = Inl e \<longleftrightarrow> m = Inl e \<or> (\<exists>x. m = Inr x \<and> f x = Inl e)"
  by (cases m) (simp_all add: rbind_def)

lemma rbind_Inr [simp]: "rbind (Inr x) f = f x"
  by (simp add: rbind_def)

lemma rbind_Inl [simp]: "rbind (Inl e) f = Inl e"
  by (simp add: rbind_def)

lemma elem_Inr_iff: "elem v i = Inr x \<longleftrightarrow> 0 \<le> i \<and> i < int (length v) \<and> x = v ! nat i"
  by (auto simp: elem_def)

lemma set_elem_Inr_iff:
  "set_elem v i x = Inr v' \<longleftrightarrow> 0 \<le> i \<and> i < int (length v) \<and> v' = v[nat i := x]"
  by (auto simp: set_elem_def)

lemma add_elem_Inr_iff:
  "add_elem v i x = Inr v' \<longleftrightarrow> 0 \<le> i \<and> i < int (length v) \<and> v' = v[nat i := v ! nat i + x]"
  by (auto simp: add_elem_def rbind_Inr_iff elem_Inr_iff set_elem_Inr_iff)

lemma named_Inr_iff: "named v name = Inr x \<longleftrightarrow> v name = Some x"
  by (simp add: named_def split: option.splits)

lemma list_entry_Inr_iff: "list_entry entry name = Inr x \<longleftrightarrow> entry = Some x"
  by (simp add: list_entry_def split: option.splits)

lemma for_loop_inv:
  assumes "for_loop i n body s = Inr s'" and "P i s"
    and "\<And>j t t'. i \<le> j \<Longrightarrow> j < n \<Longrightarrow> P j t \<Longrightarrow> body j t = Inr t' \<Longrightarrow> P (j + 1) t'"
  shows "P (max i n) s'"
  using assms
proof (induction i n body s rule: for_loop.induct)
  case (1 i n body s)
  show ?case
  proof (cases "i < n")
    case False
    with "1.prems"(1,2) show ?thesis
      by (simp add: for_loop.simps [of i n] max_def)
  next
    case True
    with "1.prems"(1) obtain t where t: "body i s = Inr t" and rest: "for_loop (i + 1) n body t = Inr s'"
      by (auto simp: for_loop.simps [of i n] split: sum.splits)
    have "P (i + 1) t"
      using "1.prems"(3) [of i s t] True "1.prems"(2) t by simp
    then have "P (max (i + 1) n) s'"
      using "1.IH" [OF True t rest] "1.prems"(3) by simp
    with True show ?thesis
      by (simp add: max_def)
  qed
qed

lemma for_down_inv:
  assumes "for_down ii body s = Inr s'" and "P ii s" and "- 1 \<le> ii"
    and "\<And>j t t'. 0 \<le> j \<Longrightarrow> j \<le> ii \<Longrightarrow> P j t \<Longrightarrow> body j t = Inr t' \<Longrightarrow> P (j - 1) t'"
  shows "P (- 1) s'"
  using assms
proof (induction ii body s rule: for_down.induct)
  case (1 ii body s)
  show ?case
  proof (cases "ii \<ge> 0")
    case False
    with "1.prems"(3) have "ii = - 1" by simp
    with "1.prems"(1,2) show ?thesis
      by (simp add: for_down.simps [of "- 1"])
  next
    case True
    with "1.prems"(1) obtain t where t: "body ii s = Inr t" and rest: "for_down (ii - 1) body t = Inr s'"
      by (auto simp: for_down.simps [of ii] split: sum.splits)
    have "P (ii - 1) t"
      using "1.prems"(4) [of ii s t] True "1.prems"(2) t by simp
    moreover have "- 1 \<le> ii - 1"
      using True by simp
    ultimately show ?thesis
      using "1.IH" [OF True t rest] "1.prems"(4) by simp
  qed
qed

lemma for_loop_fails:
  assumes "i \<le> j" and "j < n" and "\<And>t. \<exists>e. body j t = Inl e"
  shows "\<exists>e. for_loop i n body s = Inl e"
  using assms
proof (induction i n body s rule: for_loop.induct)
  case (1 i n body s)
  from "1.prems" have lt: "i < n" by simp
  show ?case
  proof (cases "body i s")
    case (Inl e)
    with lt show ?thesis by (simp add: for_loop.simps [of i n])
  next
    case (Inr t)
    with "1.prems"(3) [of s] have "i \<noteq> j" by auto
    with "1.prems"(1) have "i + 1 \<le> j" by simp
    from "1.IH" [OF lt Inr this "1.prems"(2,3)] Inr lt show ?thesis
      by (simp add: for_loop.simps [of i n])
  qed
qed

text \<open>The equations that evaluate a call on concrete arguments.\<close>

lemmas eval_defs = multiple_infection_titre_dependent_boost_def multiple_infection_base_boosting_def
  multiple_infection_strain_dependent_def prior_infection_boost_def sample_boost_def
  monitored_titre_scan_def titre_dependent_infection_def infection_scan_def
  titre_data_fast_individual_base_def
  for_loop.simps for_down.simps rbind_def named_def list_entry_def elem_def add_elem_def set_elem_def MAX_macro_def

subsection \<open>The dispatcher\<close>

text \<open>
  Claim C4 (dispatcher routing). If \<^verbatim>\<open>titre_dependent_boosting\<close> is set, the dispatcher is
  the titre-dependent model; otherwise, if the additional arguments are present, it is the
  strain-dependent model on \<^verbatim>\<open>predicted_titres\<close>, with \<^verbatim>\<open>monitored_titres\<close> left as it
  is; otherwise it is the base model on \<^verbatim>\<open>predicted_titres\<close>, with \<^verbatim>\<open>monitored_titres\<close>
  left as it is. In each case the result of the dispatcher, an error included, is the result
  of that one model.
\<close>

theorem dispatcher_routing:
  "(titre_dependent_boosting \<longrightarrow>
      add_multiple_infections_boost predicted_titres monitored_titres theta infection_times
        cumu_infection_history masked_infection_history infection_map_indices
        measurement_map_indices antigenic_map_long antigenic_map_short waning seniority
        number_strains n_samples max_infections titre_dependent_boosting DOB additional_args
      = multiple_infection_titre_dependent_boost predicted_titres monitored_titres theta
          infection_times cumu_infection_history masked_infection_history
          infection_map_indices measurement_map_indices antigenic_map_long
          antigenic_map_short waning number_strains) \<and>
   (\<not> titre_dependent_boosting \<and> additional_args = Some args \<longrightarrow>
      add_multiple_infections_boost predicted_titres monitored_titres theta infection_times
        cumu_infection_history masked_infection_history infection_map_indices
        measurement_map_indices antigenic_map_long antigenic_map_short waning seniority
        number_strains n_samples max_infections titre_dependent_boosting DOB additional_args
      = (case multiple_infection_strain_dependent predicted_titres theta
                cumu_infection_history masked_infection_history infection_map_indices
                measurement_map_indices antigenic_map_long antigenic_map_short waning
                number_strains args of
           Inl e \<Rightarrow> Inl e
         | Inr predicted_titres' \<Rightarrow> Inr (predicted_titres', monitored_titres))) \<and>
   (\<not> titre_dependent_boosting \<and> additional_args = None \<longrightarrow>
      add_multiple_infections_boost predicted_titres monitored_titres theta infection_times
        cumu_infection_history masked_infection_history infection_map_indices
        measurement_map_indices antigenic_map_long antigenic_map_short waning seniority
        number_strains n_samples max_infections titre_dependent_boosting DOB additional_args
      = (case multiple_infection_base_boosting predicted_titres theta cumu_infection_history
                masked_infection_history infection_map_indices measurement_map_indices
                antigenic_map_long antigenic_map_short waning seniority number_strains
                n_samples max_infections of
           Inl e \<Rightarrow> Inl e
         | Inr predicted_titres' \<Rightarrow> Inr (predicted_titres', monitored_titres)))"
  by (simp add: add_multiple_infections_boost_def rbind_def)

theorem dispatcher_routing_witness:
  "add_multiple_infections_boost [0] [0, 0]
     [''mu'' \<mapsto> 1, ''mu_short'' \<mapsto> 0, ''tau'' \<mapsto> 0, ''gradient'' \<mapsto> 1,
      ''boost_limit'' \<mapsto> 10, ''wane'' \<mapsto> 0]
     [1, 2] [1, 2] [1, 1] [0, 0] [0] [1] [0] [1, 1] [1, 1] 1 1 2 True 1990 None
   = Inr ([1], [0, 1]) \<and>
   add_multiple_infections_boost [0] [0, 0]
     [''mu'' \<mapsto> 1, ''mu_short'' \<mapsto> 0, ''tau'' \<mapsto> 0, ''gradient'' \<mapsto> 1,
      ''boost_limit'' \<mapsto> 10, ''wane'' \<mapsto> 0]
     [1, 2] [1, 2] [1, 1] [0, 0] [0] [1] [0] [1, 1] [1, 1] 1 1 2 False 1990
     (Some \<lparr>mus = Some [3], boosting_vec_indices = Some [0]\<rparr>)
   = Inr ([6], [0, 0]) \<and>
   add_multiple_infections_boost [0] [0, 0]
     [''mu'' \<mapsto> 1, ''mu_short'' \<mapsto> 0, ''tau'' \<mapsto> 0, ''gradient'' \<mapsto> 1,
      ''boost_limit'' \<mapsto> 10, ''wane'' \<mapsto> 0]
     [1, 2] [1, 2] [1, 1] [0, 0] [0] [1] [0] [1, 1] [1, 1] 1 1 2 False 1990 None
   = Inr ([2], [0, 0])"
  using
    dispatcher_routing [of True "[0]" "[0, 0]"
      "[''mu'' \<mapsto> 1, ''mu_short'' \<mapsto> 0, ''tau'' \<mapsto> 0, ''gradient'' \<mapsto> 1,
        ''boost_limit'' \<mapsto> 10, ''wane'' \<mapsto> 0]"
      "[1, 2]" "[1, 2]" "[1, 1]" "[0, 0]" "[0]" "[1]" "[0]" "[1, 1]" "[1, 1]" 1 1 2 1990 None]
    dispatcher_routing [of False "[0]" "[0, 0]"
      "[''mu'' \<mapsto> 1, ''mu_short'' \<mapsto> 0, ''tau'' \<mapsto> 0, ''gradient'' \<mapsto> 1,
        ''boost_limit'' \<mapsto> 10, ''wane'' \<mapsto> 0]"
      "[1, 2]" "[1, 2]" "[1, 1]" "[0, 0]" "[0]" "[1]" "[0]" "[1, 1]" "[1, 1]" 1 1 2 1990
      "Some \<lparr>mus = Some [3], boosting_vec_indices = Some [0]\<rparr>"
      "\<lparr>mus = Some [3], boosting_vec_indices = Some [0]\<rparr>"]
    dispatcher_routing [of False "[0]" "[0, 0]"
      "[''mu'' \<mapsto> 1, ''mu_short'' \<mapsto> 0, ''tau'' \<mapsto> 0, ''gradient'' \<mapsto> 1,
        ''boost_limit'' \<mapsto> 10, ''wane'' \<mapsto> 0]"
      "[1, 2]" "[1, 2]" "[1, 1]" "[0, 0]" "[0]" "[1]" "[0]" "[1, 1]" "[1, 1]" 1 1 2 1990 None]
  by (simp add: eval_defs)

text \<open>
  Claim C8 (the date of birth has no effect). Two calls of the dispatcher that differ in
  \<^verbatim>\<open>DOB\<close> only have the same result: the same buffers, or the same error.
\<close>

theorem DOB_noninterference:
  "add_multiple_infections_boost predicted_titres monitored_titres theta infection_times
     cumu_infection_history masked_infection_history infection_map_indices
     measurement_map_indices antigenic_map_long antigenic_map_short waning seniority
     number_strains n_samples max_infections titre_dependent_boosting DOB additional_args
   = add_multiple_infections_boost predicted_titres monitored_titres theta infection_times
       cumu_infection_history masked_infection_history infection_map_indices
       measurement_map_indices antigenic_map_long antigenic_map_short waning seniority
       number_strains n_samples max_infections titre_dependent_boosting DOB' additional_args"
  by (simp add: add_multiple_infections_boost_def)

subsection \<open>The base model\<close>

lemma upto_snoc: "0 \<le> (i::int) \<Longrightarrow> [0..i] = [0..i - 1] @ [i]"
  by (rule upto_rec2) simp

lemma add_loop:
  assumes run: "for_loop 0 n body pt = Inr pt'"
    and step: "\<And>k t t'. 0 \<le> k \<Longrightarrow> k < n \<Longrightarrow> body k t = Inr t' \<Longrightarrow>
                 0 \<le> off + k \<and> off + k < int (length t) \<and>
                 t' = t[nat (off + k) := t ! nat (off + k) + c k]"
  shows "length pt' = length pt \<and>
         (\<forall>r. pt' ! r = (if off \<le> int r \<and> int r < off + n then pt ! r + c (int r - off)
                         else pt ! r))"
proof -
  let ?P = "\<lambda>k t. length t = length pt \<and>
              (\<forall>r. t ! r = (if off \<le> int r \<and> int r < off + k then pt ! r + c (int r - off)
                             else pt ! r))"
  have "?P (max 0 n) pt'"
  proof (rule for_loop_inv [where P = ?P, OF run])
    show "?P 0 pt" by auto
  next
    fix j t t'
    assume j: "0 \<le> j" "j < n" and P: "?P j t" and body: "body j t = Inr t'"
    from step [OF j body]
    have rng: "0 \<le> off + j" "off + j < int (length t)"
      and t': "t' = t[nat (off + j) := t ! nat (off + j) + c j]"
      by simp_all
    show "?P (j + 1) t'"
    proof (intro conjI allI)
      show "length t' = length pt" using P t' by simp
    next
      fix r
      show "t' ! r = (if off \<le> int r \<and> int r < off + (j + 1) then pt ! r + c (int r - off)
                      else pt ! r)"
      proof (cases "r = nat (off + j)")
        case True
        with rng j have r: "int r - off = j" "off \<le> int r" "\<not> int r < off + j"
          and rl: "r < length t"
          by simp_all
        from t' True rl have "t' ! r = t ! r + c j" by simp
        moreover from P r have "t ! r = pt ! r" by simp
        ultimately show ?thesis using r by simp
      next
        case False
        with rng have "int r < off + (j + 1) \<longleftrightarrow> int r < off + j" by linarith
        with False P t' show ?thesis by simp
      qed
    qed
  qed
  moreover have "off \<le> int r \<and> int r < off + max 0 n \<longleftrightarrow> off \<le> int r \<and> int r < off + n" for r
    by (auto simp: max_def)
  ultimately show ?thesis
    by simp
qed

lemma base_inner:
  assumes run: "for_loop 0 n_samples (\<lambda>k predicted_titres.
         rbind (elem measurement_map_indices k) (\<lambda>m.
         let index = m * number_strains + inf_map_index in
         rbind (elem antigenic_map_long index) (\<lambda>long.
         rbind (elem antigenic_map_short index) (\<lambda>short.
         add_elem predicted_titres k (senior * ((mu * long) + (mu_short * short) * wane))))))
         pt = Inr pt'"
  shows "length pt' = length pt \<and>
    (\<forall>r. pt' ! r = (if int r < n_samples
       then pt ! r + senior *
         (mu * antigenic_map_long ! nat (measurement_map_indices ! r * number_strains + inf_map_index) +
          mu_short * antigenic_map_short ! nat (measurement_map_indices ! r * number_strains + inf_map_index) * wane)
       else pt ! r))"
  using add_loop [OF run, where off = 0 and c = "\<lambda>k. senior *
         (mu * antigenic_map_long ! nat (measurement_map_indices ! nat k * number_strains + inf_map_index) +
          mu_short * antigenic_map_short ! nat (measurement_map_indices ! nat k * number_strains + inf_map_index) * wane)"]
  by (simp add: rbind_Inr_iff elem_Inr_iff add_elem_Inr_iff Let_def)


text \<open>
  Claim C2 (contract of the base model). When the call returns, every sample \<open>k\<close> below
  \<^verbatim>\<open>n_samples\<close> holds its initial value plus the sum, over the active slots
  \<open>i < max_infections\<close> in increasing order, of
  \<open>seniority[i] * (mu * long[m[k] * number_strains + s[i]] +
  mu_short * short[m[k] * number_strains + s[i]] * waning[i])\<close>, both maps read row-major;
  the buffer keeps its length and the entries from \<^verbatim>\<open>n_samples\<close> on are unchanged.
\<close>

theorem base_boosting_contract:
  assumes mu: "theta ''mu'' = Some mu" and mu_short: "theta ''mu_short'' = Some mu_short"
    and run: "multiple_infection_base_boosting predicted_titres theta cumu_infection_history
       masked_infection_history infection_map_indices measurement_map_indices
       antigenic_map_long antigenic_map_short waning seniority number_strains n_samples
       max_infections = Inr predicted_titres'"
  shows "length predicted_titres' = length predicted_titres \<and>
    (\<forall>k. 0 \<le> k \<and> k < n_samples \<longrightarrow>
       predicted_titres' ! nat k = predicted_titres ! nat k +
         (\<Sum>i\<leftarrow>filter (\<lambda>i. masked_infection_history ! nat i > 0) [0..max_infections - 1].
            seniority ! nat i *
              (mu * antigenic_map_long !
                 nat (measurement_map_indices ! nat k * number_strains +
                      infection_map_indices ! nat i) +
               mu_short * antigenic_map_short !
                 nat (measurement_map_indices ! nat k * number_strains +
                      infection_map_indices ! nat i) *
               waning ! nat i))) \<and>
    (\<forall>k. n_samples \<le> int k \<longrightarrow> predicted_titres' ! k = predicted_titres ! k)"
proof -
  let ?C = "\<lambda>r i. seniority ! nat i *
              (mu * antigenic_map_long !
                 nat (measurement_map_indices ! r * number_strains +
                      infection_map_indices ! nat i) +
               mu_short * antigenic_map_short !
                 nat (measurement_map_indices ! r * number_strains +
                      infection_map_indices ! nat i) *
               waning ! nat i)"
  let ?act = "\<lambda>i. masked_infection_history ! nat i > 0"
  let ?Q = "\<lambda>i t. length t = length predicted_titres \<and>
              (\<forall>r. t ! r = (if int r < n_samples
                             then predicted_titres ! r + (\<Sum>j\<leftarrow>filter ?act [0..i - 1]. ?C r j)
                             else predicted_titres ! r))"
  let ?body = "\<lambda>i predicted_titres.
     rbind (elem infection_map_indices i) (\<lambda>inf_map_index.
     rbind (elem waning i) (\<lambda>wane.
     rbind (elem seniority i) (\<lambda>senior.
     rbind (elem masked_infection_history i) (\<lambda>masked.
     if masked > 0 then
       for_loop 0 n_samples (\<lambda>k predicted_titres.
         rbind (elem measurement_map_indices k) (\<lambda>m.
         let index = m * number_strains + inf_map_index in
         rbind (elem antigenic_map_long index) (\<lambda>long.
         rbind (elem antigenic_map_short index) (\<lambda>short.
         add_elem predicted_titres k (senior * ((mu * long) + (mu_short * short) * wane))))))
         predicted_titres
     else Inr predicted_titres))))"
  from run mu mu_short
  have loop: "for_loop 0 max_infections ?body predicted_titres = Inr predicted_titres'"
    by (simp add: multiple_infection_base_boosting_def named_def)
  have "?Q (max 0 max_infections) predicted_titres'"
  proof (rule for_loop_inv [where P = ?Q, OF loop])
    show "?Q 0 predicted_titres" by simp
  next
    fix i t t'
    assume i: "0 \<le> i" "i < max_infections" and Q: "?Q i t" and body: "?body i t = Inr t'"
    have up: "[0..i + 1 - 1] = [0..i - 1] @ [i]"
      using upto_snoc [OF i(1)] by simp
    show "?Q (i + 1) t'"
    proof (cases "?act i")
      case False
      with body have "t' = t"
        by (auto simp: rbind_Inr_iff elem_Inr_iff)
      with False Q up show ?thesis by simp
    next
      case True
      with body have inner: "for_loop 0 n_samples (\<lambda>k predicted_titres.
         rbind (elem measurement_map_indices k) (\<lambda>m.
         let index = m * number_strains + infection_map_indices ! nat i in
         rbind (elem antigenic_map_long index) (\<lambda>long.
         rbind (elem antigenic_map_short index) (\<lambda>short.
         add_elem predicted_titres k
           (seniority ! nat i * ((mu * long) + (mu_short * short) * waning ! nat i))))))
         t = Inr t'"
        by (auto simp: rbind_Inr_iff elem_Inr_iff)
      from base_inner [OF inner] True Q up show ?thesis
        by (simp add: algebra_simps)
    qed
  qed
  moreover have "[0..max 0 max_infections - 1] = [0..max_infections - 1]"
    by (simp add: max_def)
  ultimately show ?thesis
    by simp
qed


theorem base_boosting_contract_witness:
  "multiple_infection_base_boosting [10, 20] [''mu'' \<mapsto> 2, ''mu_short'' \<mapsto> 1] [1, 1, 2]
     [1, 0, 1] [0, 1, 1] [0, 1] [1, 1/2, 1/2, 1] [1, 0, 0, 1] [1/2, 1, 1] [1, 1, 1/2] 2 2 3
   = Inr [13, 45/2] \<and>
   [13, 45/2] ! nat 1 = [10, 20] ! nat 1 +
     (\<Sum>i\<leftarrow>filter (\<lambda>i. [1, 0, 1] ! nat i > (0::int)) [0..3 - 1].
        [1, 1, 1/2] ! nat i *
          (2 * [1, 1/2, 1/2, 1] ! nat ([0, 1] ! nat 1 * 2 + [0, 1, 1] ! nat i) +
           1 * [1, 0, 0, 1] ! nat ([0, 1] ! nat 1 * 2 + [0, 1, 1] ! nat i) *
           [1/2, 1, 1] ! nat i) :: real)"
proof -
  let ?theta = "[''mu'' \<mapsto> 2::real, ''mu_short'' \<mapsto> 1]"
  have mu: "?theta ''mu'' = Some 2" and mu_short: "?theta ''mu_short'' = Some 1"
    by simp_all
  have run: "multiple_infection_base_boosting [10, 20] ?theta [1, 1, 2]
     [1, 0, 1] [0, 1, 1] [0, 1] [1, 1/2, 1/2, 1] [1, 0, 0, 1] [1/2, 1, 1] [1, 1, 1/2] 2 2 3
   = Inr [13, 45/2]"
    by (simp add: eval_defs)
  from base_boosting_contract [OF mu mu_short run, THEN conjunct2, THEN conjunct1,
      rule_format, of 1] run
  show ?thesis
    by simp
qed

lemma for_loop_returns:
  assumes "I s" and "\<And>j t. i \<le> j \<Longrightarrow> j < n \<Longrightarrow> I t \<Longrightarrow> \<exists>t'. body j t = Inr t' \<and> I t'"
  shows "\<exists>s'. for_loop i n body s = Inr s' \<and> I s'"
  using assms
proof (induction i n body s rule: for_loop.induct)
  case (1 i n body s)
  show ?case
  proof (cases "i < n")
    case False
    with "1.prems"(1) show ?thesis
      by (simp add: for_loop.simps [of i n])
  next
    case True
    from "1.prems"(2) [of i s] True "1.prems"(1)
    obtain t where t: "body i s = Inr t" and I: "I t"
      by auto
    have "\<exists>s'. for_loop (i + 1) n body t = Inr s' \<and> I s'"
      using "1.IH" [OF True t I] "1.prems"(2) by simp
    with True t show ?thesis
      by (simp add: for_loop.simps [of i n])
  qed
qed

text \<open>
  The base model returns on well-formed arguments: \<^verbatim>\<open>theta\<close> holds \<^verbatim>\<open>mu\<close> and \<^verbatim>\<open>mu_short\<close>, the
  vectors are as long as the two bounds say, and every index into the two maps is in range.
\<close>

lemma base_boosting_returns:
  assumes theta: "theta ''mu'' = Some mu" "theta ''mu_short'' = Some mu_short"
    and slots: "max_infections \<le> int (length infection_map_indices)"
      "max_infections \<le> int (length waning)" "max_infections \<le> int (length seniority)"
      "max_infections \<le> int (length masked_infection_history)"
    and samples: "n_samples \<le> int (length measurement_map_indices)"
      "n_samples \<le> int (length predicted_titres)"
    and maps: "\<And>i k. 0 \<le> i \<Longrightarrow> i < max_infections \<Longrightarrow> 0 \<le> k \<Longrightarrow> k < n_samples \<Longrightarrow>
       0 \<le> measurement_map_indices ! nat k * number_strains + infection_map_indices ! nat i \<and>
       measurement_map_indices ! nat k * number_strains + infection_map_indices ! nat i
         < int (length antigenic_map_long) \<and>
       measurement_map_indices ! nat k * number_strains + infection_map_indices ! nat i
         < int (length antigenic_map_short)"
  shows "\<exists>predicted_titres'.
     multiple_infection_base_boosting predicted_titres theta cumu_infection_history
       masked_infection_history infection_map_indices measurement_map_indices
       antigenic_map_long antigenic_map_short waning seniority number_strains n_samples
       max_infections = Inr predicted_titres'"
proof -
  let ?I = "\<lambda>t::real list. length t = length predicted_titres"
  let ?inner = "\<lambda>inf_map_index wane senior.
       for_loop 0 n_samples (\<lambda>k predicted_titres.
         rbind (elem measurement_map_indices k) (\<lambda>m.
         let index = m * number_strains + inf_map_index in
         rbind (elem antigenic_map_long index) (\<lambda>long.
         rbind (elem antigenic_map_short index) (\<lambda>short.
         add_elem predicted_titres k (senior * ((mu * long) + (mu_short * short) * wane))))))"
  have inner: "\<exists>t'. ?inner (infection_map_indices ! nat i) wane senior t = Inr t' \<and> ?I t'"
    if "0 \<le> i" "i < max_infections" "?I t" for i wane senior t
  proof (rule for_loop_returns [where I = ?I, OF that(3)], goal_cases)
    case (1 k u)
    with samples maps [OF that(1,2) 1(1,2)] show ?case
      by (simp add: elem_def add_elem_def set_elem_def Let_def)
  qed
  have "\<exists>s'. for_loop 0 max_infections (\<lambda>i predicted_titres.
     rbind (elem infection_map_indices i) (\<lambda>inf_map_index.
     rbind (elem waning i) (\<lambda>wane.
     rbind (elem seniority i) (\<lambda>senior.
     rbind (elem masked_infection_history i) (\<lambda>masked.
     if masked > 0 then ?inner inf_map_index wane senior predicted_titres
     else Inr predicted_titres))))) predicted_titres = Inr s' \<and> ?I s'"
  proof (rule for_loop_returns [where I = ?I], goal_cases)
    case 1
    show ?case by simp
  next
    case (2 i t)
    with slots inner [OF 2(1,2,3)] show ?case
      by (simp add: elem_def)
  qed
  with theta show ?thesis
    by (auto simp: multiple_infection_base_boosting_def named_def)
qed

subsection \<open>Two runs of a loop\<close>

lemma for_loop_rel:
  assumes "for_loop i n body1 s = Inr s'" and "R i s t"
    and "\<And>j u v u'. i \<le> j \<Longrightarrow> j < n \<Longrightarrow> R j u v \<Longrightarrow> body1 j u = Inr u' \<Longrightarrow>
           \<exists>v'. body2 j v = Inr v' \<and> R (j + 1) u' v'"
  shows "\<exists>t'. for_loop i n body2 t = Inr t' \<and> R (max i n) s' t'"
  using assms
proof (induction i n body1 s arbitrary: t rule: for_loop.induct)
  case (1 i n body1 s)
  show ?case
  proof (cases "i < n")
    case False
    with "1.prems"(1,2) show ?thesis
      by (simp add: for_loop.simps [of i n] max_def)
  next
    case True
    with "1.prems"(1) obtain u where u: "body1 i s = Inr u"
      and rest: "for_loop (i + 1) n body1 u = Inr s'"
      by (auto simp: for_loop.simps [of i n] split: sum.splits)
    from "1.prems"(3) [of i s t u] True "1.prems"(2) u
    obtain v where v: "body2 i t = Inr v" and R: "R (i + 1) u v"
      by auto
    have "\<exists>t'. for_loop (i + 1) n body2 v = Inr t' \<and> R (max (i + 1) n) s' t'"
      using "1.IH" [OF True u rest R] "1.prems"(3) by simp
    with True v show ?thesis
      by (simp add: for_loop.simps [of i n body2] max_def)
  qed
qed

lemma for_down_rel:
  assumes "for_down ii body1 s = Inr s'" and "R ii s t" and "- 1 \<le> ii"
    and "\<And>j u v u'. 0 \<le> j \<Longrightarrow> j \<le> ii \<Longrightarrow> R j u v \<Longrightarrow> body1 j u = Inr u' \<Longrightarrow>
           \<exists>v'. body2 j v = Inr v' \<and> R (j - 1) u' v'"
  shows "\<exists>t'. for_down ii body2 t = Inr t' \<and> R (- 1) s' t'"
  using assms
proof (induction ii body1 s arbitrary: t rule: for_down.induct)
  case (1 ii body1 s)
  show ?case
  proof (cases "ii \<ge> 0")
    case False
    with "1.prems"(3) have "ii = - 1" by simp
    with "1.prems"(1,2) show ?thesis
      by (simp add: for_down.simps [of "- 1"])
  next
    case True
    with "1.prems"(1) obtain u where u: "body1 ii s = Inr u"
      and rest: "for_down (ii - 1) body1 u = Inr s'"
      by (auto simp: for_down.simps [of ii] split: sum.splits)
    from "1.prems"(4) [of ii s t u] True "1.prems"(2) u
    obtain v where v: "body2 ii t = Inr v" and R: "R (ii - 1) u v"
      by auto
    have "- 1 \<le> ii - 1" using True by simp
    then have "\<exists>t'. for_down (ii - 1) body2 v = Inr t' \<and> R (- 1) s' t'"
      using "1.IH" [OF True u rest R] "1.prems"(4) by simp
    with True v show ?thesis
      by (simp add: for_down.simps [of ii body2])
  qed
qed

subsection \<open>The titre-dependent model: one slot\<close>

lemma MAX_macro_nonneg: "0 \<le> MAX_macro 0 x"
  by (simp add: MAX_macro_def)

lemma prior_infection_boost_nonneg:
  assumes "prior_infection_boost mu mu_short tau gradient boost_limit wane infection_times
     cumu_infection_history infection_map_indices antigenic_map_long antigenic_map_short
     number_strains circulation_time inf_map_index monitored_titres ii = Inr boost"
  shows "0 \<le> boost"
  using assms
  by (auto simp: prior_infection_boost_def rbind_Inr_iff Let_def MAX_macro_nonneg
      split: if_splits)

lemma prior_infection_boost_cong:
  assumes "length mt' = length mt" and "mt' ! nat ii = mt ! nat ii"
  shows "prior_infection_boost mu mu_short tau gradient boost_limit wane infection_times
     cumu_infection_history infection_map_indices antigenic_map_long antigenic_map_short
     number_strains circulation_time inf_map_index mt' ii
   = prior_infection_boost mu mu_short tau gradient boost_limit wane infection_times
     cumu_infection_history infection_map_indices antigenic_map_long antigenic_map_short
     number_strains circulation_time inf_map_index mt ii"
  using assms by (simp add: prior_infection_boost_def elem_def)

lemma sample_boost_cong:
  assumes "length mt' = length mt" and "mt' ! nat i = mt ! nat i"
  shows "sample_boost mu mu_short tau gradient boost_limit measurement_map_indices
     antigenic_map_long antigenic_map_short waning number_strains n_inf inf_map_index mt' i k
   = sample_boost mu mu_short tau gradient boost_limit measurement_map_indices
     antigenic_map_long antigenic_map_short waning number_strains n_inf inf_map_index mt i k"
  using assms by (simp add: sample_boost_def elem_def)


lemma monitored_titre_scan_effect:
  assumes run: "monitored_titre_scan mu mu_short tau gradient boost_limit wane infection_times
     cumu_infection_history masked_infection_history infection_map_indices
     antigenic_map_long antigenic_map_short number_strains circulation_time inf_map_index i
     (mt, tot) = Inr (mt', tot')"
  shows "tot \<le> tot' \<and>
         (if 1 \<le> i then i < int (length mt) \<and> mt' = mt[nat i := tot']
          else mt' = mt \<and> tot' = tot)"
proof (cases "1 \<le> i")
  case False
  with run show ?thesis
    by (simp add: monitored_titre_scan_def for_down.simps [of "i - 1"])
next
  case True
  let ?P = "\<lambda>j (m, t). tot \<le> t \<and>
              (if j < i - 1 then i < int (length mt) \<and> m = mt[nat i := t]
               else m = mt \<and> t = tot)"
  have "?P (- 1) (mt', tot')"
  proof (rule for_down_inv [where P = ?P, OF run [unfolded monitored_titre_scan_def]],
      goal_cases)
    case 1
    show ?case by simp
  next
    case 2
    from True show ?case by simp
  next
    case (3 j s s')
    obtain m t where s: "s = (m, t)" by (cases s)
    obtain m' t' where s': "s' = (m', t')" by (cases s')
    from 3(4) have upd: "i < int (length m)" "m' = m[nat i := t']" and "t \<le> t'"
      unfolding s s'
      by (auto simp: rbind_Inr_iff set_elem_Inr_iff elem_Inr_iff
          dest: prior_infection_boost_nonneg split: if_splits)
    with 3(1,2,3) show ?case
      unfolding s s' by (auto split: if_splits)
  qed
  with True show ?thesis by simp
qed

lemma monitored_titre_scan_rel:
  assumes run: "monitored_titre_scan mu mu_short tau gradient boost_limit wane infection_times
     cumu_infection_history masked_infection_history infection_map_indices
     antigenic_map_long antigenic_map_short number_strains circulation_time inf_map_index i
     (mtA, tot) = Inr (mtA', tot')"
    and len: "length mtB = length mtA"
    and agree: "\<forall>ii. 0 \<le> ii \<and> ii < i \<and> masked_infection_history ! nat ii > 0
                  \<longrightarrow> mtB ! nat ii = mtA ! nat ii"
  shows "\<exists>mtB'. monitored_titre_scan mu mu_short tau gradient boost_limit wane infection_times
     cumu_infection_history masked_infection_history infection_map_indices
     antigenic_map_long antigenic_map_short number_strains circulation_time inf_map_index i
     (mtB, tot) = Inr (mtB', tot')"
proof (cases "1 \<le> i")
  case False
  with run show ?thesis
    by (simp add: monitored_titre_scan_def for_down.simps [of "i - 1"])
next
  case True
  let ?R = "\<lambda>(j::int) (a, t) (b, t'). t' = (t::real) \<and> length b = length a \<and>
              (\<forall>ii. 0 \<le> ii \<and> ii < i \<and> masked_infection_history ! nat ii > 0
                  \<longrightarrow> b ! nat ii = (a ! nat ii :: real))"
  have "\<exists>t'. for_down (i - 1) (\<lambda>ii (monitored_titres, monitored_titre).
     rbind (elem masked_infection_history ii) (\<lambda>masked_ii.
     rbind (if masked_ii > 0
            then rbind (prior_infection_boost mu mu_short tau gradient boost_limit wane
                          infection_times cumu_infection_history infection_map_indices
                          antigenic_map_long antigenic_map_short number_strains
                          circulation_time inf_map_index monitored_titres ii)
                   (\<lambda>boost. Inr (monitored_titre + boost))
            else Inr monitored_titre) (\<lambda>monitored_titre.
     rbind (set_elem monitored_titres i monitored_titre) (\<lambda>monitored_titres.
     Inr (monitored_titres, monitored_titre))))) (mtB, tot) = Inr t' \<and> ?R (- 1) (mtA', tot') t'"
  proof (rule for_down_rel [where R = ?R, OF run [unfolded monitored_titre_scan_def]],
      goal_cases)
    case 1
    from len agree show ?case by simp
  next
    case 2
    from True show ?case by simp
  next
    case (3 j u v u')
    obtain a t where u: "u = (a, t)" by (cases u)
    obtain b t2 where v: "v = (b, t2)" by (cases v)
    obtain a' t' where u': "u' = (a', t')" by (cases u')
    from 3(3) have R: "t2 = t" "length b = length a"
      "\<And>ii. 0 \<le> ii \<Longrightarrow> ii < i \<Longrightarrow> masked_infection_history ! nat ii > 0
         \<Longrightarrow> b ! nat ii = a ! nat ii"
      unfolding u v by auto
    from 3(4) obtain masked_ii where m: "elem masked_infection_history j = Inr masked_ii"
      and tot: "(if masked_ii > 0
            then rbind (prior_infection_boost mu mu_short tau gradient boost_limit wane
                          infection_times cumu_infection_history infection_map_indices
                          antigenic_map_long antigenic_map_short number_strains
                          circulation_time inf_map_index a j)
                   (\<lambda>boost. Inr (t + boost))
            else Inr t) = Inr t'"
      and set: "set_elem a i t' = Inr a'"
      unfolding u u' by (auto simp: rbind_Inr_iff)
    have same: "masked_ii > 0 \<Longrightarrow>
       prior_infection_boost mu mu_short tau gradient boost_limit wane
         infection_times cumu_infection_history infection_map_indices
         antigenic_map_long antigenic_map_short number_strains
         circulation_time inf_map_index b j
       = prior_infection_boost mu mu_short tau gradient boost_limit wane
         infection_times cumu_infection_history infection_map_indices
         antigenic_map_long antigenic_map_short number_strains
         circulation_time inf_map_index a j"
      using R(2) R(3) [of j] 3(1,2) m
      by (intro prior_infection_boost_cong) (auto simp: elem_Inr_iff)
    from set have a': "a' = a[nat i := t']" and il: "0 \<le> i" "i < int (length a)"
      by (auto simp: set_elem_Inr_iff)
    with R(2) have setb: "set_elem b i t' = Inr (b[nat i := t'])"
      by (simp add: set_elem_Inr_iff)
    have "?R (j - 1) (a', t') (b[nat i := t'], t')"
      using R a' il by (auto simp: nth_list_update)
    moreover have "(case v of (monitored_titres, monitored_titre) \<Rightarrow>
     rbind (elem masked_infection_history j) (\<lambda>masked_ii.
     rbind (if masked_ii > 0
            then rbind (prior_infection_boost mu mu_short tau gradient boost_limit wane
                          infection_times cumu_infection_history infection_map_indices
                          antigenic_map_long antigenic_map_short number_strains
                          circulation_time inf_map_index monitored_titres j)
                   (\<lambda>boost. Inr (monitored_titre + boost))
            else Inr monitored_titre) (\<lambda>monitored_titre.
     rbind (set_elem monitored_titres i monitored_titre) (\<lambda>monitored_titres.
     Inr (monitored_titres, monitored_titre))))) = Inr (b[nat i := t'], t')"
      unfolding v using m tot same setb R(1) by (auto split: if_splits)
    ultimately show ?case
      unfolding u' by blast
  qed
  then show ?thesis
    unfolding monitored_titre_scan_def by auto
qed


lemma add_loop_rel:
  assumes run: "for_loop 0 n (\<lambda>k pt. rbind (g k) (\<lambda>b. add_elem pt (idx k) b)) ptA = Inr ptA'"
    and len: "length ptB = length ptA"
  shows "\<exists>ptB'. for_loop 0 n (\<lambda>k pt. rbind (g k) (\<lambda>b. add_elem pt (idx k) b)) ptB = Inr ptB' \<and>
           length ptA' = length ptA \<and> length ptB' = length ptA \<and>
           (\<forall>r. ptB' ! r - ptB ! r = ptA' ! r - ptA ! r)"
proof -
  let ?R = "\<lambda>(k::int) a b. length a = length ptA \<and> length b = length ptA \<and>
              (\<forall>r. b ! r - ptB ! r = a ! r - ptA ! r)"
  have "\<exists>t'. for_loop 0 n (\<lambda>k pt. rbind (g k) (\<lambda>b. add_elem pt (idx k) b)) ptB = Inr t' \<and>
          ?R (max 0 n) ptA' t'"
  proof (rule for_loop_rel [where R = ?R, OF run], goal_cases)
    case 1
    from len show ?case by simp
  next
    case (2 j u v u')
    from 2(4) obtain b where g: "g j = Inr b"
      and u': "u' = u[nat (idx j) := u ! nat (idx j) + b]"
      and rng: "0 \<le> idx j" "idx j < int (length u)"
      by (auto simp: rbind_Inr_iff add_elem_Inr_iff)
    from 2(3) rng have "add_elem v (idx j) b = Inr (v[nat (idx j) := v ! nat (idx j) + b])"
      by (simp add: add_elem_Inr_iff)
    moreover have "?R (j + 1) u' (v[nat (idx j) := v ! nat (idx j) + b])"
    proof (intro conjI allI)
      fix r
      show "v[nat (idx j) := v ! nat (idx j) + b] ! r - ptB ! r = u' ! r - ptA ! r"
      proof (cases "r = nat (idx j)")
        case True
        from 2(3) have "v ! r - ptB ! r = u ! r - ptA ! r" by simp
        with True rng 2(3) u' show ?thesis by simp
      next
        case False
        with 2(3) u' show ?thesis by simp
      qed
    qed (use 2(3) u' in simp_all)
    ultimately show ?case
      using g by auto
  qed
  then show ?thesis by auto
qed

lemma titre_dependent_infection_effect:
  assumes run: "titre_dependent_infection mu mu_short tau gradient boost_limit wane
     infection_times cumu_infection_history masked_infection_history infection_map_indices
     measurement_map_indices antigenic_map_long antigenic_map_short waning number_strains i
     (pt, mt, tot) = Inr (pt', mt', tot')"
  shows "length pt' = length pt \<and> tot \<le> tot' \<and>
         (if masked_infection_history ! nat i > 0 \<and> 1 \<le> i
          then i < int (length mt) \<and> mt' = mt[nat i := tot']
          else mt' = mt \<and> tot' = tot) \<and>
         (\<not> masked_infection_history ! nat i > 0 \<longrightarrow> pt' = pt)"
proof (cases "masked_infection_history ! nat i > 0")
  case False
  with run show ?thesis
    by (auto simp: titre_dependent_infection_def rbind_Inr_iff elem_Inr_iff Let_def)
next
  case True
  with run obtain circulation_time inf_map_index n_inf mt1 where
    scan: "monitored_titre_scan mu mu_short tau gradient boost_limit wane infection_times
             cumu_infection_history masked_infection_history infection_map_indices
             antigenic_map_long antigenic_map_short number_strains circulation_time
             inf_map_index i (mt, tot) = Inr (mt', tot')"
    and loop: "for_loop 0 (int (length measurement_map_indices)) (\<lambda>k predicted_titres.
          rbind (sample_boost mu mu_short tau gradient boost_limit measurement_map_indices
                   antigenic_map_long antigenic_map_short waning number_strains n_inf
                   inf_map_index mt' i k) (\<lambda>boost.
          add_elem predicted_titres k boost)) pt = Inr pt'"
    by (auto simp: titre_dependent_infection_def rbind_Inr_iff elem_Inr_iff Let_def
        split: prod.splits)
  from add_loop_rel [OF loop refl] have "length pt' = length pt" by blast
  with monitored_titre_scan_effect [OF scan] True show ?thesis
    by simp
qed

lemma titre_dependent_infection_rel:
  assumes run: "titre_dependent_infection mu mu_short tau gradient boost_limit wane
     infection_times cumu_infection_history masked_infection_history infection_map_indices
     measurement_map_indices antigenic_map_long antigenic_map_short waning number_strains i
     (ptA, mtA, tot) = Inr (ptA', mtA', tot')"
    and lenp: "length ptB = length ptA" and lenm: "length mtB = length mtA"
    and agree: "\<forall>r. (int r < i \<and> masked_infection_history ! r > 0) \<or> r = 0
                  \<longrightarrow> mtB ! r = mtA ! r"
    and i: "0 \<le> i"
  shows "\<exists>ptB' mtB'. titre_dependent_infection mu mu_short tau gradient boost_limit wane
     infection_times cumu_infection_history masked_infection_history infection_map_indices
     measurement_map_indices antigenic_map_long antigenic_map_short waning number_strains i
     (ptB, mtB, tot) = Inr (ptB', mtB', tot') \<and>
     length ptB' = length ptA' \<and> length mtB' = length mtA' \<and>
     (\<forall>r. ptB' ! r - ptB ! r = ptA' ! r - ptA ! r) \<and>
     (\<forall>r. (int r < i + 1 \<and> masked_infection_history ! r > 0) \<or> r = 0
                  \<longrightarrow> mtB' ! r = mtA' ! r)"
proof (cases "masked_infection_history ! nat i > 0")
  case False
  with run have same: "ptA' = ptA" "mtA' = mtA" "tot' = tot"
    and "titre_dependent_infection mu mu_short tau gradient boost_limit wane
     infection_times cumu_infection_history masked_infection_history infection_map_indices
     measurement_map_indices antigenic_map_long antigenic_map_short waning number_strains i
     (ptB, mtB, tot) = Inr (ptB, mtB, tot)"
    by (auto simp: titre_dependent_infection_def rbind_Inr_iff elem_Inr_iff Let_def)
  moreover have "mtB ! r = mtA ! r"
    if "(int r < i + 1 \<and> masked_infection_history ! r > 0) \<or> r = 0" for r
  proof -
    from that False i have "(int r < i \<and> masked_infection_history ! r > 0) \<or> r = 0"
      by (cases "int r = i") auto
    with agree show ?thesis by blast
  qed
  ultimately show ?thesis
    using lenp lenm by auto
next
  case True
  with run obtain circulation_time cumu inf_map_index masked where
    reads: "elem infection_times i = Inr circulation_time"
      "elem cumu_infection_history i = Inr cumu"
      "elem infection_map_indices i = Inr inf_map_index"
      "elem masked_infection_history i = Inr masked" "masked > 0"
    and scan: "monitored_titre_scan mu mu_short tau gradient boost_limit wane infection_times
             cumu_infection_history masked_infection_history infection_map_indices
             antigenic_map_long antigenic_map_short number_strains circulation_time
             inf_map_index i (mtA, tot) = Inr (mtA', tot')"
    and loop: "for_loop 0 (int (length measurement_map_indices)) (\<lambda>k predicted_titres.
          rbind (sample_boost mu mu_short tau gradient boost_limit measurement_map_indices
                   antigenic_map_long antigenic_map_short waning number_strains
                   (real_of_int cumu - 1) inf_map_index mtA' i k) (\<lambda>boost.
          add_elem predicted_titres k boost)) ptA = Inr ptA'"
    by (auto simp: titre_dependent_infection_def rbind_Inr_iff elem_Inr_iff Let_def
        split: prod.splits)
  have "\<forall>ii. 0 \<le> ii \<and> ii < i \<and> masked_infection_history ! nat ii > 0
          \<longrightarrow> mtB ! nat ii = mtA ! nat ii"
    using agree by auto
  from monitored_titre_scan_rel [OF scan lenm this]
  obtain mtB' where scanB: "monitored_titre_scan mu mu_short tau gradient boost_limit wane
             infection_times cumu_infection_history masked_infection_history
             infection_map_indices antigenic_map_long antigenic_map_short number_strains
             circulation_time inf_map_index i (mtB, tot) = Inr (mtB', tot')"
    by blast
  note effA = monitored_titre_scan_effect [OF scan]
  note effB = monitored_titre_scan_effect [OF scanB]
  from effA effB lenm have lenm': "length mtB' = length mtA'"
    by (auto split: if_splits)
  have at_i: "mtB' ! nat i = mtA' ! nat i"
  proof (cases "1 \<le> i")
    case True
    with effA have "nat i < length mtA" by auto
    with True effA effB lenm show ?thesis by simp
  next
    case False
    with i have "nat i = 0" by simp
    with False effA effB agree show ?thesis by simp
  qed
  have agree': "mtB' ! r = mtA' ! r"
    if "(int r < i + 1 \<and> masked_infection_history ! r > 0) \<or> r = 0" for r
  proof (cases "r = nat i")
    case True
    with at_i show ?thesis by simp
  next
    case False
    with that i have "(int r < i \<and> masked_infection_history ! r > 0) \<or> r = 0"
      by auto
    with agree have "mtB ! r = mtA ! r" by blast
    with False effA effB show ?thesis
      by (auto split: if_splits)
  qed
  have boosts: "sample_boost mu mu_short tau gradient boost_limit measurement_map_indices
                   antigenic_map_long antigenic_map_short waning number_strains
                   (real_of_int cumu - 1) inf_map_index mtB' i k
     = sample_boost mu mu_short tau gradient boost_limit measurement_map_indices
                   antigenic_map_long antigenic_map_short waning number_strains
                   (real_of_int cumu - 1) inf_map_index mtA' i k" for k
    using lenm' at_i by (rule sample_boost_cong)
  from add_loop_rel [OF loop lenp [symmetric, THEN sym]]
  obtain ptB' where loopB: "for_loop 0 (int (length measurement_map_indices))
         (\<lambda>k predicted_titres.
          rbind (sample_boost mu mu_short tau gradient boost_limit measurement_map_indices
                   antigenic_map_long antigenic_map_short waning number_strains
                   (real_of_int cumu - 1) inf_map_index mtA' i k) (\<lambda>boost.
          add_elem predicted_titres k boost)) ptB = Inr ptB'"
    and lens: "length ptA' = length ptA" "length ptB' = length ptA"
    and incr: "\<forall>r. ptB' ! r - ptB ! r = ptA' ! r - ptA ! r"
    by blast
  have "titre_dependent_infection mu mu_short tau gradient boost_limit wane
     infection_times cumu_infection_history masked_infection_history infection_map_indices
     measurement_map_indices antigenic_map_long antigenic_map_short waning number_strains i
     (ptB, mtB, tot) = Inr (ptB', mtB', tot')"
    using reads scanB loopB
    by (simp add: titre_dependent_infection_def boosts)
  with lens lenm' incr agree' show ?thesis
    by auto
qed

subsection \<open>The titre-dependent model: the whole call\<close>

lemma titre_dependent_boost_Inr_iff:
  "multiple_infection_titre_dependent_boost pt mt theta infection_times
     cumu_infection_history masked_infection_history infection_map_indices
     measurement_map_indices antigenic_map_long antigenic_map_short waning number_strains
   = Inr (pt', mt') \<longleftrightarrow>
   (\<exists>mu mu_short tau gradient boost_limit wane tot.
      theta ''mu'' = Some mu \<and> theta ''mu_short'' = Some mu_short \<and>
      theta ''tau'' = Some tau \<and> theta ''gradient'' = Some gradient \<and>
      theta ''boost_limit'' = Some boost_limit \<and> theta ''wane'' = Some wane \<and>
      for_loop 0 (int (length infection_times))
        (titre_dependent_infection mu mu_short tau gradient boost_limit wane infection_times
           cumu_infection_history masked_infection_history infection_map_indices
           measurement_map_indices antigenic_map_long antigenic_map_short waning
           number_strains)
        (pt, mt, 0) = Inr (pt', mt', tot))"
  by (auto simp: multiple_infection_titre_dependent_boost_def rbind_Inr_iff named_Inr_iff
      split: prod.splits)

lemma titre_dependent_loop_frame:
  assumes loop: "for_loop 0 n
        (titre_dependent_infection mu mu_short tau gradient boost_limit wane infection_times
           cumu_infection_history masked_infection_history infection_map_indices
           measurement_map_indices antigenic_map_long antigenic_map_short waning
           number_strains)
        (pt, mt, tot) = Inr (pt', mt', tot')"
  shows "length pt' = length pt \<and> length mt' = length mt \<and>
         (\<forall>r. \<not> (1 \<le> r \<and> int r < n \<and> masked_infection_history ! r > 0)
              \<longrightarrow> mt' ! r = mt ! r)"
proof -
  let ?P = "\<lambda>i (p, m, t::real). length p = length pt \<and> length m = length mt \<and>
              (\<forall>r. \<not> (1 \<le> r \<and> int r < i \<and> masked_infection_history ! r > 0)
                   \<longrightarrow> m ! r = mt ! r)"
  have "?P (max 0 n) (pt', mt', tot')"
  proof (rule for_loop_inv [where P = ?P, OF loop], goal_cases)
    case 1
    show ?case by simp
  next
    case (2 j s s')
    obtain p m t where s: "s = (p, m, t)" by (cases s)
    obtain p' m' t' where s': "s' = (p', m', t')" by (cases s')
    note eff = titre_dependent_infection_effect [OF 2(4) [unfolded s s']]
    have "m' ! r = mt ! r"
      if "\<not> (1 \<le> r \<and> int r < j + 1 \<and> masked_infection_history ! r > 0)" for r
    proof -
      from that have old: "\<not> (1 \<le> r \<and> int r < j \<and> masked_infection_history ! r > 0)"
        by auto
      with 2(3) have "m ! r = mt ! r"
        unfolding s by simp
      moreover have "m' ! r = m ! r"
      proof (cases "masked_infection_history ! nat j > 0 \<and> 1 \<le> j")
        case True
        with that have "r \<noteq> nat j" by auto
        with True eff show ?thesis by simp
      next
        case False
        with eff show ?thesis by auto
      qed
      ultimately show ?thesis by simp
    qed
    with eff 2(3) show ?case
      unfolding s s' by (auto split: if_splits)
  qed
  then show ?thesis
    by (auto simp: max_def)
qed

lemma titre_dependent_loop_rel:
  assumes loop: "for_loop 0 n
        (titre_dependent_infection mu mu_short tau gradient boost_limit wane infection_times
           cumu_infection_history masked_infection_history infection_map_indices
           measurement_map_indices antigenic_map_long antigenic_map_short waning
           number_strains)
        (ptA, mtA, tot) = Inr (ptA', mtA', tot')"
    and lenp: "length ptB = length ptA" and lenm: "length mtB = length mtA"
    and zero: "mtB ! 0 = mtA ! 0"
  shows "\<exists>ptB' mtB'. for_loop 0 n
        (titre_dependent_infection mu mu_short tau gradient boost_limit wane infection_times
           cumu_infection_history masked_infection_history infection_map_indices
           measurement_map_indices antigenic_map_long antigenic_map_short waning
           number_strains)
        (ptB, mtB, tot) = Inr (ptB', mtB', tot') \<and>
        (\<forall>r. ptB' ! r - ptB ! r = ptA' ! r - ptA ! r) \<and>
        (\<forall>r. int r < n \<and> masked_infection_history ! r > 0 \<longrightarrow> mtB' ! r = mtA' ! r)"
proof -
  let ?R = "\<lambda>i (pa, ma, ta::real) (pb, mb, tb). tb = ta \<and> length pb = length pa \<and>
              length mb = length ma \<and>
              (\<forall>r. pb ! r - ptB ! r = pa ! r - ptA ! r) \<and>
              (\<forall>r. (int r < i \<and> masked_infection_history ! r > 0) \<or> r = 0
                   \<longrightarrow> mb ! r = ma ! r)"
  have "\<exists>t'. for_loop 0 n
        (titre_dependent_infection mu mu_short tau gradient boost_limit wane infection_times
           cumu_infection_history masked_infection_history infection_map_indices
           measurement_map_indices antigenic_map_long antigenic_map_short waning
           number_strains)
        (ptB, mtB, tot) = Inr t' \<and> ?R (max 0 n) (ptA', mtA', tot') t'"
  proof (rule for_loop_rel [where R = ?R, OF loop], goal_cases)
    case 1
    from lenp lenm zero show ?case by auto
  next
    case (2 j u v u')
    obtain pa ma ta where u: "u = (pa, ma, ta)" by (cases u)
    obtain pb mb tb where v: "v = (pb, mb, tb)" by (cases v)
    obtain pa' ma' ta' where u': "u' = (pa', ma', ta')" by (cases u')
    from 2(3) have R: "tb = ta" "length pb = length pa" "length mb = length ma"
      "\<forall>r. pb ! r - ptB ! r = pa ! r - ptA ! r"
      "\<forall>r. (int r < j \<and> masked_infection_history ! r > 0) \<or> r = 0 \<longrightarrow> mb ! r = ma ! r"
      unfolding u v by auto
    from titre_dependent_infection_rel [OF 2(4) [unfolded u u'] R(2,3,5) 2(1)]
    obtain pb' mb' where
      B: "titre_dependent_infection mu mu_short tau gradient boost_limit wane
            infection_times cumu_infection_history masked_infection_history
            infection_map_indices measurement_map_indices antigenic_map_long
            antigenic_map_short waning number_strains j (pb, mb, ta) = Inr (pb', mb', ta')"
      and R': "length pb' = length pa'" "length mb' = length ma'"
        "\<forall>r. pb' ! r - pb ! r = pa' ! r - pa ! r"
        "\<forall>r. (int r < j + 1 \<and> masked_infection_history ! r > 0) \<or> r = 0
            \<longrightarrow> mb' ! r = ma' ! r"
      by blast
    have "pb' ! r - ptB ! r = pa' ! r - ptA ! r" for r
      using R(4) [rule_format, of r] R'(3) [rule_format, of r] by simp
    with B R' R(1) show ?case
      unfolding u' v by auto
  qed
  then show ?thesis
    by (auto simp: max_def split: if_splits)
qed

subsection \<open>The amounts a call adds do not depend on the buffer\<close>

lemma for_loop_shift:
  assumes run: "for_loop i n body ptA = Inr ptA'" and len: "length ptB = length ptA"
    and step: "\<And>j a b a'. i \<le> j \<Longrightarrow> j < n \<Longrightarrow> length b = length a \<Longrightarrow> body j a = Inr a' \<Longrightarrow>
                 \<exists>b'. body j b = Inr b' \<and> length a' = length a \<and> length b' = length a \<and>
                      (\<forall>r. b' ! r - b ! r = a' ! r - (a ! r :: real))"
  shows "\<exists>ptB'. for_loop i n body ptB = Inr ptB' \<and> length ptA' = length ptA \<and>
           length ptB' = length ptA \<and> (\<forall>r. ptB' ! r - ptB ! r = ptA' ! r - ptA ! r)"
proof -
  let ?R = "\<lambda>(k::int) a b. length a = length ptA \<and> length b = length ptA \<and>
              (\<forall>r. b ! r - ptB ! r = a ! r - ptA ! r)"
  have "\<exists>t'. for_loop i n body ptB = Inr t' \<and> ?R (max i n) ptA' t'"
  proof (rule for_loop_rel [where R = ?R, OF run], goal_cases)
    case 1
    from len show ?case by simp
  next
    case (2 j u v u')
    from 2(3) have lens: "length v = length u" by simp
    from step [OF 2(1,2) lens 2(4)] obtain v' where v': "body j v = Inr v'"
      and l: "length u' = length u" "length v' = length u"
      and d: "\<forall>r. v' ! r - v ! r = u' ! r - u ! r"
      by blast
    have "v' ! r - ptB ! r = u' ! r - ptA ! r" for r
      using d [rule_format, of r] 2(3) [THEN conjunct2, THEN conjunct2, rule_format, of r]
      by simp
    with v' l 2(3) show ?case by auto
  qed
  then show ?thesis by auto
qed

lemma add_elem_shift:
  assumes "add_elem a k x = Inr a'" and "length b = length a"
  shows "\<exists>b'. add_elem b k x = Inr b' \<and> length a' = length a \<and> length b' = length a \<and>
           (\<forall>r. b' ! r - b ! r = a' ! r - a ! r)"
proof -
  from assms have rng: "0 \<le> k" "k < int (length a)" and a': "a' = a[nat k := a ! nat k + x]"
    by (auto simp: add_elem_Inr_iff)
  with assms(2) have "add_elem b k x = Inr (b[nat k := b ! nat k + x])"
    by (simp add: add_elem_Inr_iff)
  moreover have "b[nat k := b ! nat k + x] ! r - b ! r = a' ! r - a ! r" for r
    using rng a' assms(2) by (cases "r = nat k") auto
  ultimately show ?thesis
    using a' assms(2) by auto
qed

lemma base_boosting_shift:
  assumes run: "multiple_infection_base_boosting ptA theta cumu_infection_history
       masked_infection_history infection_map_indices measurement_map_indices
       antigenic_map_long antigenic_map_short waning seniority number_strains n_samples
       max_infections = Inr ptA'"
    and len: "length ptB = length ptA"
  shows "\<exists>ptB'. multiple_infection_base_boosting ptB theta cumu_infection_history
       masked_infection_history infection_map_indices measurement_map_indices
       antigenic_map_long antigenic_map_short waning seniority number_strains n_samples
       max_infections = Inr ptB' \<and> length ptA' = length ptA \<and> length ptB' = length ptA \<and>
       (\<forall>r. ptB' ! r - ptB ! r = ptA' ! r - ptA ! r)"
proof -
  from run obtain mu mu_short where th: "named theta ''mu'' = Inr mu"
    "named theta ''mu_short'' = Inr mu_short"
    by (auto simp: multiple_infection_base_boosting_def rbind_Inr_iff)
  note loop = run [unfolded multiple_infection_base_boosting_def th rbind_Inr]
  have "\<exists>ptB'. for_loop 0 max_infections (\<lambda>i predicted_titres.
     rbind (elem infection_map_indices i) (\<lambda>inf_map_index.
     rbind (elem waning i) (\<lambda>wane.
     rbind (elem seniority i) (\<lambda>senior.
     rbind (elem masked_infection_history i) (\<lambda>masked.
     if masked > 0 then
       for_loop 0 n_samples (\<lambda>k predicted_titres.
         rbind (elem measurement_map_indices k) (\<lambda>m.
         let index = m * number_strains + inf_map_index in
         rbind (elem antigenic_map_long index) (\<lambda>long.
         rbind (elem antigenic_map_short index) (\<lambda>short.
         add_elem predicted_titres k (senior * ((mu * long) + (mu_short * short) * wane))))))
         predicted_titres
     else Inr predicted_titres))))) ptB = Inr ptB' \<and> length ptA' = length ptA \<and>
       length ptB' = length ptA \<and> (\<forall>r. ptB' ! r - ptB ! r = ptA' ! r - ptA ! r)"
  proof (rule for_loop_shift [OF loop len], goal_cases)
    case (1 j a b a')
    from 1(4) obtain inf_map_index wane senior masked where
      reads: "elem infection_map_indices j = Inr inf_map_index" "elem waning j = Inr wane"
        "elem seniority j = Inr senior" "elem masked_infection_history j = Inr masked"
      and rest: "(if masked > 0 then
       for_loop 0 n_samples (\<lambda>k predicted_titres.
         rbind (elem measurement_map_indices k) (\<lambda>m.
         let index = m * number_strains + inf_map_index in
         rbind (elem antigenic_map_long index) (\<lambda>long.
         rbind (elem antigenic_map_short index) (\<lambda>short.
         add_elem predicted_titres k (senior * ((mu * long) + (mu_short * short) * wane))))))
         a
     else Inr a) = Inr a'"
      by (auto simp: rbind_Inr_iff)
    show ?case
    proof (cases "masked > 0")
      case False
      with rest reads 1(3) show ?thesis by simp
    next
      case True
      with rest have inner: "for_loop 0 n_samples (\<lambda>k predicted_titres.
         rbind (elem measurement_map_indices k) (\<lambda>m.
         let index = m * number_strains + inf_map_index in
         rbind (elem antigenic_map_long index) (\<lambda>long.
         rbind (elem antigenic_map_short index) (\<lambda>short.
         add_elem predicted_titres k (senior * ((mu * long) + (mu_short * short) * wane))))))
         a = Inr a'"
        by simp
      have "\<exists>b'. for_loop 0 n_samples (\<lambda>k predicted_titres.
         rbind (elem measurement_map_indices k) (\<lambda>m.
         let index = m * number_strains + inf_map_index in
         rbind (elem antigenic_map_long index) (\<lambda>long.
         rbind (elem antigenic_map_short index) (\<lambda>short.
         add_elem predicted_titres k (senior * ((mu * long) + (mu_short * short) * wane))))))
         b = Inr b' \<and> length a' = length a \<and> length b' = length a \<and>
         (\<forall>r. b' ! r - b ! r = a' ! r - a ! r)"
      proof (rule for_loop_shift [OF inner 1(3)], goal_cases)
        case (1 k c d c')
        from 1(4) obtain x where "add_elem c k x = Inr c'"
          and "\<And>e. rbind (elem measurement_map_indices k) (\<lambda>m.
         let index = m * number_strains + inf_map_index in
         rbind (elem antigenic_map_long index) (\<lambda>long.
         rbind (elem antigenic_map_short index) (\<lambda>short.
         add_elem e k (senior * ((mu * long) + (mu_short * short) * wane))))) = add_elem e k x"
          by (auto simp: rbind_Inr_iff Let_def)
        with add_elem_shift [OF _ 1(3)] show ?case by simp
      qed
      with True reads show ?thesis by simp
    qed
  qed
  then show ?thesis
    by (simp add: multiple_infection_base_boosting_def th)
qed


lemma strain_dependent_shift:
  assumes run: "multiple_infection_strain_dependent ptA theta cumu_infection_history
       masked_infection_history infection_map_indices measurement_map_indices
       antigenic_map_long antigenic_map_short waning number_strains additional_args
       = Inr ptA'"
    and len: "length ptB = length ptA"
  shows "\<exists>ptB'. multiple_infection_strain_dependent ptB theta cumu_infection_history
       masked_infection_history infection_map_indices measurement_map_indices
       antigenic_map_long antigenic_map_short waning number_strains additional_args
       = Inr ptB' \<and> length ptA' = length ptA \<and> length ptB' = length ptA \<and>
       (\<forall>r. ptB' ! r - ptB ! r = ptA' ! r - ptA ! r)"
proof -
  from run obtain mu_short tau mus_v bvi where th: "named theta ''mu_short'' = Inr mu_short"
    "named theta ''tau'' = Inr tau" "list_entry (mus additional_args) ''mus'' = Inr mus_v"
    "list_entry (boosting_vec_indices additional_args) ''boosting_vec_indices'' = Inr bvi"
    by (auto simp: multiple_infection_strain_dependent_def rbind_Inr_iff Let_def)
  note loop = run [unfolded multiple_infection_strain_dependent_def Let_def th rbind_Inr]
  have "\<exists>ptB'. for_loop 0 (int (length cumu_infection_history)) (\<lambda>i predicted_titres.
      rbind (elem cumu_infection_history i) (\<lambda>cumu.
      rbind (elem infection_map_indices i) (\<lambda>inf_map_index.
      rbind (elem bvi inf_map_index) (\<lambda>grp.
      rbind (elem mus_v grp) (\<lambda>mu.
      rbind (elem waning i) (\<lambda>wane.
      rbind (elem masked_infection_history i) (\<lambda>masked.
      if masked > 0 then
        for_loop 0 (int (length measurement_map_indices)) (\<lambda>k predicted_titres.
          rbind (elem measurement_map_indices k) (\<lambda>m.
          rbind (elem antigenic_map_long (m * number_strains + inf_map_index)) (\<lambda>long.
          rbind (elem antigenic_map_short (m * number_strains + inf_map_index)) (\<lambda>short.
          add_elem predicted_titres k
            (MAX_macro 0 (1 - tau * (real_of_int cumu - 1)) *
               ((mu * long) + (mu_short * short) * wane)))))) predicted_titres
      else Inr predicted_titres))))))) ptB = Inr ptB' \<and> length ptA' = length ptA \<and>
       length ptB' = length ptA \<and> (\<forall>r. ptB' ! r - ptB ! r = ptA' ! r - ptA ! r)"
  proof (rule for_loop_shift [OF loop len], goal_cases)
    case (1 j a b a')
    from 1(4) obtain cumu inf_map_index grp mu wane masked where
      reads: "elem cumu_infection_history j = Inr cumu"
        "elem infection_map_indices j = Inr inf_map_index" "elem bvi inf_map_index = Inr grp"
        "elem mus_v grp = Inr mu" "elem waning j = Inr wane"
        "elem masked_infection_history j = Inr masked"
      and rest: "(if masked > 0 then
        for_loop 0 (int (length measurement_map_indices)) (\<lambda>k predicted_titres.
          rbind (elem measurement_map_indices k) (\<lambda>m.
          rbind (elem antigenic_map_long (m * number_strains + inf_map_index)) (\<lambda>long.
          rbind (elem antigenic_map_short (m * number_strains + inf_map_index)) (\<lambda>short.
          add_elem predicted_titres k
            (MAX_macro 0 (1 - tau * (real_of_int cumu - 1)) *
               ((mu * long) + (mu_short * short) * wane)))))) a
      else Inr a) = Inr a'"
      by (auto simp: rbind_Inr_iff)
    show ?case
    proof (cases "masked > 0")
      case False
      with rest reads 1(3) show ?thesis by simp
    next
      case True
      with rest have inner: "for_loop 0 (int (length measurement_map_indices))
         (\<lambda>k predicted_titres.
          rbind (elem measurement_map_indices k) (\<lambda>m.
          rbind (elem antigenic_map_long (m * number_strains + inf_map_index)) (\<lambda>long.
          rbind (elem antigenic_map_short (m * number_strains + inf_map_index)) (\<lambda>short.
          add_elem predicted_titres k
            (MAX_macro 0 (1 - tau * (real_of_int cumu - 1)) *
               ((mu * long) + (mu_short * short) * wane)))))) a = Inr a'"
        by simp
      have "\<exists>b'. for_loop 0 (int (length measurement_map_indices))
         (\<lambda>k predicted_titres.
          rbind (elem measurement_map_indices k) (\<lambda>m.
          rbind (elem antigenic_map_long (m * number_strains + inf_map_index)) (\<lambda>long.
          rbind (elem antigenic_map_short (m * number_strains + inf_map_index)) (\<lambda>short.
          add_elem predicted_titres k
            (MAX_macro 0 (1 - tau * (real_of_int cumu - 1)) *
               ((mu * long) + (mu_short * short) * wane)))))) b = Inr b' \<and>
         length a' = length a \<and> length b' = length a \<and>
         (\<forall>r. b' ! r - b ! r = a' ! r - a ! r)"
      proof (rule for_loop_shift [OF inner 1(3)], goal_cases)
        case (1 k c d c')
        from 1(4) obtain x where "add_elem c k x = Inr c'"
          and "\<And>e. rbind (elem measurement_map_indices k) (\<lambda>m.
          rbind (elem antigenic_map_long (m * number_strains + inf_map_index)) (\<lambda>long.
          rbind (elem antigenic_map_short (m * number_strains + inf_map_index)) (\<lambda>short.
          add_elem e k
            (MAX_macro 0 (1 - tau * (real_of_int cumu - 1)) *
               ((mu * long) + (mu_short * short) * wane))))) = add_elem e k x"
          by (auto simp: rbind_Inr_iff)
        with add_elem_shift [OF _ 1(3)] show ?case by simp
      qed
      with True reads show ?thesis by simp
    qed
  qed
  then show ?thesis
    by (simp add: multiple_infection_strain_dependent_def Let_def th)
qed

lemma titre_dependent_shift:
  assumes run: "multiple_infection_titre_dependent_boost ptA mtA theta infection_times
       cumu_infection_history masked_infection_history infection_map_indices
       measurement_map_indices antigenic_map_long antigenic_map_short waning number_strains
       = Inr (ptA', mtA')"
    and lenp: "length ptB = length ptA" and lenm: "length mtB = length mtA"
    and same: "\<forall>r. \<not> (1 \<le> r \<and> r < length infection_times \<and> masked_infection_history ! r > 0)
                 \<longrightarrow> mtB ! r = mtA ! r"
  shows "\<exists>ptB'. multiple_infection_titre_dependent_boost ptB mtB theta infection_times
       cumu_infection_history masked_infection_history infection_map_indices
       measurement_map_indices antigenic_map_long antigenic_map_short waning number_strains
       = Inr (ptB', mtA') \<and> length ptA' = length ptA \<and> length ptB' = length ptA \<and>
       (\<forall>r. ptB' ! r - ptB ! r = ptA' ! r - ptA ! r) \<and>
       length mtA' = length mtA \<and>
       (\<forall>r. \<not> (1 \<le> r \<and> r < length infection_times \<and> masked_infection_history ! r > 0)
                 \<longrightarrow> mtA' ! r = mtA ! r)"
proof -
  from run obtain mu mu_short tau gradient boost_limit wane tot where
    th: "theta ''mu'' = Some mu" "theta ''mu_short'' = Some mu_short"
      "theta ''tau'' = Some tau" "theta ''gradient'' = Some gradient"
      "theta ''boost_limit'' = Some boost_limit" "theta ''wane'' = Some wane"
    and loopA: "for_loop 0 (int (length infection_times))
        (titre_dependent_infection mu mu_short tau gradient boost_limit wane infection_times
           cumu_infection_history masked_infection_history infection_map_indices
           measurement_map_indices antigenic_map_long antigenic_map_short waning
           number_strains)
        (ptA, mtA, 0) = Inr (ptA', mtA', tot)"
    unfolding titre_dependent_boost_Inr_iff by blast
  from same have zero: "mtB ! 0 = mtA ! 0" by simp
  from titre_dependent_loop_rel [OF loopA lenp lenm zero]
  obtain ptB' mtB' where loopB: "for_loop 0 (int (length infection_times))
        (titre_dependent_infection mu mu_short tau gradient boost_limit wane infection_times
           cumu_infection_history masked_infection_history infection_map_indices
           measurement_map_indices antigenic_map_long antigenic_map_short waning
           number_strains)
        (ptB, mtB, 0) = Inr (ptB', mtB', tot)"
    and incr: "\<forall>r. ptB' ! r - ptB ! r = ptA' ! r - ptA ! r"
    and act: "\<forall>r. int r < int (length infection_times) \<and> masked_infection_history ! r > 0
               \<longrightarrow> mtB' ! r = mtA' ! r"
    by blast
  note frA = titre_dependent_loop_frame [OF loopA]
  note frB = titre_dependent_loop_frame [OF loopB]
  have "mtB' = mtA'"
  proof (rule nth_equalityI)
    show "length mtB' = length mtA'" using frA frB lenm by simp
  next
    fix r
    show "mtB' ! r = mtA' ! r"
    proof (cases "1 \<le> r \<and> r < length infection_times \<and> masked_infection_history ! r > 0")
      case True
      with act show ?thesis by simp
    next
      case False
      with frA frB same show ?thesis by simp
    qed
  qed
  with loopB th have "multiple_infection_titre_dependent_boost ptB mtB theta infection_times
       cumu_infection_history masked_infection_history infection_map_indices
       measurement_map_indices antigenic_map_long antigenic_map_short waning number_strains
       = Inr (ptB', mtA')"
    unfolding titre_dependent_boost_Inr_iff by blast
  with incr frA frB lenp show ?thesis
    by auto
qed

subsection \<open>The titre-dependent model: what the call does to \<^verbatim>\<open>monitored_titres\<close>\<close>

text \<open>
  Claim C3, as amended. For every active slot \<open>i\<close> with \<open>1 \<le> i < max_infections\<close>, the call
  writes \<^verbatim>\<open>monitored_titres[i]\<close> before it reads it: a run that differs only in the value
  stored in \<^verbatim>\<open>monitored_titres[i]\<close> at entry returns the same two buffers, so the same final
  \<^verbatim>\<open>monitored_titres[i]\<close>. Slot \<open>0\<close> has no earlier slot, the scan that holds the write does
  not run for it, and \<^verbatim>\<open>monitored_titres[0]\<close> keeps the value it had at entry.
\<close>

theorem monitored_titres_overwritten:
  assumes run: "multiple_infection_titre_dependent_boost predicted_titres monitored_titres
       theta infection_times cumu_infection_history masked_infection_history
       infection_map_indices measurement_map_indices antigenic_map_long antigenic_map_short
       waning number_strains = Inr (predicted_titres', monitored_titres')"
    and slot: "1 \<le> i" "i < length infection_times"
    and active: "masked_infection_history ! i > 0"
  shows "multiple_infection_titre_dependent_boost predicted_titres (monitored_titres[i := v])
       theta infection_times cumu_infection_history masked_infection_history
       infection_map_indices measurement_map_indices antigenic_map_long antigenic_map_short
       waning number_strains = Inr (predicted_titres', monitored_titres') \<and>
     monitored_titres' ! 0 = monitored_titres ! 0"
proof -
  have same: "\<forall>r. \<not> (1 \<le> r \<and> r < length infection_times \<and> masked_infection_history ! r > 0)
                 \<longrightarrow> monitored_titres[i := v] ! r = monitored_titres ! r"
  proof (intro allI impI)
    fix r
    assume "\<not> (1 \<le> r \<and> r < length infection_times \<and> masked_infection_history ! r > 0)"
    with slot active have "r \<noteq> i" by auto
    then show "monitored_titres[i := v] ! r = monitored_titres ! r" by simp
  qed
  from titre_dependent_shift [OF run refl _ same]
  obtain pt2 where run2: "multiple_infection_titre_dependent_boost predicted_titres
       (monitored_titres[i := v]) theta infection_times cumu_infection_history
       masked_infection_history infection_map_indices measurement_map_indices
       antigenic_map_long antigenic_map_short waning number_strains
       = Inr (pt2, monitored_titres')"
    and lens: "length predicted_titres' = length predicted_titres"
      "length pt2 = length predicted_titres"
    and incr: "\<forall>r. pt2 ! r - predicted_titres ! r = predicted_titres' ! r - predicted_titres ! r"
    and zero: "monitored_titres' ! 0 = monitored_titres ! 0"
    by auto
  from lens incr have "pt2 = predicted_titres'"
    by (intro nth_equalityI) simp_all
  with run2 zero show ?thesis by simp
qed

theorem monitored_titres_overwritten_witness:
  "multiple_infection_titre_dependent_boost [0] [0, 0, 0]
     [''mu'' \<mapsto> 1, ''mu_short'' \<mapsto> 0, ''tau'' \<mapsto> 0, ''gradient'' \<mapsto> 1/10,
      ''boost_limit'' \<mapsto> 10, ''wane'' \<mapsto> 0]
     [1, 2, 3] [1, 2, 3] [1, 1, 1] [0, 0, 0] [0] [1] [0] [1, 1, 1] 1
   = Inr ([261/100], [0, 1, 29/10]) \<and>
   [1, 1, 1 :: int] ! 1 > 0 \<and>
   multiple_infection_titre_dependent_boost [0] ([0, 0, 0][1 := 7])
     [''mu'' \<mapsto> 1, ''mu_short'' \<mapsto> 0, ''tau'' \<mapsto> 0, ''gradient'' \<mapsto> 1/10,
      ''boost_limit'' \<mapsto> 10, ''wane'' \<mapsto> 0]
     [1, 2, 3] [1, 2, 3] [1, 1, 1] [0, 0, 0] [0] [1] [0] [1, 1, 1] 1
   = Inr ([261/100], [0, 1, 29/10])"
proof -
  have run: "multiple_infection_titre_dependent_boost [0] [0, 0, 0]
     [''mu'' \<mapsto> 1, ''mu_short'' \<mapsto> 0, ''tau'' \<mapsto> 0, ''gradient'' \<mapsto> 1/10,
      ''boost_limit'' \<mapsto> 10, ''wane'' \<mapsto> 0]
     [1, 2, 3] [1, 2, 3] [1, 1, 1] [0, 0, 0] [0] [1] [0] [1, 1, 1] 1
   = Inr ([261/100], [0, 1, 29/10])"
    by (simp add: eval_defs)
  from monitored_titres_overwritten [OF run, of 1 7] run show ?thesis
    by simp
qed

text \<open>
  Claim C3 as stated fails at slot \<open>0\<close>: with one active slot, the final
  \<^verbatim>\<open>monitored_titres[0]\<close> is the value at entry, \<open>0\<close> in one run and \<open>5\<close> in the other.
\<close>

theorem monitored_titres_overwritten_counterexample:
  "[1::int] ! 0 > 0 \<and>
   multiple_infection_titre_dependent_boost [0] [0]
     [''mu'' \<mapsto> 1, ''mu_short'' \<mapsto> 0, ''tau'' \<mapsto> 0, ''gradient'' \<mapsto> 1/10,
      ''boost_limit'' \<mapsto> 10, ''wane'' \<mapsto> 0] [1] [1] [1] [0] [0] [1] [0] [1] 1
   = Inr ([1], [0]) \<and>
   multiple_infection_titre_dependent_boost [0] [5]
     [''mu'' \<mapsto> 1, ''mu_short'' \<mapsto> 0, ''tau'' \<mapsto> 0, ''gradient'' \<mapsto> 1/10,
      ''boost_limit'' \<mapsto> 10, ''wane'' \<mapsto> 0] [1] [1] [1] [0] [0] [1] [0] [1] 1
   = Inr ([1/2], [5]) \<and>
   [0::real] ! 0 \<noteq> [5] ! 0"
  by (simp add: eval_defs)

subsection \<open>Calling a model twice\<close>

text \<open>
  Claim C6 (no hidden state). For each of the three models: if a call returns, then a second
  call on the same input arrays, with \<^verbatim>\<open>predicted_titres\<close> zeroed and, for the
  titre-dependent model, \<^verbatim>\<open>monitored_titres\<close> as the first call left it, returns too; to
  every entry it adds what the first call added (so both results are equal when the first
  buffer was zero as well), and the titre-dependent model leaves \<^verbatim>\<open>monitored_titres\<close>
  as the first call left it.
\<close>

theorem second_call_adds_the_same:
  "(\<forall>predicted_titres1.
      multiple_infection_base_boosting predicted_titres theta cumu_infection_history
        masked_infection_history infection_map_indices measurement_map_indices
        antigenic_map_long antigenic_map_short waning seniority number_strains n_samples
        max_infections = Inr predicted_titres1 \<longrightarrow>
      (\<exists>predicted_titres2.
         multiple_infection_base_boosting (replicate (length predicted_titres1) 0) theta
           cumu_infection_history masked_infection_history infection_map_indices
           measurement_map_indices antigenic_map_long antigenic_map_short waning seniority
           number_strains n_samples max_infections = Inr predicted_titres2 \<and>
         length predicted_titres2 = length predicted_titres1 \<and>
         (\<forall>k < length predicted_titres1.
            predicted_titres2 ! k = predicted_titres1 ! k - predicted_titres ! k))) \<and>
   (\<forall>predicted_titres1.
      multiple_infection_strain_dependent predicted_titres theta cumu_infection_history
        masked_infection_history infection_map_indices measurement_map_indices
        antigenic_map_long antigenic_map_short waning number_strains additional_args
        = Inr predicted_titres1 \<longrightarrow>
      (\<exists>predicted_titres2.
         multiple_infection_strain_dependent (replicate (length predicted_titres1) 0) theta
           cumu_infection_history masked_infection_history infection_map_indices
           measurement_map_indices antigenic_map_long antigenic_map_short waning
           number_strains additional_args = Inr predicted_titres2 \<and>
         length predicted_titres2 = length predicted_titres1 \<and>
         (\<forall>k < length predicted_titres1.
            predicted_titres2 ! k = predicted_titres1 ! k - predicted_titres ! k))) \<and>
   (\<forall>predicted_titres1 monitored_titres1.
      multiple_infection_titre_dependent_boost predicted_titres monitored_titres theta
        infection_times cumu_infection_history masked_infection_history
        infection_map_indices measurement_map_indices antigenic_map_long antigenic_map_short
        waning number_strains = Inr (predicted_titres1, monitored_titres1) \<longrightarrow>
      (\<exists>predicted_titres2.
         multiple_infection_titre_dependent_boost (replicate (length predicted_titres1) 0)
           monitored_titres1 theta infection_times cumu_infection_history
           masked_infection_history infection_map_indices measurement_map_indices
           antigenic_map_long antigenic_map_short waning number_strains
           = Inr (predicted_titres2, monitored_titres1) \<and>
         length predicted_titres2 = length predicted_titres1 \<and>
         (\<forall>k < length predicted_titres1.
            predicted_titres2 ! k = predicted_titres1 ! k - predicted_titres ! k)))"
proof (intro conjI allI impI)
  fix pt1
  assume run: "multiple_infection_base_boosting predicted_titres theta cumu_infection_history
        masked_infection_history infection_map_indices measurement_map_indices
        antigenic_map_long antigenic_map_short waning seniority number_strains n_samples
        max_infections = Inr pt1"
  from base_boosting_shift [OF run refl] have len: "length pt1 = length predicted_titres"
    by blast
  then have "length (replicate (length pt1) (0::real)) = length predicted_titres"
    by simp
  note step = base_boosting_shift [OF run this]
  let ?run2 = "\<lambda>pt2. multiple_infection_base_boosting (replicate (length pt1) 0) theta
           cumu_infection_history masked_infection_history infection_map_indices
           measurement_map_indices antigenic_map_long antigenic_map_short waning seniority
           number_strains n_samples max_infections = Inr pt2"
  show "\<exists>pt2. multiple_infection_base_boosting (replicate (length pt1) 0) theta
           cumu_infection_history masked_infection_history infection_map_indices
           measurement_map_indices antigenic_map_long antigenic_map_short waning seniority
           number_strains n_samples max_infections = Inr pt2 \<and>
         length pt2 = length pt1 \<and>
         (\<forall>k < length pt1. pt2 ! k = pt1 ! k - predicted_titres ! k)"
  proof -
    from step obtain pt2 where r2: "?run2 pt2"
      and l2: "length pt2 = length predicted_titres"
      and d: "\<forall>r. pt2 ! r - replicate (length pt1) 0 ! r = pt1 ! r - predicted_titres ! r"
      by blast
    have "pt2 ! k = pt1 ! k - predicted_titres ! k" if "k < length pt1" for k
      using d [rule_format, of k] that by simp
    with r2 l2 len show ?thesis by auto
  qed
next
  fix pt1
  assume run: "multiple_infection_strain_dependent predicted_titres theta
        cumu_infection_history masked_infection_history infection_map_indices
        measurement_map_indices antigenic_map_long antigenic_map_short waning number_strains
        additional_args = Inr pt1"
  from strain_dependent_shift [OF run refl] have len: "length pt1 = length predicted_titres"
    by blast
  then have "length (replicate (length pt1) (0::real)) = length predicted_titres"
    by simp
  note step = strain_dependent_shift [OF run this]
  let ?run2 = "\<lambda>pt2. multiple_infection_strain_dependent (replicate (length pt1) 0) theta
           cumu_infection_history masked_infection_history infection_map_indices
           measurement_map_indices antigenic_map_long antigenic_map_short waning
           number_strains additional_args = Inr pt2"
  show "\<exists>pt2. multiple_infection_strain_dependent (replicate (length pt1) 0) theta
           cumu_infection_history masked_infection_history infection_map_indices
           measurement_map_indices antigenic_map_long antigenic_map_short waning
           number_strains additional_args = Inr pt2 \<and>
         length pt2 = length pt1 \<and>
         (\<forall>k < length pt1. pt2 ! k = pt1 ! k - predicted_titres ! k)"
  proof -
    from step obtain pt2 where r2: "?run2 pt2"
      and l2: "length pt2 = length predicted_titres"
      and d: "\<forall>r. pt2 ! r - replicate (length pt1) 0 ! r = pt1 ! r - predicted_titres ! r"
      by blast
    have "pt2 ! k = pt1 ! k - predicted_titres ! k" if "k < length pt1" for k
      using d [rule_format, of k] that by simp
    with r2 l2 len show ?thesis by auto
  qed
next
  fix pt1 mt1
  assume run: "multiple_infection_titre_dependent_boost predicted_titres monitored_titres
        theta infection_times cumu_infection_history masked_infection_history
        infection_map_indices measurement_map_indices antigenic_map_long antigenic_map_short
        waning number_strains = Inr (pt1, mt1)"
  from titre_dependent_shift [OF run refl refl]
  have len: "length pt1 = length predicted_titres"
    and lenm: "length mt1 = length monitored_titres"
    and kept: "\<forall>r. \<not> (1 \<le> r \<and> r < length infection_times \<and> masked_infection_history ! r > 0)
                 \<longrightarrow> mt1 ! r = monitored_titres ! r"
    by auto
  from len have "length (replicate (length pt1) (0::real)) = length predicted_titres"
    by simp
  note step = titre_dependent_shift [OF run this lenm kept]
  let ?run2 = "\<lambda>pt2. multiple_infection_titre_dependent_boost (replicate (length pt1) 0) mt1
           theta infection_times cumu_infection_history masked_infection_history
           infection_map_indices measurement_map_indices antigenic_map_long
           antigenic_map_short waning number_strains = Inr (pt2, mt1)"
  show "\<exists>pt2. multiple_infection_titre_dependent_boost (replicate (length pt1) 0) mt1 theta
           infection_times cumu_infection_history masked_infection_history
           infection_map_indices measurement_map_indices antigenic_map_long
           antigenic_map_short waning number_strains = Inr (pt2, mt1) \<and>
         length pt2 = length pt1 \<and>
         (\<forall>k < length pt1. pt2 ! k = pt1 ! k - predicted_titres ! k)"
  proof -
    from step obtain pt2 where r2: "?run2 pt2"
      and l2: "length pt2 = length predicted_titres"
      and d: "\<forall>r. pt2 ! r - replicate (length pt1) 0 ! r = pt1 ! r - predicted_titres ! r"
      by blast
    have "pt2 ! k = pt1 ! k - predicted_titres ! k" if "k < length pt1" for k
      using d [rule_format, of k] that by simp
    with r2 l2 len show ?thesis by auto
  qed
qed


theorem second_call_adds_the_same_witness:
  "multiple_infection_base_boosting [10, 20] [''mu'' \<mapsto> 2, ''mu_short'' \<mapsto> 1] [1, 1, 2]
     [1, 0, 1] [0, 1, 1] [0, 1] [1, 1/2, 1/2, 1] [1, 0, 0, 1] [1/2, 1, 1] [1, 1, 1/2] 2 2 3
   = Inr [13, 45/2] \<and>
   multiple_infection_base_boosting [0, 0] [''mu'' \<mapsto> 2, ''mu_short'' \<mapsto> 1] [1, 1, 2]
     [1, 0, 1] [0, 1, 1] [0, 1] [1, 1/2, 1/2, 1] [1, 0, 0, 1] [1/2, 1, 1] [1, 1, 1/2] 2 2 3
   = Inr [3, 5/2] \<and>
   multiple_infection_strain_dependent [10, 20] [''mu_short'' \<mapsto> 1, ''tau'' \<mapsto> 1/10]
     [1, 1, 2] [1, 0, 1] [0, 1, 1] [0, 1] [1, 1/2, 1/2, 1] [1, 0, 0, 1] [1/2, 1, 1] 2
     \<lparr>mus = Some [2, 3], boosting_vec_indices = Some [0, 1]\<rparr>
   = Inr [277/20, 123/5] \<and>
   multiple_infection_strain_dependent [0, 0] [''mu_short'' \<mapsto> 1, ''tau'' \<mapsto> 1/10]
     [1, 1, 2] [1, 0, 1] [0, 1, 1] [0, 1] [1, 1/2, 1/2, 1] [1, 0, 0, 1] [1/2, 1, 1] 2
     \<lparr>mus = Some [2, 3], boosting_vec_indices = Some [0, 1]\<rparr>
   = Inr [77/20, 23/5] \<and>
   multiple_infection_titre_dependent_boost [4, 0] [0, 7, 9, 3]
     [''mu'' \<mapsto> 2, ''mu_short'' \<mapsto> 1, ''tau'' \<mapsto> 1/10, ''gradient'' \<mapsto> 1/10,
      ''boost_limit'' \<mapsto> 3, ''wane'' \<mapsto> 1/4]
     [1, 2, 3, 5] [1, 2, 2, 3] [1, 1, 0, 1] [0, 1, 1, 0] [0, 1] [1, 1/2, 1/2, 1]
     [1, 0, 0, 1] [1, 1, 1, 1/2] 2
   = Inr ([921/100, 399/100], [0, 1, 9, 381/100]) \<and>
   multiple_infection_titre_dependent_boost [0, 0] [0, 1, 9, 381/100]
     [''mu'' \<mapsto> 2, ''mu_short'' \<mapsto> 1, ''tau'' \<mapsto> 1/10, ''gradient'' \<mapsto> 1/10,
      ''boost_limit'' \<mapsto> 3, ''wane'' \<mapsto> 1/4]
     [1, 2, 3, 5] [1, 2, 2, 3] [1, 1, 0, 1] [0, 1, 1, 0] [0, 1] [1, 1/2, 1/2, 1]
     [1, 0, 0, 1] [1, 1, 1, 1/2] 2
   = Inr ([521/100, 399/100], [0, 1, 9, 381/100])"
  using second_call_adds_the_same [where predicted_titres = "[10, 20]"
      and theta = "[''mu'' \<mapsto> 2, ''mu_short'' \<mapsto> 1]"
      and cumu_infection_history = "[1, 1, 2]" and masked_infection_history = "[1, 0, 1]"
      and infection_map_indices = "[0, 1, 1]" and measurement_map_indices = "[0, 1]"
      and antigenic_map_long = "[1, 1/2, 1/2, 1]" and antigenic_map_short = "[1, 0, 0, 1]"
      and waning = "[1/2, 1, 1]" and seniority = "[1, 1, 1/2]" and number_strains = 2
      and n_samples = 2 and max_infections = 3, THEN conjunct1]
    second_call_adds_the_same [where predicted_titres = "[10, 20]"
      and theta = "[''mu_short'' \<mapsto> 1, ''tau'' \<mapsto> 1/10]"
      and cumu_infection_history = "[1, 1, 2]" and masked_infection_history = "[1, 0, 1]"
      and infection_map_indices = "[0, 1, 1]" and measurement_map_indices = "[0, 1]"
      and antigenic_map_long = "[1, 1/2, 1/2, 1]" and antigenic_map_short = "[1, 0, 0, 1]"
      and waning = "[1/2, 1, 1]" and number_strains = 2
      and additional_args = "\<lparr>mus = Some [2, 3], boosting_vec_indices = Some [0, 1]\<rparr>",
      THEN conjunct2, THEN conjunct1]
    second_call_adds_the_same [where predicted_titres = "[4, 0]"
      and monitored_titres = "[0, 7, 9, 3]"
      and theta = "[''mu'' \<mapsto> 2, ''mu_short'' \<mapsto> 1, ''tau'' \<mapsto> 1/10, ''gradient'' \<mapsto> 1/10,
        ''boost_limit'' \<mapsto> 3, ''wane'' \<mapsto> 1/4]"
      and infection_times = "[1, 2, 3, 5]"
      and cumu_infection_history = "[1, 2, 2, 3]" and masked_infection_history = "[1, 1, 0, 1]"
      and infection_map_indices = "[0, 1, 1, 0]" and measurement_map_indices = "[0, 1]"
      and antigenic_map_long = "[1, 1/2, 1/2, 1]" and antigenic_map_short = "[1, 0, 0, 1]"
      and waning = "[1, 1, 1, 1/2]" and number_strains = 2,
      THEN conjunct2, THEN conjunct2]
  by (simp_all add: eval_defs)


subsection \<open>The titre-dependent model: the running total only grows\<close>

text \<open>
  On these doubles \<open>a \<le> b\<close> says, too, that neither side is NaN, so \<open>\<le>\<close> is transitive but
  not reflexive. What goes through the loops is \<open>b = NaN \<or> a \<le> b\<close>: the later value is NaN
  or at least the earlier one. The facts used of the arithmetic are facts of sign and order
  (a product of two values that are at least zero is at least zero or NaN; adding such a
  value to a total that is at least zero gives NaN or at least the total); rounding to
  nearest is monotone and keeps zero and the infinities, so it keeps these facts.
\<close>

lemma le_double_not_NaN: "a \<le> b \<Longrightarrow> a \<noteq> NaN \<and> b \<noteq> (NaN::double)"
  by (cases a; cases b) simp_all

lemma le_double_refl: "a \<noteq> NaN \<Longrightarrow> a \<le> (a::double)"
  by (cases a) simp_all

lemma le_double_trans: "a \<le> b \<Longrightarrow> b \<le> c \<Longrightarrow> a \<le> (c::double)"
  by (cases a; cases b; cases c) simp_all

lemma grows_refl: "a = NaN \<or> a \<le> (a::double)"
  by (cases a) simp_all

lemma grows_trans:
  assumes "b = NaN \<or> a \<le> b" and "c = NaN \<or> b \<le> (c::double)"
  shows "c = NaN \<or> a \<le> c"
  using assms by (cases a; cases b; cases c) simp_all

lemma overflow_nonneg:
  assumes "0 \<le> x"
  shows "overflow x = PInf \<or> overflow x = Finite x"
proof -
  have "(0::real) < 2 ^ 1024 - 2 ^ 970" by simp
  with assms have "\<not> x \<le> - (2 ^ 1024 - 2 ^ 970)" by linarith
  then show ?thesis
    unfolding overflow_def by presburger
qed

lemma MAX_ieee_nonneg: "0 \<le> MAX_ieee 0 x"
  by (cases x) (simp_all add: MAX_ieee_def zero_double_def)

lemma times_double_nonneg:
  assumes "0 \<le> a" and "0 \<le> (b::double)"
  shows "a * b = NaN \<or> 0 \<le> a * b"
proof (cases a; cases b)
  fix x y
  assume ab: "a = Finite x" "b = Finite y"
  with assms have "0 \<le> x * y"
    by (simp add: zero_double_def)
  with overflow_nonneg [of "x * y"] ab show ?thesis
    by (auto simp: zero_double_def)
qed (use assms in \<open>simp_all add: zero_double_def\<close>)

lemma plus_double_grows:
  assumes "t = NaN \<or> 0 \<le> t" and "b = NaN \<or> 0 \<le> (b::double)"
  shows "t + b = NaN \<or> t \<le> t + b"
proof (cases t; cases b)
  fix x y
  assume tb: "t = Finite x" "b = Finite y"
  with assms have "0 \<le> x + y" "x \<le> x + y"
    by (simp_all add: zero_double_def)
  with overflow_nonneg [of "x + y"] tb show ?thesis
    by auto
qed (use assms in \<open>simp_all add: zero_double_def\<close>)

lemma plus_double_nonneg:
  assumes "0 \<le> a" and "b = NaN \<or> 0 \<le> (b::double)"
  shows "a + b = NaN \<or> 0 \<le> a + b"
proof -
  from assms(1) have "a = NaN \<or> 0 \<le> a" ..
  from plus_double_grows [OF this assms(2)] assms(1) show ?thesis
    by (auto intro: le_double_trans)
qed


lemma prior_infection_boost_ieee_sign:
  assumes "prior_infection_boost_ieee mu mu_short tau gradient boost_limit wane
     infection_times cumu_infection_history infection_map_indices antigenic_map_long
     antigenic_map_short number_strains circulation_time inf_map_index monitored_titres ii
     = Inr boost"
  shows "boost = NaN \<or> 0 \<le> boost"
proof -
  from assms obtain long_boost short_boost time where
    boost: "boost = MAX_ieee 0 long_boost +
              MAX_ieee 0 short_boost * MAX_ieee 0 (1 - wane * (circulation_time - time))"
    by (auto simp: prior_infection_boost_ieee_def rbind_Inr_iff Let_def split: if_splits)
  show ?thesis
    unfolding boost
    by (intro plus_double_nonneg times_double_nonneg MAX_ieee_nonneg)
qed

lemma monitored_titre_scan_ieee_effect:
  assumes run: "monitored_titre_scan_ieee mu mu_short tau gradient boost_limit wane
     infection_times cumu_infection_history masked_infection_history infection_map_indices
     antigenic_map_long antigenic_map_short number_strains circulation_time inf_map_index i
     (mt, tot) = Inr (mt', tot')"
    and tot: "tot = NaN \<or> 0 \<le> tot"
  shows "(tot' = NaN \<or> tot \<le> tot') \<and>
         (if 1 \<le> i then i < int (length mt) \<and> mt' = mt[nat i := tot']
          else mt' = mt \<and> tot' = tot)"
proof (cases "1 \<le> i")
  case False
  with run grows_refl [of tot] show ?thesis
    by (simp add: monitored_titre_scan_ieee_def for_down.simps [of "i - 1"])
next
  case True
  let ?P = "\<lambda>j (m, t). (t = NaN \<or> tot \<le> t) \<and>
              (if j < i - 1 then i < int (length mt) \<and> m = mt[nat i := t]
               else m = mt \<and> t = tot)"
  have "?P (- 1) (mt', tot')"
  proof (rule for_down_inv [where P = ?P, OF run [unfolded monitored_titre_scan_ieee_def]],
      goal_cases)
    case 1
    from grows_refl [of tot] show ?case by simp
  next
    case 2
    from True show ?case by simp
  next
    case (3 j s s')
    obtain m t where s: "s = (m, t)" by (cases s)
    obtain m' t' where s': "s' = (m', t')" by (cases s')
    from 3(3) have inv: "t = NaN \<or> tot \<le> t"
      unfolding s by simp
    have "i < int (length m) \<and> m' = m[nat i := t'] \<and> (t' = NaN \<or> t \<le> t')"
    proof (cases "masked_infection_history ! nat j > 0")
      case False
      with 3(4) have "set_elem m i t = Inr m'" "t' = t"
        unfolding s s' by (auto simp: rbind_Inr_iff elem_Inr_iff)
      with grows_refl [of t] show ?thesis
        by (auto simp: set_elem_Inr_iff)
    next
      case True
      with 3(4) obtain boost where
        boost: "prior_infection_boost_ieee mu mu_short tau gradient boost_limit wane
                  infection_times cumu_infection_history infection_map_indices
                  antigenic_map_long antigenic_map_short number_strains circulation_time
                  inf_map_index m j = Inr boost"
        and upd: "set_elem m i (t + boost) = Inr m'" and t': "t' = t + boost"
        unfolding s s' by (auto simp: rbind_Inr_iff elem_Inr_iff)
      from grows_trans [OF tot inv]
      have "t = NaN \<or> 0 \<le> t" .
      from plus_double_grows [OF this prior_infection_boost_ieee_sign [OF boost]]
      have "t' = NaN \<or> t \<le> t'"
        unfolding t' .
      with upd t' show ?thesis
        by (auto simp: set_elem_Inr_iff)
    qed
    then have upd: "i < int (length m)" "m' = m[nat i := t']"
      and step: "t' = NaN \<or> t \<le> t'"
      by simp_all
    from grows_trans [OF inv step] have "t' = NaN \<or> tot \<le> t'" .
    with upd 3(1,2,3) show ?case
      unfolding s s' by (auto split: if_splits)
  qed
  with True show ?thesis by simp
qed

lemma titre_dependent_infection_ieee_effect:
  assumes run: "titre_dependent_infection_ieee mu mu_short tau gradient boost_limit wane
     infection_times cumu_infection_history masked_infection_history infection_map_indices
     measurement_map_indices antigenic_map_long antigenic_map_short waning number_strains i
     (pt, mt, tot) = Inr (pt', mt', tot')"
    and tot: "tot = NaN \<or> 0 \<le> tot"
  shows "(tot' = NaN \<or> tot \<le> tot') \<and>
         (if masked_infection_history ! nat i > 0 \<and> 1 \<le> i
          then i < int (length mt) \<and> mt' = mt[nat i := tot']
          else mt' = mt \<and> tot' = tot)"
proof (cases "masked_infection_history ! nat i > 0")
  case False
  with run grows_refl [of tot] show ?thesis
    by (auto simp: titre_dependent_infection_ieee_def rbind_Inr_iff elem_Inr_iff Let_def)
next
  case True
  with run obtain circulation_time inf_map_index where
    scan: "monitored_titre_scan_ieee mu mu_short tau gradient boost_limit wane
             infection_times cumu_infection_history masked_infection_history
             infection_map_indices antigenic_map_long antigenic_map_short number_strains
             circulation_time inf_map_index i (mt, tot) = Inr (mt', tot')"
    by (auto simp: titre_dependent_infection_ieee_def rbind_Inr_iff elem_Inr_iff Let_def
        split: prod.splits)
  from monitored_titre_scan_ieee_effect [OF scan tot] True show ?thesis
    by simp
qed

lemma titre_dependent_boost_ieee_Inr_iff:
  "multiple_infection_titre_dependent_boost_ieee pt mt theta infection_times
     cumu_infection_history masked_infection_history infection_map_indices
     measurement_map_indices antigenic_map_long antigenic_map_short waning number_strains
   = Inr (pt', mt') \<longleftrightarrow>
   (\<exists>mu mu_short tau gradient boost_limit wane tot.
      theta ''mu'' = Some mu \<and> theta ''mu_short'' = Some mu_short \<and>
      theta ''tau'' = Some tau \<and> theta ''gradient'' = Some gradient \<and>
      theta ''boost_limit'' = Some boost_limit \<and> theta ''wane'' = Some wane \<and>
      for_loop 0 (int (length infection_times))
        (titre_dependent_infection_ieee mu mu_short tau gradient boost_limit wane
           infection_times cumu_infection_history masked_infection_history
           infection_map_indices measurement_map_indices antigenic_map_long
           antigenic_map_short waning number_strains)
        (pt, mt, 0) = Inr (pt', mt', tot))"
  by (auto simp: multiple_infection_titre_dependent_boost_ieee_def rbind_Inr_iff
      named_Inr_iff split: prod.splits)

lemma titre_dependent_loop_ieee_monotone:
  assumes loop: "for_loop 0 n
        (titre_dependent_infection_ieee mu mu_short tau gradient boost_limit wane
           infection_times cumu_infection_history masked_infection_history
           infection_map_indices measurement_map_indices antigenic_map_long
           antigenic_map_short waning number_strains)
        (pt, mt, tot) = Inr (pt', mt', tot')"
    and tot: "tot = NaN \<or> 0 \<le> tot"
  shows "(\<forall>r. 1 \<le> r \<and> int r < n \<and> masked_infection_history ! r > 0
              \<longrightarrow> (mt' ! r = NaN \<or> 0 \<le> mt' ! r)) \<and>
         (\<forall>r r'. 1 \<le> r \<and> r < r' \<and> int r' < n \<and> masked_infection_history ! r > 0 \<and>
                 masked_infection_history ! r' > 0
              \<longrightarrow> (mt' ! r' = NaN \<or> mt' ! r \<le> mt' ! r'))"
proof -
  let ?act = "\<lambda>r. masked_infection_history ! r > 0"
  let ?P = "\<lambda>i (p::double list, m, t). (t = NaN \<or> 0 \<le> t) \<and>
              (\<forall>r. 1 \<le> r \<and> int r < i \<and> ?act r
                   \<longrightarrow> (m ! r = NaN \<or> 0 \<le> m ! r) \<and> (t = NaN \<or> m ! r \<le> t)) \<and>
              (\<forall>r r'. 1 \<le> r \<and> r < r' \<and> int r' < i \<and> ?act r \<and> ?act r'
                   \<longrightarrow> (m ! r' = NaN \<or> m ! r \<le> m ! r'))"
  have "?P (max 0 n) (pt', mt', tot')"
  proof (rule for_loop_inv [where P = ?P, OF loop], goal_cases)
    case 1
    from tot show ?case by simp
  next
    case (2 j s s')
    obtain p m t where s: "s = (p, m, t)" by (cases s)
    obtain p' m' t' where s': "s' = (p', m', t')" by (cases s')
    from 2(3) have P: "t = NaN \<or> 0 \<le> t"
      "\<And>r. 1 \<le> r \<Longrightarrow> int r < j \<Longrightarrow> ?act r \<Longrightarrow> m ! r = NaN \<or> 0 \<le> m ! r"
      "\<And>r. 1 \<le> r \<Longrightarrow> int r < j \<Longrightarrow> ?act r \<Longrightarrow> t = NaN \<or> m ! r \<le> t"
      "\<And>r r'. 1 \<le> r \<Longrightarrow> r < r' \<Longrightarrow> int r' < j \<Longrightarrow> ?act r \<Longrightarrow> ?act r'
                \<Longrightarrow> m ! r' = NaN \<or> m ! r \<le> m ! r'"
      unfolding s by auto
    note eff = titre_dependent_infection_ieee_effect [OF 2(4) [unfolded s s'] P(1)]
    from eff have le: "t' = NaN \<or> t \<le> t'" by simp
    from grows_trans [OF P(1) le] have t': "t' = NaN \<or> 0 \<le> t'" .
    show ?case
    proof (cases "?act (nat j) \<and> 1 \<le> j")
      case True
      with eff have jl: "nat j < length m" and m': "m' = m[nat j := t']"
        by auto
      have old: "m' ! r = m ! r" if "int r < j" for r
        using that m' by simp
      have new: "m' ! nat j = t'"
        using jl m' by simp
      have a: "(m' ! r = NaN \<or> 0 \<le> m' ! r) \<and> (t' = NaN \<or> m' ! r \<le> t')"
        if "1 \<le> r" "int r < j + 1" "?act r" for r
      proof (cases "int r < j")
        case True
        from grows_trans [OF P(3) [OF that(1) True that(3)] le]
        have "t' = NaN \<or> m ! r \<le> t'" .
        with P(2) [OF that(1) True that(3)] old [OF True] show ?thesis by simp
      next
        case False
        with that have "r = nat j" by simp
        with new t' grows_refl [of t'] show ?thesis by simp
      qed
      have b: "m' ! r' = NaN \<or> m' ! r \<le> m' ! r'"
        if "1 \<le> r" "r < r'" "int r' < j + 1" "?act r" "?act r'" for r r'
      proof (cases "int r' < j")
        case True
        with that have "int r < j" by simp
        with True P(4) [of r r'] that old [of r] old [of r'] show ?thesis by simp
      next
        case False
        with that have r': "r' = nat j" and r: "int r < j" by simp_all
        from grows_trans [OF P(3) [OF that(1) r that(4)] le]
        have "t' = NaN \<or> m ! r \<le> t'" .
        with r' new old [OF r] show ?thesis by simp
      qed
      from a b t' show ?thesis
        unfolding s' by auto
    next
      case False
      with eff have same: "m' = m" "t' = t" by auto
      have a: "(m ! r = NaN \<or> 0 \<le> m ! r) \<and> (t = NaN \<or> m ! r \<le> t)"
        if "1 \<le> r" "int r < j + 1" "?act r" for r
      proof -
        from that False have "int r < j" by (cases "int r = j") auto
        with P(2) [of r] P(3) [of r] that show ?thesis by simp
      qed
      have b: "m ! r' = NaN \<or> m ! r \<le> m ! r'"
        if "1 \<le> r" "r < r'" "int r' < j + 1" "?act r" "?act r'" for r r'
      proof -
        from that False have "int r' < j" by (cases "int r' = j") auto
        with P(4) [of r r'] that show ?thesis by simp
      qed
      from a b P(1) show ?thesis
        unfolding s' same by auto
    qed
  qed
  then show ?thesis
    by (auto simp: max_def split: if_splits)
qed

lemmas eval_ieee_defs = multiple_infection_titre_dependent_boost_ieee_def
  titre_dependent_infection_ieee_def monitored_titre_scan_ieee_def
  prior_infection_boost_ieee_def sample_boost_ieee_def add_elem_ieee_def MAX_ieee_def
  zero_double_def one_double_def minus_double_def overflow_def
  for_loop.simps for_down.simps rbind_def named_def elem_def set_elem_def Let_def

text \<open>
  Claim C9 (the running total only grows), as amended. The local \<^verbatim>\<open>monitored_titre\<close> starts
  at zero and is never reset, and every boost added to it is at least zero or NaN (lemma
  \<open>prior_infection_boost_ieee_sign\<close>: the two components and the decay factor are floored at
  zero, \<^verbatim>\<open>MAX(0, NaN)\<close> being zero too, but an infinite short boost times a zero decay factor
  is NaN). So, when the call returns, for two active slots \<open>1 \<le> i < i' < max_infections\<close>
  (the active slots that receive a write): if the final \<^verbatim>\<open>monitored_titres[i']\<close> is not
  NaN, then the final \<^verbatim>\<open>monitored_titres[i]\<close> is at least zero and at most the final
  \<^verbatim>\<open>monitored_titres[i']\<close>. Nothing is assumed of the signs or of the finiteness of
  \<^verbatim>\<open>theta\<close>, of the maps or of the buffers at entry.
\<close>

theorem monitored_titres_monotone_unless_NaN:
  assumes run: "multiple_infection_titre_dependent_boost_ieee predicted_titres
       monitored_titres theta infection_times cumu_infection_history
       masked_infection_history infection_map_indices measurement_map_indices
       antigenic_map_long antigenic_map_short waning number_strains
       = Inr (predicted_titres', monitored_titres')"
    and slots: "1 \<le> i" "i < i'" "i' < length infection_times"
    and active: "masked_infection_history ! i > 0" "masked_infection_history ! i' > 0"
    and number: "monitored_titres' ! i' \<noteq> NaN"
  shows "0 \<le> monitored_titres' ! i \<and> monitored_titres' ! i \<le> monitored_titres' ! i'"
proof -
  from run obtain mu mu_short tau gradient boost_limit wane tot where
    loop: "for_loop 0 (int (length infection_times))
        (titre_dependent_infection_ieee mu mu_short tau gradient boost_limit wane
           infection_times cumu_infection_history masked_infection_history
           infection_map_indices measurement_map_indices antigenic_map_long
           antigenic_map_short waning number_strains)
        (predicted_titres, monitored_titres, 0)
        = Inr (predicted_titres', monitored_titres', tot)"
    unfolding titre_dependent_boost_ieee_Inr_iff by blast
  have zero: "(0::double) = NaN \<or> (0::double) \<le> 0"
    by (simp add: zero_double_def)
  note mono = titre_dependent_loop_ieee_monotone [OF loop zero]
  from mono [THEN conjunct2, rule_format, of i i'] slots active number
  have le: "monitored_titres' ! i \<le> monitored_titres' ! i'" by simp
  then have "monitored_titres' ! i \<noteq> NaN"
    by (simp add: le_double_not_NaN)
  with mono [THEN conjunct1, rule_format, of i] slots active
  have "0 \<le> monitored_titres' ! i" by simp
  with le show ?thesis by simp
qed

theorem monitored_titres_monotone_unless_NaN_witness:
  "multiple_infection_titre_dependent_boost_ieee [0] [0, 0, 0]
     [''mu'' \<mapsto> 1, ''mu_short'' \<mapsto> Finite (2 ^ 1023), ''tau'' \<mapsto> 0, ''gradient'' \<mapsto> 0,
      ''boost_limit'' \<mapsto> Finite 10, ''wane'' \<mapsto> 0]
     [Finite 1, Finite 2, Finite 3] [1, 2, 3] [1, 1, 1] [0, 0, 1] [0]
     [1, 0, 1, 0] [0, 0, Finite 2, 0] [1, 1, 1] 2
   = Inr ([Finite 2], [Finite 0, Finite 1, PInf]) \<and>
   [Finite 0, Finite 1, PInf] ! 2 \<noteq> NaN \<and>
   0 \<le> [Finite 0, Finite 1, PInf] ! 1 \<and>
   [Finite 0, Finite 1, PInf] ! 1 \<le> [Finite 0, Finite 1, PInf] ! 2"
proof -
  have run: "multiple_infection_titre_dependent_boost_ieee [0] [0, 0, 0]
     [''mu'' \<mapsto> 1, ''mu_short'' \<mapsto> Finite (2 ^ 1023), ''tau'' \<mapsto> 0, ''gradient'' \<mapsto> 0,
      ''boost_limit'' \<mapsto> Finite 10, ''wane'' \<mapsto> 0]
     [Finite 1, Finite 2, Finite 3] [1, 2, 3] [1, 1, 1] [0, 0, 1] [0]
     [1, 0, 1, 0] [0, 0, Finite 2, 0] [1, 1, 1] 2
   = Inr ([Finite 2], [Finite 0, Finite 1, PInf])"
    by (simp add: eval_ieee_defs)
  from monitored_titres_monotone_unless_NaN [OF run, of 1 2] run show ?thesis
    by simp
qed

text \<open>
  Claim C9 as stated, for all inputs, fails: with \<^verbatim>\<open>mu_short\<close> \<open>= 2 ^ 1023\<close>, an entry \<open>2\<close> of
  the short map and \<^verbatim>\<open>wane\<close> \<open>= 1\<close>, the short boost of slot \<open>2\<close> from slot \<open>1\<close> overflows to
  infinity (lines 123-125), the decay factor \<open>1 - 1 * (3 - 2)\<close> is zero, and their product (line
  136) is NaN. The call ends with \<^verbatim>\<open>monitored_titres\<close> \<open>= [0, 1, NaN]\<close>: slots \<open>1\<close> and \<open>2\<close> are
  active and written, and \<open>1 \<le> NaN\<close> is false.
\<close>

theorem monitored_titres_not_monotone_counterexample:
  "multiple_infection_titre_dependent_boost_ieee [0] [0, 0, 0]
     [''mu'' \<mapsto> 1, ''mu_short'' \<mapsto> Finite (2 ^ 1023), ''tau'' \<mapsto> 0, ''gradient'' \<mapsto> 0,
      ''boost_limit'' \<mapsto> Finite 10, ''wane'' \<mapsto> 1]
     [Finite 1, Finite 2, Finite 3] [1, 2, 3] [1, 1, 1] [0, 0, 1] [0]
     [1, 0, 1, 0] [0, 0, Finite 2, 0] [1, 1, 1] 2
   = Inr ([Finite 2], [Finite 0, Finite 1, NaN]) \<and>
   (1::nat) \<le> 1 \<and> (1::nat) < 2 \<and> 2 < length [Finite 1, Finite 2, Finite 3] \<and>
   [1, 1, 1 :: int] ! 1 > 0 \<and> [1, 1, 1 :: int] ! 2 > 0 \<and>
   \<not> [Finite 0, Finite 1, NaN] ! 1 \<le> [Finite 0, Finite 1, NaN] ! 2"
  by (simp add: eval_ieee_defs)

subsection \<open>No active slot\<close>

lemma elem_in_set: "elem v i = Inr x \<Longrightarrow> x \<in> set v"
  by (auto simp: elem_Inr_iff)

text \<open>
  Claim C7 (no active slot, no change). If no entry of \<^verbatim>\<open>masked_infection_history\<close> is above
  zero, then each of the three models, when it returns, returns \<^verbatim>\<open>predicted_titres\<close> as it
  was passed (and the titre-dependent model returns \<^verbatim>\<open>monitored_titres\<close> as passed, too).
\<close>

theorem all_inactive_noop:
  assumes inactive: "\<forall>m\<in>set masked_infection_history. m \<le> 0"
  shows "(\<forall>predicted_titres'.
            multiple_infection_base_boosting predicted_titres theta cumu_infection_history
              masked_infection_history infection_map_indices measurement_map_indices
              antigenic_map_long antigenic_map_short waning seniority number_strains
              n_samples max_infections = Inr predicted_titres'
            \<longrightarrow> predicted_titres' = predicted_titres) \<and>
         (\<forall>predicted_titres'.
            multiple_infection_strain_dependent predicted_titres theta cumu_infection_history
              masked_infection_history infection_map_indices measurement_map_indices
              antigenic_map_long antigenic_map_short waning number_strains additional_args
              = Inr predicted_titres'
            \<longrightarrow> predicted_titres' = predicted_titres) \<and>
         (\<forall>predicted_titres' monitored_titres'.
            multiple_infection_titre_dependent_boost predicted_titres monitored_titres theta
              infection_times cumu_infection_history masked_infection_history
              infection_map_indices measurement_map_indices antigenic_map_long
              antigenic_map_short waning number_strains
              = Inr (predicted_titres', monitored_titres')
            \<longrightarrow> predicted_titres' = predicted_titres \<and> monitored_titres' = monitored_titres)"
proof (intro conjI allI impI)
  fix predicted_titres'
  assume "multiple_infection_base_boosting predicted_titres theta cumu_infection_history
              masked_infection_history infection_map_indices measurement_map_indices
              antigenic_map_long antigenic_map_short waning seniority number_strains
              n_samples max_infections = Inr predicted_titres'"
  then obtain body where
    loop: "for_loop 0 max_infections body predicted_titres = Inr predicted_titres'"
    and body: "\<And>i t t'. body i t = Inr t' \<Longrightarrow>
                 \<exists>m. elem masked_infection_history i = Inr m \<and> (\<not> m > 0 \<longrightarrow> t' = t)"
    unfolding multiple_infection_base_boosting_def rbind_Inr_iff
    by (fastforce simp: rbind_Inr_iff)
  have "(\<lambda>i t. t = predicted_titres) (max 0 max_infections) predicted_titres'"
  proof (rule for_loop_inv [where P = "\<lambda>i t. t = predicted_titres", OF loop])
    fix j t t'
    assume "t = predicted_titres" and "body j t = Inr t'"
    with body [of j t t'] inactive show "t' = predicted_titres"
      by (auto dest!: elem_in_set)
  qed simp
  then show "predicted_titres' = predicted_titres" .
next
  fix predicted_titres'
  assume "multiple_infection_strain_dependent predicted_titres theta cumu_infection_history
              masked_infection_history infection_map_indices measurement_map_indices
              antigenic_map_long antigenic_map_short waning number_strains additional_args
              = Inr predicted_titres'"
  then obtain body where
    loop: "for_loop 0 (int (length cumu_infection_history)) body predicted_titres
             = Inr predicted_titres'"
    and body: "\<And>i t t'. body i t = Inr t' \<Longrightarrow>
                 \<exists>m. elem masked_infection_history i = Inr m \<and> (\<not> m > 0 \<longrightarrow> t' = t)"
    unfolding multiple_infection_strain_dependent_def Let_def rbind_Inr_iff
    by (fastforce simp: rbind_Inr_iff Let_def)
  have "(\<lambda>i t. t = predicted_titres) (max 0 (int (length cumu_infection_history)))
          predicted_titres'"
  proof (rule for_loop_inv [where P = "\<lambda>i t. t = predicted_titres", OF loop])
    fix j t t'
    assume "t = predicted_titres" and "body j t = Inr t'"
    with body [of j t t'] inactive show "t' = predicted_titres"
      by (auto dest!: elem_in_set)
  qed simp
  then show "predicted_titres' = predicted_titres" .
next
  fix predicted_titres' monitored_titres'
  assume "multiple_infection_titre_dependent_boost predicted_titres monitored_titres theta
              infection_times cumu_infection_history masked_infection_history
              infection_map_indices measurement_map_indices antigenic_map_long
              antigenic_map_short waning number_strains
              = Inr (predicted_titres', monitored_titres')"
  then obtain mu mu_short tau gradient boost_limit wane tot where
    loop: "for_loop 0 (int (length infection_times))
        (titre_dependent_infection mu mu_short tau gradient boost_limit wane infection_times
           cumu_infection_history masked_infection_history infection_map_indices
           measurement_map_indices antigenic_map_long antigenic_map_short waning
           number_strains)
        (predicted_titres, monitored_titres, 0)
        = Inr (predicted_titres', monitored_titres', tot)"
    unfolding titre_dependent_boost_Inr_iff by blast
  have "(\<lambda>i t. t = (predicted_titres, monitored_titres, 0))
          (max 0 (int (length infection_times))) (predicted_titres', monitored_titres', tot)"
  proof (rule for_loop_inv
      [where P = "\<lambda>i t. t = (predicted_titres, monitored_titres, 0)", OF loop])
    fix j t t'
    assume "t = (predicted_titres, monitored_titres, 0)"
      and "titre_dependent_infection mu mu_short tau gradient boost_limit wane
           infection_times cumu_infection_history masked_infection_history
           infection_map_indices measurement_map_indices antigenic_map_long
           antigenic_map_short waning number_strains j t = Inr t'"
    with inactive show "t' = (predicted_titres, monitored_titres, 0)"
      by (auto simp: titre_dependent_infection_def rbind_Inr_iff Let_def
          dest!: elem_in_set split: if_splits)
  qed simp
  then show "predicted_titres' = predicted_titres" and "monitored_titres' = monitored_titres"
    by simp_all
qed

theorem all_inactive_noop_witness:
  "list_all (\<lambda>m. m \<le> 0) [0, - 1, 0 :: int] \<and>
   multiple_infection_base_boosting [10, 20] [''mu'' \<mapsto> 2, ''mu_short'' \<mapsto> 1] [0, 0, 0]
     [0, - 1, 0] [0, 1, 1] [0, 1] [1, 1/2, 1/2, 1] [1, 0, 0, 1] [1/2, 1, 1] [1, 1, 1/2] 2 2 3
   = Inr [10, 20] \<and>
   multiple_infection_strain_dependent [10, 20] [''mu_short'' \<mapsto> 1, ''tau'' \<mapsto> 1/10]
     [0, 0, 0] [0, - 1, 0] [0, 1, 1] [0, 1] [1, 1/2, 1/2, 1] [1, 0, 0, 1] [1/2, 1, 1] 2
     \<lparr>mus = Some [2, 3], boosting_vec_indices = Some [0, 1]\<rparr>
   = Inr [10, 20] \<and>
   multiple_infection_titre_dependent_boost [10, 20] [7, 8, 9]
     [''mu'' \<mapsto> 2, ''mu_short'' \<mapsto> 1, ''tau'' \<mapsto> 1/10, ''gradient'' \<mapsto> 1/10,
      ''boost_limit'' \<mapsto> 3, ''wane'' \<mapsto> 1/4]
     [1, 2, 3] [0, 0, 0] [0, - 1, 0] [0, 1, 1] [0, 1] [1, 1/2, 1/2, 1]
     [1, 0, 0, 1] [1, 1, 1] 2
   = Inr ([10, 20], [7, 8, 9])"
proof -
  have inactive: "\<forall>m\<in>set [0, - 1, 0 :: int]. m \<le> 0" by simp
  have base: "\<exists>pt'. multiple_infection_base_boosting [10, 20] [''mu'' \<mapsto> 2, ''mu_short'' \<mapsto> 1]
     [0, 0, 0] [0, - 1, 0] [0, 1, 1] [0, 1] [1, 1/2, 1/2, 1] [1, 0, 0, 1] [1/2, 1, 1]
     [1, 1, 1/2] 2 2 3 = Inr pt'"
    by (simp add: eval_defs)
  have strain: "\<exists>pt'. multiple_infection_strain_dependent [10, 20]
     [''mu_short'' \<mapsto> 1, ''tau'' \<mapsto> 1/10]
     [0, 0, 0] [0, - 1, 0] [0, 1, 1] [0, 1] [1, 1/2, 1/2, 1] [1, 0, 0, 1] [1/2, 1, 1] 2
     \<lparr>mus = Some [2, 3], boosting_vec_indices = Some [0, 1]\<rparr> = Inr pt'"
    by (simp add: eval_defs)
  have titre: "\<exists>pt' mt'. multiple_infection_titre_dependent_boost [10, 20] [7, 8, 9]
     [''mu'' \<mapsto> 2, ''mu_short'' \<mapsto> 1, ''tau'' \<mapsto> 1/10, ''gradient'' \<mapsto> 1/10,
      ''boost_limit'' \<mapsto> 3, ''wane'' \<mapsto> 1/4]
     [1, 2, 3] [0, 0, 0] [0, - 1, 0] [0, 1, 1] [0, 1] [1, 1/2, 1/2, 1]
     [1, 0, 0, 1] [1, 1, 1] 2 = Inr (pt', mt')"
    by (simp add: eval_defs)
  from base strain titre all_inactive_noop [OF inactive] show ?thesis
    by (auto simp: list_all_iff)
qed


subsection \<open>The strain-dependent model reads before it tests\<close>

lemma for_loop_Inl:
  assumes "for_loop i n body s = Inl e" and "\<And>k t e'. body k t = Inl e' \<Longrightarrow> e' = e0"
  shows "e = e0"
  using assms
proof (induction i n body s rule: for_loop.induct)
  case (1 i n body s)
  from "1.prems"(1) have lt: "i < n"
    by (simp add: for_loop.simps [of i n] split: if_splits)
  show ?case
  proof (cases "body i s")
    case (Inl e')
    with lt "1.prems"(1) have "e' = e" by (simp add: for_loop.simps [of i n])
    with Inl "1.prems"(2) show ?thesis by blast
  next
    case (Inr t)
    with lt "1.prems"(1) have "for_loop (i + 1) n body t = Inl e"
      by (simp add: for_loop.simps [of i n])
    from "1.IH" [OF lt Inr this "1.prems"(2)] show ?thesis .
  qed
qed

lemma elem_Inl: "elem v i = Inl e \<Longrightarrow> e = IndexOutOfBounds"
  by (auto simp: elem_def split: if_splits)

lemma add_elem_Inl: "add_elem v i x = Inl e \<Longrightarrow> e = IndexOutOfBounds"
  by (auto simp: add_elem_def set_elem_def rbind_Inl_iff elem_def split: if_splits)

text \<open>
  Claim C10 (the group lookup comes before the active check). With \<^verbatim>\<open>theta\<close> and the
  additional arguments complete, if at some slot \<open>i\<close> of the history, active or not, the
  strain index is outside \<^verbatim>\<open>boosting_vec_indices\<close> or the group index it selects is
  outside \<^verbatim>\<open>mus\<close>, the guarded model ends in \<open>IndexOutOfBounds\<close>, whatever
  \<^verbatim>\<open>masked_infection_history[i]\<close> is: lines 26-29 read before line 30 tests. So a call
  that stays in bounds needs valid indices at the inactive slots as well.
\<close>

theorem strain_dependent_lookup_at_every_slot:
  assumes theta: "theta ''mu_short'' = Some mu_short" "theta ''tau'' = Some tau"
    and args: "mus additional_args = Some group_boost"
      "boosting_vec_indices additional_args = Some strain_to_group"
    and slot: "0 \<le> i" "i < int (length cumu_infection_history)"
    and bad: "\<not> (0 \<le> infection_map_indices ! nat i \<and>
                infection_map_indices ! nat i < int (length strain_to_group) \<and>
                0 \<le> strain_to_group ! nat (infection_map_indices ! nat i) \<and>
                strain_to_group ! nat (infection_map_indices ! nat i)
                  < int (length group_boost))"
  shows "multiple_infection_strain_dependent predicted_titres theta cumu_infection_history
           masked_infection_history infection_map_indices measurement_map_indices
           antigenic_map_long antigenic_map_short waning number_strains additional_args
         = Inl IndexOutOfBounds"
proof -
  let ?inner = "\<lambda>cumu inf_map_index mu wane.
        for_loop 0 (int (length measurement_map_indices)) (\<lambda>k predicted_titres.
          rbind (elem measurement_map_indices k) (\<lambda>m.
          rbind (elem antigenic_map_long (m * number_strains + inf_map_index)) (\<lambda>long.
          rbind (elem antigenic_map_short (m * number_strains + inf_map_index)) (\<lambda>short.
          add_elem predicted_titres k
            (MAX_macro 0 (1 - tau * (real_of_int cumu - 1)) *
               ((mu * long) + (mu_short * short) * wane))))))"
  let ?body = "\<lambda>i predicted_titres.
      rbind (elem cumu_infection_history i) (\<lambda>cumu.
      rbind (elem infection_map_indices i) (\<lambda>inf_map_index.
      rbind (elem strain_to_group inf_map_index) (\<lambda>grp.
      rbind (elem group_boost grp) (\<lambda>mu.
      rbind (elem waning i) (\<lambda>wane.
      rbind (elem masked_infection_history i) (\<lambda>masked.
      if masked > 0 then ?inner cumu inf_map_index mu wane predicted_titres
      else Inr predicted_titres))))))"
  have call: "multiple_infection_strain_dependent predicted_titres theta
           cumu_infection_history masked_infection_history infection_map_indices
           measurement_map_indices antigenic_map_long antigenic_map_short waning
           number_strains additional_args
         = for_loop 0 (int (length cumu_infection_history)) ?body predicted_titres"
    using theta args
    by (simp add: multiple_infection_strain_dependent_def named_def list_entry_def Let_def)
  have inner_err: "e = IndexOutOfBounds"
    if "?inner cumu inf_map_index mu wane t = Inl e" for cumu inf_map_index mu wane t e
    using that
    by (rule for_loop_Inl) (auto simp: rbind_Inl_iff dest: elem_Inl add_elem_Inl)
  have body_err: "e = IndexOutOfBounds" if "?body k t = Inl e" for k t e
    using that
    by (auto simp: rbind_Inl_iff dest: elem_Inl inner_err split: if_splits)
  have lookup: "\<exists>e. ?body i t = Inl e" for t
  proof (cases "?body i t")
    case (Inl e)
    then show ?thesis by blast
  next
    case (Inr t')
    with bad have False
      by (auto simp: rbind_Inr_iff elem_Inr_iff)
    then show ?thesis ..
  qed
  from for_loop_fails [of 0 i "int (length cumu_infection_history)" ?body, OF slot lookup]
  obtain e where e: "for_loop 0 (int (length cumu_infection_history)) ?body predicted_titres
                    = Inl e"
    by blast
  from for_loop_Inl [OF e body_err] e call show ?thesis
    by simp
qed

theorem strain_dependent_lookup_at_every_slot_witness:
  "[1, 0 :: int] ! nat 1 \<le> 0 \<and>
   multiple_infection_strain_dependent [10] [''mu_short'' \<mapsto> 1, ''tau'' \<mapsto> 1/10]
     [1, 1] [1, 0] [0, 5] [0] [1] [1] [1, 1] 1
     \<lparr>mus = Some [2], boosting_vec_indices = Some [0]\<rparr>
   = Inl IndexOutOfBounds \<and>
   multiple_infection_strain_dependent [10] [''mu_short'' \<mapsto> 1, ''tau'' \<mapsto> 1/10]
     [1, 1] [1, 0] [0, 0] [0] [1] [1] [1, 1] 1
     \<lparr>mus = Some [2], boosting_vec_indices = Some [0]\<rparr>
   = Inr [13]"
proof -
  have "multiple_infection_strain_dependent [10] [''mu_short'' \<mapsto> 1, ''tau'' \<mapsto> 1/10]
     [1, 1] [1, 0] [0, 5] [0] [1] [1] [1, 1] 1
     \<lparr>mus = Some [2], boosting_vec_indices = Some [0]\<rparr>
   = Inl IndexOutOfBounds"
    by (rule strain_dependent_lookup_at_every_slot [where i = 1 and mu_short = 1
          and tau = "1/10" and group_boost = "[2]" and strain_to_group = "[0]"]) simp_all
  moreover have "multiple_infection_strain_dependent [10]
     [''mu_short'' \<mapsto> 1, ''tau'' \<mapsto> 1/10]
     [1, 1] [1, 0] [0, 0] [0] [1] [1] [1, 1] 1
     \<lparr>mus = Some [2], boosting_vec_indices = Some [0]\<rparr>
   = Inr [13]"
    by (simp add: eval_defs)
  ultimately show ?thesis by simp
qed

subsection \<open>The fast simulator\<close>

lemma MAX_macro_max: "MAX_macro a b = max a b"
  by (simp add: MAX_macro_def max_def)

lemma spec_gated_infections_step:
  assumes "0 \<le> x"
  shows "spec_gated_infections infection_times sample_time (x + 1) =
           (if infection_times ! nat x \<le> sample_time
            then spec_gated_infections infection_times sample_time x @ [x]
            else spec_gated_infections infection_times sample_time x)"
  using upto_snoc [OF assms] by (simp add: spec_gated_infections_def)

lemma infection_scan_effect:
  assumes run: "infection_scan mu mu_short wane tau infection_times
     infection_strain_indices_tmp measurement_strain_indices number_strains
     antigenic_map_short antigenic_map_long sampling_time n_titres tmp_titre_index (pt, 1)
     = Inr (pt', n_inf')"
  shows "length pt' = length pt \<and>
    (\<forall>r. pt' ! r =
       (if tmp_titre_index \<le> int r \<and> int r < tmp_titre_index + n_titres
        then pt ! r + spec_draw_contribution mu mu_short wane tau infection_times
               infection_strain_indices_tmp number_strains antigenic_map_short
               antigenic_map_long sampling_time (measurement_strain_indices ! r)
        else pt ! r))"
proof -
  let ?G = "spec_gated_infections infection_times sampling_time"
  let ?T = "\<lambda>r x. max 0 (1 - tau * real (length (?G x))) *
          (mu * antigenic_map_long !
             nat (measurement_strain_indices ! r * number_strains +
                  infection_strain_indices_tmp ! nat x) +
           mu_short * antigenic_map_short !
             nat (measurement_strain_indices ! r * number_strains +
                  infection_strain_indices_tmp ! nat x) *
             max 0 (1 - wane * (sampling_time - infection_times ! nat x)))"
  let ?P = "\<lambda>x (p, n). n = 1 + real (length (?G x)) \<and> length p = length pt \<and>
     (\<forall>r. p ! r =
       (if tmp_titre_index \<le> int r \<and> int r < tmp_titre_index + n_titres
        then pt ! r + (\<Sum>x'\<leftarrow>?G x. ?T r x') else pt ! r))"
  have "?P (max 0 (int (length infection_times))) (pt', n_inf')"
  proof (rule for_loop_inv [where P = ?P, OF run [unfolded infection_scan_def]], goal_cases)
    case 1
    show ?case by (simp add: spec_gated_infections_def)
  next
    case (2 x s s')
    obtain p n where s: "s = (p, n)" by (cases s)
    obtain p' n' where s': "s' = (p', n')" by (cases s')
    from 2(3) have P: "n = 1 + real (length (?G x))" "length p = length pt"
      "\<And>r. p ! r =
       (if tmp_titre_index \<le> int r \<and> int r < tmp_titre_index + n_titres
        then pt ! r + (\<Sum>x'\<leftarrow>?G x. ?T r x') else pt ! r)"
      unfolding s by auto
    note G = spec_gated_infections_step [OF 2(1), of infection_times sampling_time]
    show ?case
    proof (cases "infection_times ! nat x \<le> sampling_time")
      case False
      with 2(4) have "p' = p" "n' = n"
        unfolding s s' by (auto simp: rbind_Inr_iff elem_Inr_iff)
      with False P G show ?thesis
        unfolding s' by simp
    next
      case True
      let ?c = "\<lambda>k. MAX_macro 0 (1 - tau * (n - 1)) *
          (mu * antigenic_map_long !
             nat (measurement_strain_indices ! nat (tmp_titre_index + k) * number_strains +
                  infection_strain_indices_tmp ! nat x) +
           mu_short * antigenic_map_short !
             nat (measurement_strain_indices ! nat (tmp_titre_index + k) * number_strains +
                  infection_strain_indices_tmp ! nat x) *
             MAX_macro 0 (1 - wane * (sampling_time - infection_times ! nat x)))"
      from True 2(4) have n': "n' = n + 1"
        and inner: "for_loop 0 n_titres (\<lambda>k predicted_titres.
          rbind (elem measurement_strain_indices (tmp_titre_index + k)) (\<lambda>m.
          let index = m * number_strains + infection_strain_indices_tmp ! nat x in
          rbind (elem antigenic_map_long index) (\<lambda>long.
          rbind (elem antigenic_map_short index) (\<lambda>short.
          add_elem predicted_titres (tmp_titre_index + k)
            (MAX_macro 0 (1 - tau * (n - 1)) *
               ((mu * long) + (mu_short * short) *
                  MAX_macro 0 (1 - (wane * (sampling_time - infection_times ! nat x))))))))) p
          = Inr p'"
        unfolding s s' by (auto simp: rbind_Inr_iff elem_Inr_iff Let_def)
      have eff: "length p' = length p \<and>
         (\<forall>r. p' ! r = (if tmp_titre_index \<le> int r \<and> int r < tmp_titre_index + n_titres
                         then p ! r + ?c (int r - tmp_titre_index) else p ! r))"
        by (rule add_loop [OF inner])
          (auto simp: rbind_Inr_iff elem_Inr_iff add_elem_Inr_iff Let_def)
      have c: "?c (int r - tmp_titre_index) = ?T r x" for r
        using P(1) by (simp add: MAX_macro_max)
      from eff c P G True n' show ?thesis
        unfolding s' by (simp add: algebra_simps)
    qed
  qed
  moreover have "?G (max 0 (int (length infection_times))) = ?G (int (length infection_times))"
    by (simp add: max_def)
  ultimately show ?thesis
    by (simp add: spec_draw_contribution_def)
qed


text \<open>
  Claim C5 (the temporal gate of the fast simulator). When the call returns, every row \<open>r\<close>
  holds its initial value plus, for each blood sample \<open>j\<close> whose rows include \<open>r\<close>, the
  contribution of that sample: the sum over the infections \<open>x\<close> with
  \<open>infection_time[x] \<le> sample_time[j]\<close> only, each with the seniority counter one plus the
  number of earlier infections that pass the same gate. An infection later than the sample
  is in neither the sum nor the count: it adds nothing to the rows of the sample and does not
  advance its counter \<^verbatim>\<open>n_inf\<close>, which starts at one.
\<close>

theorem fast_individual_temporal_gate:
  assumes run: "titre_data_fast_individual_base predicted_titres mu mu_short wane tau
     infection_times infection_strain_indices_tmp measurement_strain_indices sample_times
     index_in_samples end_index_in_samples start_index_in_data1 nrows_per_blood_sample
     number_strains antigenic_map_short antigenic_map_long = Inr predicted_titres'"
  shows "length predicted_titres' = length predicted_titres \<and>
    (\<forall>r. predicted_titres' ! r = predicted_titres ! r +
       (\<Sum>j\<leftarrow>[index_in_samples..end_index_in_samples].
          if spec_draw_start start_index_in_data1 nrows_per_blood_sample index_in_samples j
               \<le> int r \<and>
             int r < spec_draw_start start_index_in_data1 nrows_per_blood_sample
                       index_in_samples j + nrows_per_blood_sample ! nat j
          then spec_draw_contribution mu mu_short wane tau infection_times
                 infection_strain_indices_tmp number_strains antigenic_map_short
                 antigenic_map_long (sample_times ! nat j) (measurement_strain_indices ! r)
          else 0))"
proof -
  let ?start = "spec_draw_start start_index_in_data1 nrows_per_blood_sample index_in_samples"
  let ?D = "\<lambda>r j. if ?start j \<le> int r \<and> int r < ?start j + nrows_per_blood_sample ! nat j
          then spec_draw_contribution mu mu_short wane tau infection_times
                 infection_strain_indices_tmp number_strains antigenic_map_short
                 antigenic_map_long (sample_times ! nat j) (measurement_strain_indices ! r)
          else 0"
  let ?Q = "\<lambda>j (p, s). s = ?start j \<and> length p = length predicted_titres \<and>
              (\<forall>r. p ! r = predicted_titres ! r + (\<Sum>j'\<leftarrow>[index_in_samples..j - 1]. ?D r j'))"
  from run obtain s' where loop: "for_loop index_in_samples (end_index_in_samples + 1)
      (\<lambda>j (predicted_titres, start_index_in_data).
        rbind (elem sample_times j) (\<lambda>sampling_time.
        rbind (elem nrows_per_blood_sample j) (\<lambda>n_titres.
        let end_index_in_data = start_index_in_data + n_titres;
            tmp_titre_index = start_index_in_data in
        rbind (infection_scan mu mu_short wane tau infection_times
                 infection_strain_indices_tmp measurement_strain_indices number_strains
                 antigenic_map_short antigenic_map_long sampling_time n_titres
                 tmp_titre_index (predicted_titres, 1))
          (\<lambda>(predicted_titres, n_inf). Inr (predicted_titres, end_index_in_data)))))
      (predicted_titres, start_index_in_data1) = Inr (predicted_titres', s')"
    by (auto simp: titre_data_fast_individual_base_def rbind_Inr_iff split: prod.splits)
  have "?Q (max index_in_samples (end_index_in_samples + 1)) (predicted_titres', s')"
  proof (rule for_loop_inv [where P = ?Q, OF loop], goal_cases)
    case 1
    show ?case by (simp add: spec_draw_start_def)
  next
    case (2 j u u')
    obtain p s where u: "u = (p, s)" by (cases u)
    obtain p' s2 where u': "u' = (p', s2)" by (cases u')
    from 2(3) have Q: "s = ?start j" "length p = length predicted_titres"
      "\<And>r. p ! r = predicted_titres ! r + (\<Sum>j'\<leftarrow>[index_in_samples..j - 1]. ?D r j')"
      unfolding u by auto
    from 2(4) obtain n_inf' where
      s2: "s2 = s + nrows_per_blood_sample ! nat j"
      and scan: "infection_scan mu mu_short wane tau infection_times
                 infection_strain_indices_tmp measurement_strain_indices number_strains
                 antigenic_map_short antigenic_map_long (sample_times ! nat j)
                 (nrows_per_blood_sample ! nat j) s (p, 1) = Inr (p', n_inf')"
      unfolding u u'
      by (auto simp: rbind_Inr_iff elem_Inr_iff Let_def split: prod.splits)
    note eff = infection_scan_effect [OF scan]
    have up: "[index_in_samples..j + 1 - 1] = [index_in_samples..j - 1] @ [j]"
      using upto_rec2 [OF 2(1)] by simp
    have st: "?start (j + 1) = ?start j + nrows_per_blood_sample ! nat j"
      using up by (simp add: spec_draw_start_def)
    have "p' ! r = predicted_titres ! r + (\<Sum>j'\<leftarrow>[index_in_samples..j + 1 - 1]. ?D r j')" for r
      using eff [THEN conjunct2, rule_format, of r] Q(1) Q(3) [of r] up by simp
    with eff Q s2 st show ?case
      unfolding u' by simp
  qed
  moreover have "[index_in_samples..max index_in_samples (end_index_in_samples + 1) - 1]
                 = [index_in_samples..end_index_in_samples]"
    by (simp add: max_def)
  ultimately show ?thesis
    by simp
qed


theorem fast_individual_temporal_gate_witness:
  "titre_data_fast_individual_base [0, 0, 0] 2 1 (1/4) (1/10) [1, 3, 5] [0, 1, 0] [0, 1, 1]
     [2, 4] 0 1 0 [2, 1] 2 [1, 0, 0, 1] [1, 1/2, 1/2, 1]
   = Inr [11/4, 1, 139/40] \<and>
   spec_gated_infections [1, 3, 5] 4 3 = [0, 1] \<and>
   [11/4, 1, 139/40] ! 2 = [0, 0, 0] ! 2 +
       (\<Sum>j\<leftarrow>[0..1].
          if spec_draw_start 0 [2, 1] 0 j \<le> int 2 \<and>
             int 2 < spec_draw_start 0 [2, 1] 0 j + [2, 1] ! nat j
          then spec_draw_contribution 2 1 (1/4) (1/10) [1, 3, 5] [0, 1, 0] 2 [1, 0, 0, 1]
                 [1, 1/2, 1/2, 1] ([2, 4] ! nat j) ([0, 1, 1] ! 2)
          else 0)"
proof -
  have run: "titre_data_fast_individual_base [0, 0, 0] 2 1 (1/4) (1/10) [1, 3, 5] [0, 1, 0]
     [0, 1, 1] [2, 4] 0 1 0 [2, 1] 2 [1, 0, 0, 1] [1, 1/2, 1/2, 1]
   = Inr [11/4, 1, 139/40]"
    by (simp add: eval_defs)
  have gated: "spec_gated_infections [1, 3, 5] 4 3 = [0, 1]"
    by (simp add: spec_gated_infections_def upto.simps)
  from fast_individual_temporal_gate [OF run, THEN conjunct2, rule_format, of 2] run gated
  show ?thesis
    by simp
qed

subsection \<open>The titre-dependent model: the monitored titre as a sum\<close>

lemma prior_infection_boost_spec:
  assumes "prior_infection_boost mu mu_short tau gradient boost_limit wane infection_times
     cumu_infection_history infection_map_indices antigenic_map_long antigenic_map_short
     number_strains (infection_times ! nat i) (infection_map_indices ! nat i) mt ii
     = Inr boost"
  shows "boost = spec_prior_boost mu mu_short tau gradient boost_limit wane infection_times
     cumu_infection_history infection_map_indices antigenic_map_long antigenic_map_short
     number_strains mt i ii"
  using assms
  by (auto simp: prior_infection_boost_def spec_prior_boost_def rbind_Inr_iff elem_Inr_iff
      Let_def MAX_macro_max mult.assoc split: if_splits)

lemma spec_prior_boost_cong:
  assumes "mt' ! nat ii = mt ! nat ii"
  shows "spec_prior_boost mu mu_short tau gradient boost_limit wane infection_times
     cumu_infection_history infection_map_indices antigenic_map_long antigenic_map_short
     number_strains mt' i ii
   = spec_prior_boost mu mu_short tau gradient boost_limit wane infection_times
     cumu_infection_history infection_map_indices antigenic_map_long antigenic_map_short
     number_strains mt i ii"
  using assms by (simp add: spec_prior_boost_def)

lemma spec_monitored_titre_cong:
  assumes "\<And>ii. 0 \<le> ii \<Longrightarrow> ii < i \<Longrightarrow> mt' ! nat ii = mt ! nat ii"
  shows "spec_monitored_titre mu mu_short tau gradient boost_limit wane infection_times
     cumu_infection_history masked_infection_history infection_map_indices
     antigenic_map_long antigenic_map_short number_strains mt' i
   = spec_monitored_titre mu mu_short tau gradient boost_limit wane infection_times
     cumu_infection_history masked_infection_history infection_map_indices
     antigenic_map_long antigenic_map_short number_strains mt i"
  unfolding spec_monitored_titre_def
  by (intro arg_cong [where f = sum_list] map_cong refl spec_prior_boost_cong assms) auto

lemma monitored_titre_scan_spec:
  assumes run: "monitored_titre_scan mu mu_short tau gradient boost_limit wane infection_times
     cumu_infection_history masked_infection_history infection_map_indices
     antigenic_map_long antigenic_map_short number_strains (infection_times ! nat i)
     (infection_map_indices ! nat i) i (mt, tot) = Inr (mt', tot')"
    and i: "0 \<le> i"
  shows "tot' = tot + spec_monitored_titre mu mu_short tau gradient boost_limit wane
     infection_times cumu_infection_history masked_infection_history infection_map_indices
     antigenic_map_long antigenic_map_short number_strains mt i"
proof -
  let ?B = "\<lambda>m ii. spec_prior_boost mu mu_short tau gradient boost_limit wane infection_times
     cumu_infection_history infection_map_indices antigenic_map_long antigenic_map_short
     number_strains m i ii"
  let ?act = "\<lambda>ii. masked_infection_history ! nat ii > 0"
  let ?P = "\<lambda>j (m, t). (\<forall>r. r \<noteq> nat i \<longrightarrow> m ! r = mt ! r) \<and>
              t = tot + (\<Sum>ii\<leftarrow>filter ?act [j + 1..i - 1]. ?B mt ii)"
  have "?P (- 1) (mt', tot')"
  proof (rule for_down_inv [where P = ?P, OF run [unfolded monitored_titre_scan_def]],
      goal_cases)
    case 1
    show ?case by simp
  next
    case 2
    from i show ?case by simp
  next
    case (3 j s s')
    obtain m t where s: "s = (m, t)" by (cases s)
    obtain m' t' where s': "s' = (m', t')" by (cases s')
    from 3(3) have P: "\<And>r. r \<noteq> nat i \<Longrightarrow> m ! r = mt ! r"
      "t = tot + (\<Sum>ii\<leftarrow>filter ?act [j + 1..i - 1]. ?B mt ii)"
      unfolding s by auto
    from 3(1,2) have ne: "nat j \<noteq> nat i" by simp
    have up: "[j - 1 + 1..i - 1] = j # [j + 1..i - 1]"
      using upto_rec1 [of j "i - 1"] 3(2) by simp
    from 3(4) have m': "m' = m[nat i := t']"
      and t': "t' = (if ?act j then t + ?B m j else t)"
      unfolding s s'
      by (auto simp: rbind_Inr_iff set_elem_Inr_iff elem_Inr_iff
          dest: prior_infection_boost_spec split: if_splits)
    have "?B m j = ?B mt j"
      using P(1) [OF ne] by (rule spec_prior_boost_cong)
    with t' P(2) up have "t' = tot + (\<Sum>ii\<leftarrow>filter ?act [j - 1 + 1..i - 1]. ?B mt ii)"
      by simp
    moreover have "m' ! r = mt ! r" if "r \<noteq> nat i" for r
      using that m' P(1) by simp
    ultimately show ?case
      unfolding s' by simp
  qed
  then show ?thesis
    by (simp add: spec_monitored_titre_def)
qed


lemma titre_dependent_infection_spec:
  assumes run: "titre_dependent_infection mu mu_short tau gradient boost_limit wane
     infection_times cumu_infection_history masked_infection_history infection_map_indices
     measurement_map_indices antigenic_map_long antigenic_map_short waning number_strains i
     (pt, mt, tot) = Inr (pt', mt', tot')"
    and i: "0 \<le> i"
  shows "tot' = tot + (if masked_infection_history ! nat i > 0
                       then spec_monitored_titre mu mu_short tau gradient boost_limit wane
                              infection_times cumu_infection_history masked_infection_history
                              infection_map_indices antigenic_map_long antigenic_map_short
                              number_strains mt i
                       else 0)"
proof (cases "masked_infection_history ! nat i > 0")
  case False
  with run show ?thesis
    by (auto simp: titre_dependent_infection_def rbind_Inr_iff elem_Inr_iff Let_def)
next
  case True
  with run have "monitored_titre_scan mu mu_short tau gradient boost_limit wane
             infection_times cumu_infection_history masked_infection_history
             infection_map_indices antigenic_map_long antigenic_map_short number_strains
             (infection_times ! nat i) (infection_map_indices ! nat i) i (mt, tot)
           = Inr (mt', tot')"
    by (auto simp: titre_dependent_infection_def rbind_Inr_iff elem_Inr_iff Let_def
        split: prod.splits)
  from monitored_titre_scan_spec [OF this i] True show ?thesis
    by simp
qed

lemma titre_dependent_loop_spec:
  assumes loop: "for_loop 0 n
        (titre_dependent_infection mu mu_short tau gradient boost_limit wane infection_times
           cumu_infection_history masked_infection_history infection_map_indices
           measurement_map_indices antigenic_map_long antigenic_map_short waning
           number_strains)
        (pt, mt, 0) = Inr (pt', mt', tot')"
    and r: "1 \<le> r" "r < n" and active: "masked_infection_history ! nat r > 0"
  shows "mt' ! nat r =
     (\<Sum>i\<leftarrow>filter (\<lambda>i. masked_infection_history ! nat i > 0) [1..r].
        spec_monitored_titre mu mu_short tau gradient boost_limit wane infection_times
          cumu_infection_history masked_infection_history infection_map_indices
          antigenic_map_long antigenic_map_short number_strains mt' i)"
proof -
  let ?act = "\<lambda>i. masked_infection_history ! nat i > 0"
  let ?S = "spec_monitored_titre mu mu_short tau gradient boost_limit wane infection_times
          cumu_infection_history masked_infection_history infection_map_indices
          antigenic_map_long antigenic_map_short number_strains"
  let ?C = "\<lambda>m k. \<Sum>i\<leftarrow>filter ?act [1..k]. ?S m i"
  have C_cong: "?C m' k = ?C m k"
    if "\<And>ii. 0 \<le> ii \<Longrightarrow> ii < k \<Longrightarrow> m' ! nat ii = m ! nat ii" for m m' :: "real list" and k
  proof (intro arg_cong [where f = sum_list] map_cong refl)
    fix i
    assume "i \<in> set (filter ?act [1..k])"
    then have "i \<le> k" by simp
    then show "?S m' i = ?S m i"
      by (intro spec_monitored_titre_cong that) auto
  qed
  have S0: "?S m 0 = 0" for m
    by (simp add: spec_monitored_titre_def)
  let ?P = "\<lambda>i (p::real list, m, t). t = ?C m (i - 1) \<and>
              (\<forall>r. 1 \<le> r \<and> r < i \<and> ?act r \<longrightarrow> m ! nat r = ?C m r)"
  have "?P (max 0 n) (pt', mt', tot')"
  proof (rule for_loop_inv [where P = ?P, OF loop], goal_cases)
    case 1
    show ?case by simp
  next
    case (2 j s s')
    obtain p m t where s: "s = (p, m, t)" by (cases s)
    obtain p' m' t' where s': "s' = (p', m', t')" by (cases s')
    from 2(3) have P: "t = ?C m (j - 1)"
      "\<And>r. 1 \<le> r \<Longrightarrow> r < j \<Longrightarrow> ?act r \<Longrightarrow> m ! nat r = ?C m r"
      unfolding s by auto
    note eff = titre_dependent_infection_effect [OF 2(4) [unfolded s s']]
    note spec = titre_dependent_infection_spec [OF 2(4) [unfolded s s'] 2(1)]
    have same: "m' ! nat ii = m ! nat ii" if "0 \<le> ii" "ii < j" for ii
    proof -
      from that have "nat ii \<noteq> nat j" by simp
      with eff show ?thesis by (auto split: if_splits)
    qed
    have step: "?C m j = ?C m (j - 1) + (if ?act j then ?S m j else 0)"
    proof (cases "1 \<le> j")
      case True
      from upto_rec2 [OF True] show ?thesis by simp
    next
      case False
      with 2(1) have "j = 0" by simp
      then show ?thesis by (simp add: S0)
    qed
    have t': "t' = ?C m' j"
      using spec P(1) step C_cong [of j m' m, OF same] by simp
    have "m' ! nat r = ?C m' r" if "1 \<le> r" "r < j + 1" "?act r" for r
    proof (cases "r = j")
      case True
      with that eff have "m' ! nat r = t'" by auto
      with t' True show ?thesis by simp
    next
      case False
      with that have lt: "r < j" by simp
      from that have "0 \<le> r" by simp
      from same [OF this lt] P(2) [OF that(1) lt that(3)] have "m' ! nat r = ?C m r"
        by simp
      moreover have "?C m' r = ?C m r"
        using lt by (intro C_cong same) auto
      ultimately show ?thesis by simp
    qed
    with t' show ?case
      unfolding s' by simp
  qed
  with r active show ?thesis
    by (simp add: max_def)
qed


text \<open>
  What the call writes to \<^verbatim>\<open>monitored_titres\<close>, in general. When the call returns, the final
  \<^verbatim>\<open>monitored_titres[i]\<close> of an active slot \<open>1 \<le> i < max_infections\<close> is the sum that the
  specification gives for the slot \<open>i\<close>, plus the same sums of all the active slots
  \<open>1 \<le> i' < i\<close>: what the local \<^verbatim>\<open>monitored_titre\<close> holds when the scan of the slot \<open>i\<close> starts.
  The sums read the final \<^verbatim>\<open>monitored_titres\<close>, which below the slot they are taken for are
  the values the call read.
\<close>

theorem monitored_titre_carried_over:
  assumes theta: "theta ''mu'' = Some mu" "theta ''mu_short'' = Some mu_short"
      "theta ''tau'' = Some tau" "theta ''gradient'' = Some gradient"
      "theta ''boost_limit'' = Some boost_limit" "theta ''wane'' = Some wane"
    and run: "multiple_infection_titre_dependent_boost predicted_titres monitored_titres
       theta infection_times cumu_infection_history masked_infection_history
       infection_map_indices measurement_map_indices antigenic_map_long antigenic_map_short
       waning number_strains = Inr (predicted_titres', monitored_titres')"
    and slot: "1 \<le> i" "i < int (length infection_times)"
    and active: "masked_infection_history ! nat i > 0"
  shows "monitored_titres' ! nat i =
     (\<Sum>i'\<leftarrow>filter (\<lambda>i'. masked_infection_history ! nat i' > 0) [1..i - 1].
        spec_monitored_titre mu mu_short tau gradient boost_limit wane infection_times
          cumu_infection_history masked_infection_history infection_map_indices
          antigenic_map_long antigenic_map_short number_strains monitored_titres' i') +
     spec_monitored_titre mu mu_short tau gradient boost_limit wane infection_times
       cumu_infection_history masked_infection_history infection_map_indices
       antigenic_map_long antigenic_map_short number_strains monitored_titres' i"
proof -
  from run theta obtain tot where
    loop: "for_loop 0 (int (length infection_times))
        (titre_dependent_infection mu mu_short tau gradient boost_limit wane infection_times
           cumu_infection_history masked_infection_history infection_map_indices
           measurement_map_indices antigenic_map_long antigenic_map_short waning
           number_strains)
        (predicted_titres, monitored_titres, 0) = Inr (predicted_titres', monitored_titres', tot)"
    unfolding titre_dependent_boost_Inr_iff by auto
  from titre_dependent_loop_spec [OF loop slot active] upto_rec2 [OF slot(1)] active
  show ?thesis by simp
qed

theorem monitored_titre_carried_over_witness:
  "multiple_infection_titre_dependent_boost [4, 0] [0, 7, 9, 3]
     [''mu'' \<mapsto> 2, ''mu_short'' \<mapsto> 1, ''tau'' \<mapsto> 1/10, ''gradient'' \<mapsto> 1/10,
      ''boost_limit'' \<mapsto> 3, ''wane'' \<mapsto> 1/4]
     [1, 2, 3, 5] [1, 2, 2, 3] [1, 1, 0, 1] [0, 1, 1, 0] [0, 1] [1, 1/2, 1/2, 1]
     [1, 0, 0, 1] [1, 1, 1, 1/2] 2
   = Inr ([921/100, 399/100], [0, 1, 9, 381/100]) \<and>
   [0, 1, 9, 381/100] ! nat 3 =
     (\<Sum>i'\<leftarrow>filter (\<lambda>i'. [1, 1, 0, 1] ! nat i' > (0::int)) [1..3 - 1].
        spec_monitored_titre 2 1 (1/10) (1/10) 3 (1/4) [1, 2, 3, 5] [1, 2, 2, 3]
          [1, 1, 0, 1] [0, 1, 1, 0] [1, 1/2, 1/2, 1] [1, 0, 0, 1] 2 [0, 1, 9, 381/100] i') +
     spec_monitored_titre 2 1 (1/10) (1/10) 3 (1/4) [1, 2, 3, 5] [1, 2, 2, 3]
       [1, 1, 0, 1] [0, 1, 1, 0] [1, 1/2, 1/2, 1] [1, 0, 0, 1] 2 [0, 1, 9, 381/100] 3"
proof -
  let ?theta = "[''mu'' \<mapsto> 2::real, ''mu_short'' \<mapsto> 1, ''tau'' \<mapsto> 1/10,
      ''gradient'' \<mapsto> 1/10, ''boost_limit'' \<mapsto> 3, ''wane'' \<mapsto> 1/4]"
  have theta: "?theta ''mu'' = Some 2" "?theta ''mu_short'' = Some 1"
    "?theta ''tau'' = Some (1/10)" "?theta ''gradient'' = Some (1/10)"
    "?theta ''boost_limit'' = Some 3" "?theta ''wane'' = Some (1/4)"
    by simp_all
  have run: "multiple_infection_titre_dependent_boost [4, 0] [0, 7, 9, 3] ?theta
     [1, 2, 3, 5] [1, 2, 2, 3] [1, 1, 0, 1] [0, 1, 1, 0] [0, 1] [1, 1/2, 1/2, 1]
     [1, 0, 0, 1] [1, 1, 1, 1/2] 2
   = Inr ([921/100, 399/100], [0, 1, 9, 381/100])"
    by (simp add: eval_defs)
  from monitored_titre_carried_over [OF theta run, of 3] run show ?thesis
    by simp
qed

text \<open>
  Claim C1 (the monitored titre of a slot is the sum over its earlier slots, starting from
  zero) at three active slots of one strain, with \<open>mu = 1\<close> and no seniority, no
  suppression and no waning: every earlier slot adds \<open>1\<close>, so the claim gives \<open>2\<close> for the
  slot \<open>2\<close>. The call writes \<open>3\<close>: the local \<^verbatim>\<open>monitored_titre\<close> still holds the \<open>1\<close> it
  summed for the slot \<open>1\<close> when the scan of the slot \<open>2\<close> starts.
\<close>

theorem monitored_titre_not_reset:
  "multiple_infection_titre_dependent_boost [0] [0, 0, 0]
     [''mu'' \<mapsto> 1, ''mu_short'' \<mapsto> 0, ''tau'' \<mapsto> 0, ''gradient'' \<mapsto> 0,
      ''boost_limit'' \<mapsto> 10, ''wane'' \<mapsto> 0]
     [1, 2, 3] [1, 2, 3] [1, 1, 1] [0, 0, 0] [0] [1] [0] [1, 1, 1] 1
   = Inr ([3], [0, 1, 3]) \<and>
   spec_monitored_titre 1 0 0 0 10 0 [1, 2, 3] [1, 2, 3] [1, 1, 1] [0, 0, 0] [1] [0] 1
     [0, 1, 3] 2 = 2 \<and>
   [0, 1, 3 :: real] ! nat 2 \<noteq> 2"
  by (simp add: eval_defs spec_monitored_titre_def spec_prior_boost_def upto.simps)

end
